theory Spec2Isabelle
  imports Main "HOL-Library.Word"
begin

unbundle bit_operations_syntax

section \<open>Consensus constants (consensus/consensus.h)\<close>

definition MAX_BLOCK_SERIALIZED_SIZE :: nat where
  "MAX_BLOCK_SERIALIZED_SIZE = 2000000"

definition MAX_BLOCK_SIGOPS_COST :: int where
  "MAX_BLOCK_SIGOPS_COST = 160000"

definition COINBASE_MATURITY :: int where
  "COINBASE_MATURITY = 100"

definition HF_ZEROCOIN_DISABLE :: int where
  "HF_ZEROCOIN_DISABLE = 266765"

definition HF_CHAIN_REWARD_END_HEIGHT :: "32 word" where
  "HF_CHAIN_REWARD_END_HEIGHT = 717499999"

section \<open>Block reward (GetBlockValue, GetBlockSubsidy)\<close>

text \<open>
  \<^verbatim>\<open>COIN\<close> is declared in amount.h, which is not part of the sources at hand; it is the
  number of base units of one coin.
\<close>

definition COIN :: "64 word" where
  "COIN = 100000000"

text \<open>
  The taper branch of both functions is evaluated by the C++ code in \<^verbatim>\<open>double\<close>
  arithmetic and converted back to \<^verbatim>\<open>int64_t\<close>. The two expressions are parameters
  of the model:
  \<^item> \<open>taper_value h f\<close> stands for
    \<^verbatim>\<open>floor(0.5+((double)(5000 * 143500)/(nHeight +1))) * COIN + nFees\<close>,
  \<^item> \<open>taper_subsidy h\<close> stands for
    \<^verbatim>\<open>floor(0.5+((double)(5000 * 143500)/(nHeight +1))) * COIN\<close>.
  \<^verbatim>\<open>nStartRewardTime\<close> and \<^verbatim>\<open>MainNet()\<close> are defined outside validation.cpp and
  are parameters as well.
\<close>

record reward_env =
  taper_value :: "32 word \<Rightarrow> 64 word \<Rightarrow> 64 word"
  taper_subsidy :: "32 word \<Rightarrow> 64 word"
  nStartRewardTime :: "32 word"
  MainNet :: bool

text \<open>
  \<^verbatim>\<open>int64_t GetBlockValue(int nHeight, int64_t nFees, unsigned int nTime)\<close>: four
  successive \<^verbatim>\<open>if\<close> statements assign to \<^verbatim>\<open>value\<close>; the model threads the variable
  through them in the same order.
\<close>

definition GetBlockValue :: "reward_env \<Rightarrow> 32 word \<Rightarrow> 64 word \<Rightarrow> 32 word \<Rightarrow> 64 word" where
  "GetBlockValue env nHeight nFees nTime =
    (let value0 = 0 * COIN;
         value1 = (if (nTime < nStartRewardTime env \<and> MainNet env) \<or> nHeight = 0
                   then 0 * COIN else value0);
         value2 = (if 0 <s nHeight \<and> nHeight \<le>s 143499
                   then 5000 * COIN + nFees else value1);
         value3 = (if 143499 <s nHeight \<and> nHeight \<le>s HF_CHAIN_REWARD_END_HEIGHT
                   then taper_value env nHeight nFees else value2);
         value4 = (if HF_CHAIN_REWARD_END_HEIGHT <s nHeight
                   then nFees else value3)
     in value4)"

text \<open>\<^verbatim>\<open>CAmount GetBlockSubsidy(int nHeight, const Consensus::Params&)\<close>.\<close>

definition GetBlockSubsidy :: "reward_env \<Rightarrow> 32 word \<Rightarrow> 64 word" where
  "GetBlockSubsidy env nHeight =
    (if nHeight = 0 then 0
     else if 143499 <s nHeight \<and> nHeight \<le>s HF_CHAIN_REWARD_END_HEIGHT
          then taper_subsidy env nHeight
     else 5000 * COIN)"


section \<open>Validation results\<close>

text \<open>
  A function of validation.cpp reports failure by returning \<^verbatim>\<open>false\<close>, usually after
  recording the reason in its \<^verbatim>\<open>CValidationState\<close> argument. The model returns the
  failure as a value:
  \<^item> \<open>Invalid d c r cp\<close> is \<^verbatim>\<open>state.DoS(d, false, c, r, cp)\<close> (with
    \<^verbatim>\<open>state.Invalid(false, c, r)\<close> being the case \<open>d = 0\<close>): the state is marked invalid;
  \<^item> \<open>Unset\<close> is a \<^verbatim>\<open>return false\<close> that leaves the state untouched;
  \<^item> \<open>Error r\<close> is \<^verbatim>\<open>state.Error(r)\<close> (also through \<^verbatim>\<open>AbortNode\<close>);
  \<^item> \<open>Crash\<close> is a failed \<^verbatim>\<open>assert\<close>, an uncaught exception or a null dereference.
\<close>

datatype reject_code =
    REJECT_NONE | REJECT_INVALID | REJECT_OBSOLETE | REJECT_DUPLICATE | REJECT_NONSTANDARD
  | REJECT_INSUFFICIENTFEE | REJECT_HIGHFEE | REJECT_ALREADY_KNOWN | REJECT_CONFLICT

datatype failure =
    Invalid (nDoS: nat) (rejectCode: reject_code) (rejectReason: string) (corruptionPossible: bool)
  | Unset
  | Error string
  | Crash

fun IsInvalid :: "failure \<Rightarrow> bool" where
  "IsInvalid (Invalid d c r cp) = True"
| "IsInvalid f = False"

fun CorruptionPossible :: "failure \<Rightarrow> bool" where
  "CorruptionPossible (Invalid d c r cp) = cp"
| "CorruptionPossible f = False"

section \<open>Block headers and the block index\<close>

type_synonym uint256 = nat

record CBlockHeader =
  nVersion :: int
  hashPrevBlock :: uint256
  hashMerkleRoot :: uint256
  nTime :: "32 word"
  nBits :: "32 word"
  nNonce :: "32 word"

text \<open>
  Modelled from the spec: chain.h, which declares \<^verbatim>\<open>CBlockIndex\<close>, its status flags and
  the functions \<^verbatim>\<open>GetMedianTimePast\<close>, \<^verbatim>\<open>GetAncestor\<close>, \<^verbatim>\<open>GetUndoPos\<close>,
  \<^verbatim>\<open>IsValid\<close> and \<^verbatim>\<open>RaiseValidity\<close>, is not among the sources. The status word is the
  validity level together with the four flags of the data model; the levels are ordered
  \<open>TREE < TRANSACTIONS < CHAIN < SCRIPTS\<close>.
\<close>

datatype validity = VALID_UNKNOWN | VALID_TREE | VALID_TRANSACTIONS | VALID_CHAIN | VALID_SCRIPTS

fun level :: "validity \<Rightarrow> nat" where
  "level VALID_UNKNOWN = 0"
| "level VALID_TREE = 2"
| "level VALID_TRANSACTIONS = 3"
| "level VALID_CHAIN = 4"
| "level VALID_SCRIPTS = 5"

record block_status =
  validLevel :: validity
  HAVE_DATA :: bool
  HAVE_UNDO :: bool
  FAILED_VALID :: bool
  FAILED_CHILD :: bool

text \<open>
  A \<^verbatim>\<open>CBlockIndex*\<close> is the key under which \<^verbatim>\<open>mapBlockIndex\<close> holds the entry (its
  hash); \<open>None\<close> is the null pointer. \<^verbatim>\<open>phashBlock\<close> is null for an index object that
  is not in the map.
\<close>

record CBlockIndex =
  phashBlock :: "uint256 option"
  pprev :: "uint256 option"
  nHeight :: int
  nFile :: int
  nDataPos :: nat
  nUndoPos :: nat
  nChainWork :: nat
  nTx :: nat
  nChainTx :: nat
  nStatus :: block_status
  idx_nVersion :: int
  idx_hashMerkleRoot :: uint256
  idx_nTime :: "32 word"
  idx_nBits :: "32 word"
  idx_nNonce :: "32 word"
  nSequenceId :: nat

type_synonym BlockMap = "uint256 \<rightharpoonup> CBlockIndex"

definition deref :: "BlockMap \<Rightarrow> uint256 option \<Rightarrow> CBlockIndex option" where
  "deref m p = (case p of None \<Rightarrow> None | Some h \<Rightarrow> m h)"

definition GetBlockTime :: "CBlockIndex \<Rightarrow> int" where
  "GetBlockTime b = uint (idx_nTime b)"

text \<open>
  Modelled from the spec: ``median time past: median of the previous 11 block
  timestamps''. The entry itself and up to ten of its ancestors are read, following
  \<^verbatim>\<open>pprev\<close>; the timestamps are sorted and the middle one is returned.
\<close>

fun times_back :: "BlockMap \<Rightarrow> nat \<Rightarrow> CBlockIndex option \<Rightarrow> int list" where
  "times_back m 0 p = []"
| "times_back m (Suc k) None = []"
| "times_back m (Suc k) (Some b) = GetBlockTime b # times_back m k (deref m (pprev b))"

definition GetMedianTimePast :: "BlockMap \<Rightarrow> CBlockIndex \<Rightarrow> int" where
  "GetMedianTimePast m b =
    (let ts = sort (times_back m 11 (Some b)) in ts ! (length ts div 2))"

text \<open>
  Modelled from the spec: \<^verbatim>\<open>GetAncestor(height)\<close> is the ancestor at the given height,
  null when the height is negative or above the entry's own. The skip pointers only
  shorten the walk along \<^verbatim>\<open>pprev\<close>, which the model follows one step at a time.
\<close>

fun walk_back :: "BlockMap \<Rightarrow> nat \<Rightarrow> CBlockIndex option \<Rightarrow> CBlockIndex option" where
  "walk_back m 0 p = p"
| "walk_back m (Suc k) None = None"
| "walk_back m (Suc k) (Some b) = walk_back m k (deref m (pprev b))"

definition GetAncestor :: "BlockMap \<Rightarrow> CBlockIndex \<Rightarrow> int \<Rightarrow> CBlockIndex option" where
  "GetAncestor m b height =
    (if height > nHeight b \<or> height < 0 then None
     else walk_back m (nat (nHeight b - height)) (Some b))"

record consensus_params =
  hashGenesisBlock :: uint256
  nMajorityEnforceBlockUpgrade :: nat
  nMajorityRejectBlockOutdated :: nat
  nMajorityWindow :: int
  BIP34Height :: int
  BIP34Hash :: uint256

text \<open>
  \<^verbatim>\<open>IsSuperMajority\<close>: the loop runs while \<^verbatim>\<open>i < nMajorityWindow\<close>,
  \<^verbatim>\<open>nFound < nRequired\<close> and \<^verbatim>\<open>pstart != NULL\<close>; the first argument of \<open>majority_loop\<close>
  is the number of iterations left.
\<close>

fun majority_loop :: "BlockMap \<Rightarrow> nat \<Rightarrow> int \<Rightarrow> CBlockIndex option \<Rightarrow> nat \<Rightarrow> nat \<Rightarrow> nat" where
  "majority_loop m 0 minVersion pstart nRequired nFound = nFound"
| "majority_loop m (Suc k) minVersion None nRequired nFound = nFound"
| "majority_loop m (Suc k) minVersion (Some b) nRequired nFound =
    (if nFound < nRequired
     then majority_loop m k minVersion (deref m (pprev b)) nRequired
            (if idx_nVersion b \<ge> minVersion then nFound + 1 else nFound)
     else nFound)"

definition IsSuperMajority :: "BlockMap \<Rightarrow> consensus_params \<Rightarrow> int \<Rightarrow> CBlockIndex option \<Rightarrow> nat \<Rightarrow> bool" where
  "IsSuperMajority m params minVersion pstart nRequired =
    (majority_loop m (nat (nMajorityWindow params)) minVersion pstart nRequired 0 \<ge> nRequired)"

section \<open>Contextual header check\<close>

text \<open>
  Modelled from the spec: ``max future block time: 2 hours'' (\<^verbatim>\<open>MAX_FUTURE_BLOCK_TIME\<close>
  is declared outside the sources at hand).
\<close>

definition MAX_FUTURE_BLOCK_TIME :: int where
  "MAX_FUTURE_BLOCK_TIME = 2 * 60 * 60"

text \<open>
  \<^verbatim>\<open>strprintf("bad-version(0x%08x)", version - 1)\<close> for the versions 2, 3 and 4 that the
  loop visits.
\<close>

definition bad_version_reason :: "int \<Rightarrow> string" where
  "bad_version_reason version =
    (if version = 2 then ''bad-version(0x00000001)''
     else if version = 3 then ''bad-version(0x00000002)''
     else ''bad-version(0x00000003)'')"

fun outdated_version :: "BlockMap \<Rightarrow> consensus_params \<Rightarrow> int \<Rightarrow> CBlockIndex \<Rightarrow> int list \<Rightarrow> failure + unit" where
  "outdated_version m params blockVersion pindexPrev [] = Inr ()"
| "outdated_version m params blockVersion pindexPrev (version # vs) =
    (if blockVersion < version \<and>
        IsSuperMajority m params version (Some pindexPrev) (nMajorityRejectBlockOutdated params)
     then Inl (Invalid 0 REJECT_OBSOLETE (bad_version_reason version) False)
     else outdated_version m params blockVersion pindexPrev vs)"

text \<open>
  \<^verbatim>\<open>ContextualCheckBlockHeader(block, state, pindexPrev)\<close>. \<open>nextWork\<close> is the value of
  \<^verbatim>\<open>GetNextWorkRequired(pindexPrev, &block, consensusParams)\<close> and \<open>adjustedTime\<close> that
  of \<^verbatim>\<open>GetAdjustedTime()\<close>; both functions live outside validation.cpp.
\<close>

definition ContextualCheckBlockHeader ::
  "BlockMap \<Rightarrow> consensus_params \<Rightarrow> 32 word \<Rightarrow> int \<Rightarrow> 'a CBlockHeader_scheme \<Rightarrow> CBlockIndex \<Rightarrow> failure + unit" where
  "ContextualCheckBlockHeader m params nextWork adjustedTime block pindexPrev =
    (if nBits block \<noteq> nextWork
       then Inl (Invalid 100 REJECT_INVALID ''bad-diffbits'' False)
     else if uint (nTime block) \<le> GetMedianTimePast m pindexPrev
       then Inl (Invalid 0 REJECT_INVALID ''time-too-old'' False)
     else if uint (nTime block) > adjustedTime + MAX_FUTURE_BLOCK_TIME
       then Inl (Invalid 0 REJECT_INVALID ''time-too-new'' False)
     else outdated_version m params (nVersion block) pindexPrev [2, 3, 4])"



section \<open>Transactions\<close>

type_synonym CScript = "8 word list"

type_synonym CAmount = int

text \<open>
  The index of an outpoint is a \<^verbatim>\<open>uint32_t\<close>; it is a natural number here (a
  transaction has fewer than \<open>2 ^ 32\<close> outputs).
\<close>

datatype COutPoint = COutPoint (prevout_hash: uint256) (prevout_n: nat)

record CTxIn =
  prevout :: COutPoint
  scriptSig :: CScript
  nSequence :: "32 word"

record CTxOut =
  nValue :: CAmount
  scriptPubKey :: CScript

text \<open>
  \<^verbatim>\<open>nVersion\<close> is an \<^verbatim>\<open>int32_t\<close>; it is kept as the 32-bit pattern, read unsigned
  (\<open>uint\<close>, as \<^verbatim>\<open>static_cast<uint32_t>\<close> does) or signed (\<open>sint\<close>).
\<close>

record CTransaction =
  tx_nVersion :: "32 word"
  vin :: "CTxIn list"
  vout :: "CTxOut list"
  nLockTime :: "32 word"

record CBlock = CBlockHeader +
  vtx :: "CTransaction list"
  fChecked :: bool

section \<open>Relative lock-time (BIP 68)\<close>

definition LOCKTIME_VERIFY_SEQUENCE :: "32 word" where
  "LOCKTIME_VERIFY_SEQUENCE = push_bit 0 1"

definition LOCKTIME_MEDIAN_TIME_PAST :: "32 word" where
  "LOCKTIME_MEDIAN_TIME_PAST = push_bit 1 1"

text \<open>
  Modelled from the spec: ``sequence-lock disable bit: bit 31; type-flag bit: bit 22;
  value mask: low 16 bits; relative-lock sequence granularity: 9''. The four constants
  are members of \<^verbatim>\<open>CTxIn\<close>, declared outside the sources at hand.
\<close>

definition SEQUENCE_LOCKTIME_DISABLE_FLAG :: "32 word" where
  "SEQUENCE_LOCKTIME_DISABLE_FLAG = push_bit 31 1"

definition SEQUENCE_LOCKTIME_TYPE_FLAG :: "32 word" where
  "SEQUENCE_LOCKTIME_TYPE_FLAG = push_bit 22 1"

definition SEQUENCE_LOCKTIME_MASK :: "32 word" where
  "SEQUENCE_LOCKTIME_MASK = 0x0000ffff"

definition SEQUENCE_LOCKTIME_GRANULARITY :: nat where
  "SEQUENCE_LOCKTIME_GRANULARITY = 9"

text \<open>
  A C++ \<^verbatim>\<open>int\<close> is a HOL integer between \<open>- 2 ^ 31\<close> and \<open>2 ^ 31 - 1\<close>. Where the code
  adds two of them the sum is brought back into that range, which is what the compiled
  code does when the addition overflows.
\<close>

definition int32 :: "int \<Rightarrow> int" where
  "int32 z = (z + 2147483648) mod 4294967296 - 2147483648"

text \<open>
  The loop of \<^verbatim>\<open>CalculateSequenceLocks\<close> over the inputs and their heights, carrying
  \<^verbatim>\<open>nMinHeight\<close> and \<^verbatim>\<open>nMinTime\<close>; it returns the pair together with the heights as
  the loop leaves them (\<^verbatim>\<open>(*prevHeights)[txinIndex] = 0\<close> for an input that is not
  sequence locked). The heights are C++ \<^verbatim>\<open>int\<close>s; the times are \<^verbatim>\<open>int64_t\<close>, sums of a
  median of 32-bit times and a 25-bit value, which stay in range.
\<close>

fun sequence_lock_loop ::
  "BlockMap \<Rightarrow> CBlockIndex \<Rightarrow> CTxIn list \<Rightarrow> int list \<Rightarrow> int \<times> int
     \<Rightarrow> failure + ((int \<times> int) \<times> int list)" where
  "sequence_lock_loop m block [] hs (nMinHeight, nMinTime) = Inr ((nMinHeight, nMinTime), [])"
| "sequence_lock_loop m block (txin # ins) [] (nMinHeight, nMinTime) = Inl Crash"
| "sequence_lock_loop m block (txin # ins) (nCoinHeight # hs) (nMinHeight, nMinTime) =
    (if nSequence txin AND SEQUENCE_LOCKTIME_DISABLE_FLAG \<noteq> 0 then
       (case sequence_lock_loop m block ins hs (nMinHeight, nMinTime) of
          Inl e \<Rightarrow> Inl e
        | Inr (lp, hs') \<Rightarrow> Inr (lp, 0 # hs'))
     else if nSequence txin AND SEQUENCE_LOCKTIME_TYPE_FLAG \<noteq> 0 then
       (case GetAncestor m block (max (int32 (nCoinHeight - 1)) 0) of
          None \<Rightarrow> Inl Crash
        | Some a \<Rightarrow>
           (let nCoinTime = GetMedianTimePast m a;
                nMinTime' = max nMinTime
                  (nCoinTime + uint (push_bit SEQUENCE_LOCKTIME_GRANULARITY
                      (nSequence txin AND SEQUENCE_LOCKTIME_MASK)) - 1)
            in case sequence_lock_loop m block ins hs (nMinHeight, nMinTime') of
                 Inl e \<Rightarrow> Inl e
               | Inr (lp, hs') \<Rightarrow> Inr (lp, nCoinHeight # hs')))
     else
       (let nMinHeight' = max nMinHeight
              (int32 (nCoinHeight + uint (nSequence txin AND SEQUENCE_LOCKTIME_MASK) - 1))
        in case sequence_lock_loop m block ins hs (nMinHeight', nMinTime) of
             Inl e \<Rightarrow> Inl e
           | Inr (lp, hs') \<Rightarrow> Inr (lp, nCoinHeight # hs')))"

definition CalculateSequenceLocks ::
  "BlockMap \<Rightarrow> CTransaction \<Rightarrow> 32 word \<Rightarrow> int list \<Rightarrow> CBlockIndex
     \<Rightarrow> failure + ((int \<times> int) \<times> int list)" where
  "CalculateSequenceLocks m tx flags prevHeights block =
    (if length prevHeights \<noteq> length (vin tx) then Inl Crash
     else
       (let fEnforceBIP68 = (tx_nVersion tx \<ge> 2 \<and> flags AND LOCKTIME_VERIFY_SEQUENCE \<noteq> 0)
        in if \<not> fEnforceBIP68 then Inr ((- 1, - 1), prevHeights)
           else sequence_lock_loop m block (vin tx) prevHeights (- 1, - 1)))"

definition EvaluateSequenceLocks :: "BlockMap \<Rightarrow> CBlockIndex \<Rightarrow> int \<times> int \<Rightarrow> failure + bool" where
  "EvaluateSequenceLocks m block lockPair =
    (case deref m (pprev block) of
       None \<Rightarrow> Inl Crash
     | Some p \<Rightarrow>
        (let nBlockTime = GetMedianTimePast m p
         in if fst lockPair \<ge> nHeight block \<or> snd lockPair \<ge> nBlockTime then Inr False
            else Inr True))"

definition SequenceLocks ::
  "BlockMap \<Rightarrow> CTransaction \<Rightarrow> 32 word \<Rightarrow> int list \<Rightarrow> CBlockIndex \<Rightarrow> failure + (bool \<times> int list)" where
  "SequenceLocks m tx flags prevHeights block =
    (case CalculateSequenceLocks m tx flags prevHeights block of
       Inl e \<Rightarrow> Inl e
     | Inr (lockPair, hs') \<Rightarrow>
        (case EvaluateSequenceLocks m block lockPair of
           Inl e \<Rightarrow> Inl e
         | Inr ok \<Rightarrow> Inr (ok, hs')))"

section \<open>Functions declared outside validation.cpp\<close>

text \<open>
  The transaction and script primitives, the serialisation sizes, the proof-of-work
  test, the merkle root and the InstantSend lock table are used by validation.cpp but
  defined elsewhere. They are parameters of the model, collected in one record:
  \<^item> \<open>GetHash\<close>, \<open>IsCoinBase\<close>, \<open>IsZerocoinSpend\<close>: members of \<^verbatim>\<open>CTransaction\<close>;
  \<^item> \<open>IsNull\<close>: member of \<^verbatim>\<open>COutPoint\<close>;
  \<^item> \<open>IsUnspendable\<close>, \<open>IsPayToScriptHash\<close>, \<open>scriptIsZerocoinMint\<close>,
    \<open>scriptIsZerocoinSpend\<close>: members of \<^verbatim>\<open>CScript\<close>;
  \<^item> \<open>GetSigOpCount s\<close> is \<^verbatim>\<open>s.GetSigOpCount(false)\<close> and \<open>GetSigOpCountP2SH p s\<close> is
    \<^verbatim>\<open>p.GetSigOpCount(s)\<close>;
  \<^item> \<open>BlockGetHash\<close> is \<^verbatim>\<open>CBlockHeader::GetHash\<close>; \<open>BlockMerkleRoot\<close> returns the root and
    the \<^verbatim>\<open>mutated\<close> flag;
  \<^item> \<open>VerifyScript tx i coin flags\<close> is the outcome of \<^verbatim>\<open>CScriptCheck\<close> for input \<open>i\<close>:
    \<open>None\<close> when the script verifies, the text of the script error otherwise;
  \<^item> \<open>MAX_MONEY\<close>, \<open>WITNESS_SCALE_FACTOR\<close>, \<open>STANDARD_NOT_MANDATORY_VERIFY_FLAGS\<close>, the
    \<open>SCRIPT_VERIFY\<close> flags and \<open>MAX_OUTPUTS_PER_BLOCK\<close> are constants of other headers.
\<close>

record Coin =
  out :: CTxOut
  fCoinBase :: bool
  coin_nHeight :: int

record ext =
  GetHash :: "CTransaction \<Rightarrow> uint256"
  IsCoinBase :: "CTransaction \<Rightarrow> bool"
  IsZerocoinSpend :: "CTransaction \<Rightarrow> bool"
  IsNull :: "COutPoint \<Rightarrow> bool"
  IsUnspendable :: "CScript \<Rightarrow> bool"
  IsPayToScriptHash :: "CScript \<Rightarrow> bool"
  scriptIsZerocoinMint :: "CScript \<Rightarrow> bool"
  scriptIsZerocoinSpend :: "CScript \<Rightarrow> bool"
  GetSigOpCount :: "CScript \<Rightarrow> 32 word"
  GetSigOpCountP2SH :: "CScript \<Rightarrow> CScript \<Rightarrow> 32 word"
  GetSerializeSize :: "CTransaction \<Rightarrow> nat"
  GetBlockSerializeSize :: "CBlock \<Rightarrow> nat"
  BlockGetHash :: "CBlockHeader \<Rightarrow> uint256"
  CheckProofOfWork :: "int \<Rightarrow> uint256 \<Rightarrow> 32 word \<Rightarrow> bool"
  BlockMerkleRoot :: "CTransaction list \<Rightarrow> uint256 \<times> bool"
  IsSporkActive_INSTANTSEND_BLOCK_FILTERING :: bool
  GetLockedOutPointTxHash :: "COutPoint \<Rightarrow> uint256 option"
  VerifyScript :: "CTransaction \<Rightarrow> nat \<Rightarrow> Coin \<Rightarrow> 32 word \<Rightarrow> string option"
  MAX_MONEY :: CAmount
  WITNESS_SCALE_FACTOR :: "32 word"
  STANDARD_NOT_MANDATORY_VERIFY_FLAGS :: "32 word"
  SCRIPT_VERIFY_P2SH :: "32 word"
  SCRIPT_VERIFY_DERSIG :: "32 word"
  SCRIPT_VERIFY_CHECKLOCKTIMEVERIFY :: "32 word"
  SCRIPT_VERIFY_CHECKSEQUENCEVERIFY :: "32 word"
  MAX_OUTPUTS_PER_BLOCK :: nat

definition MoneyRange :: "ext \<Rightarrow> CAmount \<Rightarrow> bool" where
  "MoneyRange x amount = (amount \<ge> 0 \<and> amount \<le> MAX_MONEY x)"

definition GetValueOut :: "CTransaction \<Rightarrow> CAmount" where
  "GetValueOut tx = sum_list (map nValue (vout tx))"

text \<open>
  The globals of validation.cpp that the adaptive block size rewrites
  (consensus.h declares them \<^verbatim>\<open>static\<close>, initialised to 1000000, 1000000/50 and, for
  the third, outside the sources at hand).
\<close>

record size_limits =
  maxBlockSize :: "32 word"
  maxBlockSigops :: "32 word"
  maxStandardTxSigops :: "32 word"

section \<open>The UTXO view\<close>

text \<open>
  Modelled from the spec: coins.h and coins.cpp (\<^verbatim>\<open>Coin\<close>, \<^verbatim>\<open>CCoinsViewCache\<close>,
  \<^verbatim>\<open>AddCoins\<close>, \<^verbatim>\<open>AccessByTxid\<close>) are not among the sources. The view is the map
  ``Outpoint \<open>\<rightarrow>\<close> Coin'' of the unspent coins together with the best-block pointer; an
  outpoint that is spent or unknown has no entry (``miss-as-spent''). The \<open>FRESH\<close> and
  \<open>DIRTY\<close> flags only steer what a flush writes and are left out.
  \<^item> \<open>AddCoin\<close>: ``if the slot is known unspent, fails Overwrite unless
    possible_overwrite'' (the C++ throws \<^verbatim>\<open>std::logic_error\<close>). An output with an
    unspendable script is never stored, which is why \<open>DisconnectBlock\<close> skips such
    outputs when it removes a transaction's coins.
  \<^item> \<open>SpendCoin\<close>: \<open>None\<close> when there is nothing to spend (the C++ returns
    \<^verbatim>\<open>false\<close>), else the coin moved out and the view without it.
  \<^item> \<open>AddCoins\<close> adds every output of a transaction at the given height, passing
    the coinbase flag as \<^verbatim>\<open>possible_overwrite\<close>, as \<open>ApplyTxInUndo\<close> does.
  \<^item> \<open>AccessByTxid\<close>: ``any other still-existing output of the same transaction'',
    the first one below \<open>MAX_OUTPUTS_PER_BLOCK\<close>.
\<close>

record CCoinsViewCache =
  cacheCoins :: "COutPoint \<rightharpoonup> Coin"
  hashBlock :: uint256

definition HaveCoin :: "CCoinsViewCache \<Rightarrow> COutPoint \<Rightarrow> bool" where
  "HaveCoin view p = (cacheCoins view p \<noteq> None)"

definition AccessCoin :: "CCoinsViewCache \<Rightarrow> COutPoint \<Rightarrow> Coin option" where
  "AccessCoin view p = cacheCoins view p"

definition SpendCoin :: "CCoinsViewCache \<Rightarrow> COutPoint \<Rightarrow> (Coin \<times> CCoinsViewCache) option" where
  "SpendCoin view p =
    (case cacheCoins view p of
       None \<Rightarrow> None
     | Some c \<Rightarrow> Some (c, view\<lparr>cacheCoins := (cacheCoins view)(p := None)\<rparr>))"

definition AddCoin :: "ext \<Rightarrow> CCoinsViewCache \<Rightarrow> COutPoint \<Rightarrow> Coin \<Rightarrow> bool \<Rightarrow> failure + CCoinsViewCache" where
  "AddCoin x view p coin possible_overwrite =
    (if IsUnspendable x (scriptPubKey (out coin)) then Inr view
     else if \<not> possible_overwrite \<and> HaveCoin view p then Inl Crash
     else Inr (view\<lparr>cacheCoins := (cacheCoins view)(p \<mapsto> coin)\<rparr>))"

fun AddCoins_loop ::
  "ext \<Rightarrow> CCoinsViewCache \<Rightarrow> uint256 \<Rightarrow> bool \<Rightarrow> int \<Rightarrow> CTxOut list \<Rightarrow> nat \<Rightarrow> failure + CCoinsViewCache" where
  "AddCoins_loop x view txid fCoinbase height [] i = Inr view"
| "AddCoins_loop x view txid fCoinbase height (txout # outs) i =
    (case AddCoin x view (COutPoint txid i)
            \<lparr>out = txout, fCoinBase = fCoinbase, coin_nHeight = height\<rparr> fCoinbase of
       Inl e \<Rightarrow> Inl e
     | Inr view' \<Rightarrow> AddCoins_loop x view' txid fCoinbase height outs (Suc i))"

definition AddCoins :: "ext \<Rightarrow> CCoinsViewCache \<Rightarrow> CTransaction \<Rightarrow> int \<Rightarrow> failure + CCoinsViewCache" where
  "AddCoins x view tx height =
    AddCoins_loop x view (GetHash x tx) (IsCoinBase x tx) height (vout tx) 0"

definition AccessByTxid :: "ext \<Rightarrow> CCoinsViewCache \<Rightarrow> uint256 \<Rightarrow> Coin option" where
  "AccessByTxid x view txid =
    (case List.find (\<lambda>i. HaveCoin view (COutPoint txid i)) [0..<MAX_OUTPUTS_PER_BLOCK x] of
       None \<Rightarrow> None
     | Some i \<Rightarrow> AccessCoin view (COutPoint txid i))"

definition HaveInputs :: "ext \<Rightarrow> CCoinsViewCache \<Rightarrow> CTransaction \<Rightarrow> bool" where
  "HaveInputs x view tx =
    (IsCoinBase x tx \<or> list_all (\<lambda>txin. HaveCoin view (prevout txin)) (vin tx))"

text \<open>The value of a missing coin is that of the null output, \<open>-1\<close>.\<close>

definition GetValueIn :: "ext \<Rightarrow> CCoinsViewCache \<Rightarrow> CTransaction \<Rightarrow> CAmount" where
  "GetValueIn x view tx =
    (if IsCoinBase x tx then 0
     else sum_list (map (\<lambda>txin. case AccessCoin view (prevout txin) of
                                   None \<Rightarrow> - 1 | Some c \<Rightarrow> nValue (out c)) (vin tx)))"

section \<open>Signature operation counts\<close>

text \<open>\<^verbatim>\<open>unsigned int\<close> counters: 32-bit words, whose addition wraps around.\<close>

definition GetLegacySigOpCount :: "ext \<Rightarrow> CTransaction \<Rightarrow> 32 word" where
  "GetLegacySigOpCount x tx =
    sum_list (map (\<lambda>txin. GetSigOpCount x (scriptSig txin)) (vin tx)) +
    sum_list (map (\<lambda>txout. GetSigOpCount x (scriptPubKey txout)) (vout tx))"

text \<open>
  \<^verbatim>\<open>GetP2SHSigOpCount\<close> asserts that every input's coin is unspent.
\<close>

fun P2SH_loop :: "ext \<Rightarrow> CCoinsViewCache \<Rightarrow> CTxIn list \<Rightarrow> 32 word \<Rightarrow> failure + 32 word" where
  "P2SH_loop x view [] nSigOps = Inr nSigOps"
| "P2SH_loop x view (txin # ins) nSigOps =
    (case AccessCoin view (prevout txin) of
       None \<Rightarrow> Inl Crash
     | Some coin \<Rightarrow>
        P2SH_loop x view ins
          (if IsPayToScriptHash x (scriptPubKey (out coin))
           then nSigOps + GetSigOpCountP2SH x (scriptPubKey (out coin)) (scriptSig txin)
           else nSigOps))"

definition GetP2SHSigOpCount :: "ext \<Rightarrow> CTransaction \<Rightarrow> CCoinsViewCache \<Rightarrow> failure + 32 word" where
  "GetP2SHSigOpCount x tx inputs =
    (if IsCoinBase x tx \<or> IsZerocoinSpend x tx then Inr 0
     else P2SH_loop x inputs (vin tx) 0)"

section \<open>Applying and reverting a transaction\<close>

type_synonym CTxUndo = "Coin list"

type_synonym CBlockUndo = "CTxUndo list"

text \<open>
  \<^verbatim>\<open>UpdateCoins\<close>: the inputs are spent into the undo record (not for a coinbase or a
  zerocoin spend), \<^verbatim>\<open>assert(is_spent)\<close> each time, then the outputs are added.
\<close>

fun spend_inputs :: "CCoinsViewCache \<Rightarrow> CTxIn list \<Rightarrow> failure + (CCoinsViewCache \<times> CTxUndo)" where
  "spend_inputs view [] = Inr (view, [])"
| "spend_inputs view (txin # ins) =
    (case SpendCoin view (prevout txin) of
       None \<Rightarrow> Inl Crash
     | Some (coin, view') \<Rightarrow>
        (case spend_inputs view' ins of
           Inl e \<Rightarrow> Inl e
         | Inr (view'', undo) \<Rightarrow> Inr (view'', coin # undo)))"

definition UpdateCoins ::
  "ext \<Rightarrow> CTransaction \<Rightarrow> CCoinsViewCache \<Rightarrow> int \<Rightarrow> failure + (CCoinsViewCache \<times> CTxUndo)" where
  "UpdateCoins x tx inputs height =
    (if \<not> IsCoinBase x tx \<and> \<not> IsZerocoinSpend x tx then
       (case spend_inputs inputs (vin tx) of
          Inl e \<Rightarrow> Inl e
        | Inr (view', txundo) \<Rightarrow>
           (case AddCoins x view' tx height of
              Inl e \<Rightarrow> Inl e
            | Inr view'' \<Rightarrow> Inr (view'', txundo)))
     else
       (case AddCoins x inputs tx height of
          Inl e \<Rightarrow> Inl e
        | Inr view'' \<Rightarrow> Inr (view'', [])))"

datatype DisconnectResult = DISCONNECT_OK | DISCONNECT_UNCLEAN | DISCONNECT_FAILED

text \<open>
  \<^verbatim>\<open>ApplyTxInUndo\<close>. An undo record of height 0 lacks its metadata, which is then
  taken from another unspent output of the same transaction.
\<close>

definition ApplyTxInUndo ::
  "ext \<Rightarrow> Coin \<Rightarrow> CCoinsViewCache \<Rightarrow> COutPoint \<Rightarrow> failure + (DisconnectResult \<times> CCoinsViewCache)" where
  "ApplyTxInUndo x undo view p =
    (let fClean = \<not> HaveCoin view p;
         undo' = (if coin_nHeight undo = 0 then
                    (case AccessByTxid x view (prevout_hash p) of
                       Some alternate \<Rightarrow>
                         Some (undo\<lparr>coin_nHeight := coin_nHeight alternate,
                                     fCoinBase := fCoinBase alternate\<rparr>)
                     | None \<Rightarrow> None)
                  else Some undo)
     in case undo' of
          None \<Rightarrow> Inr (DISCONNECT_FAILED, view)
        | Some u \<Rightarrow>
           (case AddCoin x view p u (fCoinBase u) of
              Inl e \<Rightarrow> Inl e
            | Inr view' \<Rightarrow>
               Inr (if fClean then DISCONNECT_OK else DISCONNECT_UNCLEAN, view')))"

section \<open>Context-free checks of transactions and blocks\<close>

text \<open>The loop of \<^verbatim>\<open>CheckTransaction\<close> over the outputs, carrying \<^verbatim>\<open>nValueOut\<close>.\<close>

fun check_outputs :: "ext \<Rightarrow> int \<Rightarrow> CTxOut list \<Rightarrow> CAmount \<Rightarrow> failure + unit" where
  "check_outputs x height [] nValueOut = Inr ()"
| "check_outputs x height (txout # outs) nValueOut =
    (if nValue txout < 0
       then Inl (Invalid 100 REJECT_INVALID ''bad-txns-vout-negative'' False)
     else if nValue txout > MAX_MONEY x
       then Inl (Invalid 100 REJECT_INVALID ''bad-txns-vout-toolarge'' False)
     else if \<not> MoneyRange x (nValueOut + nValue txout)
       then Inl (Invalid 100 REJECT_INVALID ''bad-txns-txouttotal-toolarge'' False)
     else if height > HF_ZEROCOIN_DISABLE \<and>
             (scriptIsZerocoinMint x (scriptPubKey txout) \<or>
              scriptIsZerocoinSpend x (scriptPubKey txout))
       then Inl (Invalid 100 REJECT_INVALID ''bad-txns-vout-zerocoin'' False)
     else check_outputs x height outs (nValueOut + nValue txout))"

fun check_prevouts :: "ext \<Rightarrow> int \<Rightarrow> CTxIn list \<Rightarrow> failure + unit" where
  "check_prevouts x height [] = Inr ()"
| "check_prevouts x height (txin # ins) =
    (if IsNull x (prevout txin) \<and> \<not> scriptIsZerocoinSpend x (scriptSig txin)
       then Inl (Invalid 10 REJECT_INVALID ''bad-txns-prevout-null'' False)
     else if height > HF_ZEROCOIN_DISABLE \<and>
             (scriptIsZerocoinMint x (scriptSig txin) \<or> scriptIsZerocoinSpend x (scriptSig txin))
       then Inl (Invalid 100 REJECT_INVALID ''bad-txns-vout-zerocoin'' False)
     else check_prevouts x height ins)"

text \<open>
  \<^verbatim>\<open>CheckTransaction(tx, state, hashTx, isVerifyDB, nHeight)\<close>. The loop that inserts the
  prevouts into a set and fails on the first one already present is the test that the
  prevouts are distinct.
\<close>

definition CheckTransaction :: "ext \<Rightarrow> size_limits \<Rightarrow> CTransaction \<Rightarrow> int \<Rightarrow> failure + unit" where
  "CheckTransaction x lim tx height =
    (if vin tx = [] then Inl (Invalid 10 REJECT_INVALID ''bad-txns-vin-empty'' False)
     else if vout tx = [] then Inl (Invalid 10 REJECT_INVALID ''bad-txns-vout-empty'' False)
     else if GetSerializeSize x tx > unat (maxBlockSize lim)
       then Inl (Invalid 100 REJECT_INVALID ''bad-txns-oversize'' False)
     else case check_outputs x height (vout tx) 0 of
       Inl e \<Rightarrow> Inl e
     | Inr u \<Rightarrow>
        if \<not> distinct (map prevout (vin tx))
          then Inl (Invalid 100 REJECT_INVALID ''bad-txns-inputs-duplicate'' False)
        else if IsCoinBase x tx then
          (if length (scriptSig (hd (vin tx))) < 2 \<or> length (scriptSig (hd (vin tx))) > 100
             then Inl (Invalid 100 REJECT_INVALID ''bad-cb-length'' False)
           else Inr ())
        else check_prevouts x height (vin tx))"

definition getNHeight :: "BlockMap \<Rightarrow> 'a CBlockHeader_scheme \<Rightarrow> int" where
  "getNHeight m block =
    (case m (hashPrevBlock block) of None \<Rightarrow> 0 | Some pindexPrev \<Rightarrow> nHeight pindexPrev + 1)"

definition GetBlockHash :: "ext \<Rightarrow> 'a CBlockHeader_scheme \<Rightarrow> uint256" where
  "GetBlockHash x block = BlockGetHash x (CBlockHeader.truncate block)"

definition CheckBlockHeader :: "ext \<Rightarrow> BlockMap \<Rightarrow> 'a CBlockHeader_scheme \<Rightarrow> bool \<Rightarrow> failure + unit" where
  "CheckBlockHeader x m block fCheckPOW =
    (if fCheckPOW \<and>
        \<not> CheckProofOfWork x (getNHeight m block) (GetBlockHash x block) (nBits block)
     then Inl (Invalid 50 REJECT_INVALID ''high-hash'' False)
     else Inr ())"

fun check_transactions :: "ext \<Rightarrow> size_limits \<Rightarrow> int \<Rightarrow> CTransaction list \<Rightarrow> failure + unit" where
  "check_transactions x lim height [] = Inr ()"
| "check_transactions x lim height (tx # txs) =
    (case CheckTransaction x lim tx height of
       Inl e \<Rightarrow> Inl e
     | Inr u \<Rightarrow> check_transactions x lim height txs)"

text \<open>The sum of the legacy counts over the block, in \<^verbatim>\<open>unsigned int\<close>.\<close>

definition block_legacy_sigops :: "ext \<Rightarrow> CTransaction list \<Rightarrow> 32 word" where
  "block_legacy_sigops x txs = sum_list (map (GetLegacySigOpCount x) txs)"

definition conflicts_with_lock :: "ext \<Rightarrow> CTransaction \<Rightarrow> bool" where
  "conflicts_with_lock x tx =
    (\<not> IsCoinBase x tx \<and>
     list_ex (\<lambda>txin. case GetLockedOutPointTxHash x (prevout txin) of
                        None \<Rightarrow> False
                      | Some hashLocked \<Rightarrow> hashLocked \<noteq> GetHash x tx) (vin tx))"

text \<open>
  The checks of \<^verbatim>\<open>CheckBlock\<close> that precede the signature operation count: header,
  merkle root, size, position of the coinbase, InstantSend locks, every transaction.
  (A block that conflicts with a transaction lock is also entered into
  \<^verbatim>\<open>mapRejectedBlocks\<close>, which is not modelled.)
\<close>

definition CheckBlock_before_sigops ::
  "ext \<Rightarrow> size_limits \<Rightarrow> BlockMap \<Rightarrow> CBlock \<Rightarrow> bool \<Rightarrow> bool \<Rightarrow> failure + unit" where
  "CheckBlock_before_sigops x lim m block fCheckPOW fCheckMerkleRoot =
    (case CheckBlockHeader x m block fCheckPOW of
       Inl e \<Rightarrow> Inl e
     | Inr u \<Rightarrow>
        if fCheckMerkleRoot \<and> hashMerkleRoot block \<noteq> fst (BlockMerkleRoot x (vtx block))
          then Inl (Invalid 100 REJECT_INVALID ''bad-txnmrklroot'' True)
        else if fCheckMerkleRoot \<and> snd (BlockMerkleRoot x (vtx block))
          then Inl (Invalid 100 REJECT_INVALID ''bad-txns-duplicate'' True)
        else if vtx block = [] \<or> length (vtx block) > unat (maxBlockSize lim) \<or>
                GetBlockSerializeSize x block > unat (maxBlockSize lim)
          then Inl (Invalid 100 REJECT_INVALID ''bad-blk-length'' False)
        else if vtx block = [] \<or> \<not> IsCoinBase x (hd (vtx block))
          then Inl (Invalid 100 REJECT_INVALID ''bad-cb-missing'' False)
        else if list_ex (IsCoinBase x) (tl (vtx block))
          then Inl (Invalid 100 REJECT_INVALID ''bad-cb-multiple'' False)
        else if IsSporkActive_INSTANTSEND_BLOCK_FILTERING x \<and>
                list_ex (conflicts_with_lock x) (vtx block)
          then Inl (Invalid 0 REJECT_INVALID ''conflict-tx-lock'' False)
        else check_transactions x lim (getNHeight m block) (vtx block))"

text \<open>
  \<^verbatim>\<open>CheckBlock(block, state, fCheckPOW, fCheckMerkleRoot)\<close>; the block is returned with
  its \<^verbatim>\<open>fChecked\<close> member as the function leaves it. The product
  \<^verbatim>\<open>nSigOps * WITNESS_SCALE_FACTOR\<close> is an \<^verbatim>\<open>unsigned int\<close>.
\<close>

definition CheckBlock ::
  "ext \<Rightarrow> size_limits \<Rightarrow> BlockMap \<Rightarrow> CBlock \<Rightarrow> bool \<Rightarrow> bool \<Rightarrow> failure + CBlock" where
  "CheckBlock x lim m block fCheckPOW fCheckMerkleRoot =
    (if fChecked block then Inr block
     else case CheckBlock_before_sigops x lim m block fCheckPOW fCheckMerkleRoot of
       Inl e \<Rightarrow> Inl e
     | Inr u \<Rightarrow>
        if uint (block_legacy_sigops x (vtx block) * WITNESS_SCALE_FACTOR x) > MAX_BLOCK_SIGOPS_COST
          then Inl (Invalid 100 REJECT_INVALID ''bad-blk-sigops'' False)
        else Inr (if fCheckPOW \<and> fCheckMerkleRoot then block\<lparr>fChecked := True\<rparr> else block))"

section \<open>Input checks\<close>

definition GetSpendHeight :: "BlockMap \<Rightarrow> CCoinsViewCache \<Rightarrow> failure + int" where
  "GetSpendHeight m inputs =
    (case m (hashBlock inputs) of None \<Rightarrow> Inl Crash | Some pindexPrev \<Rightarrow> Inr (nHeight pindexPrev + 1))"

text \<open>The loop of \<^verbatim>\<open>Consensus::CheckTxInputs\<close> over the inputs, carrying \<^verbatim>\<open>nValueIn\<close>.\<close>

fun check_input_values :: "ext \<Rightarrow> CCoinsViewCache \<Rightarrow> int \<Rightarrow> CTxIn list \<Rightarrow> CAmount \<Rightarrow> failure + CAmount" where
  "check_input_values x inputs nSpendHeight [] nValueIn = Inr nValueIn"
| "check_input_values x inputs nSpendHeight (txin # ins) nValueIn =
    (case AccessCoin inputs (prevout txin) of
       None \<Rightarrow> Inl Crash
     | Some coin \<Rightarrow>
        if fCoinBase coin \<and> nSpendHeight - coin_nHeight coin < COINBASE_MATURITY
          then Inl (Invalid 0 REJECT_INVALID ''bad-txns-premature-spend-of-coinbase'' False)
        else if \<not> MoneyRange x (nValue (out coin)) \<or>
                \<not> MoneyRange x (nValueIn + nValue (out coin))
          then Inl (Invalid 100 REJECT_INVALID ''bad-txns-inputvalues-outofrange'' False)
        else check_input_values x inputs nSpendHeight ins (nValueIn + nValue (out coin)))"

definition CheckTxInputs :: "ext \<Rightarrow> CTransaction \<Rightarrow> CCoinsViewCache \<Rightarrow> int \<Rightarrow> failure + unit" where
  "CheckTxInputs x tx inputs nSpendHeight =
    (if \<not> HaveInputs x inputs tx then Inl (Invalid 0 REJECT_NONE [] False)
     else case check_input_values x inputs nSpendHeight (vin tx) 0 of
       Inl e \<Rightarrow> Inl e
     | Inr nValueIn \<Rightarrow>
        if nValueIn < GetValueOut tx
          then Inl (Invalid 100 REJECT_INVALID ''bad-txns-in-belowout'' False)
        else if nValueIn - GetValueOut tx < 0
          then Inl (Invalid 100 REJECT_INVALID ''bad-txns-fee-negative'' False)
        else if \<not> MoneyRange x (nValueIn - GetValueOut tx)
          then Inl (Invalid 100 REJECT_INVALID ''bad-txns-fee-outofrange'' False)
        else Inr ())"

text \<open>
  The script loop of \<^verbatim>\<open>CheckInputs\<close> from input \<open>i\<close> on. With \<open>queue\<close> set
  (\<^verbatim>\<open>pvChecks\<close> non-null) the checks are only collected: the result tells whether all
  of them will succeed. Otherwise each check runs at once.
\<close>

fun script_loop ::
  "ext \<Rightarrow> CTransaction \<Rightarrow> CCoinsViewCache \<Rightarrow> 32 word \<Rightarrow> bool \<Rightarrow> nat \<Rightarrow> CTxIn list \<Rightarrow> bool
     \<Rightarrow> failure + bool" where
  "script_loop x tx inputs flags queue i [] ok = Inr ok"
| "script_loop x tx inputs flags queue i (txin # ins) ok =
    (case AccessCoin inputs (prevout txin) of
       None \<Rightarrow> Inl Crash
     | Some coin \<Rightarrow>
        if queue then
          script_loop x tx inputs flags queue (Suc i) ins
            (ok \<and> VerifyScript x tx i coin flags = None)
        else
          (case VerifyScript x tx i coin flags of
             None \<Rightarrow> script_loop x tx inputs flags queue (Suc i) ins ok
           | Some err \<Rightarrow>
              if flags AND STANDARD_NOT_MANDATORY_VERIFY_FLAGS x \<noteq> 0 \<and>
                 VerifyScript x tx i coin
                   (flags AND NOT (STANDARD_NOT_MANDATORY_VERIFY_FLAGS x)) = None
                then Inl (Invalid 0 REJECT_NONSTANDARD
                            (''non-mandatory-script-verify-flag ('' @ err @ '')'') False)
              else Inl (Invalid 100 REJECT_INVALID
                          (''mandatory-script-verify-flag-failed ('' @ err @ '')'') False)))"

definition CheckInputs ::
  "ext \<Rightarrow> BlockMap \<Rightarrow> CTransaction \<Rightarrow> CCoinsViewCache \<Rightarrow> bool \<Rightarrow> 32 word \<Rightarrow> bool \<Rightarrow> failure + bool" where
  "CheckInputs x m tx inputs fScriptChecks flags queue =
    (if \<not> IsCoinBase x tx \<and> \<not> IsZerocoinSpend x tx then
       (case GetSpendHeight m inputs of
          Inl e \<Rightarrow> Inl e
        | Inr nSpendHeight \<Rightarrow>
           (case CheckTxInputs x tx inputs nSpendHeight of
              Inl e \<Rightarrow> Inl e
            | Inr u \<Rightarrow>
               if fScriptChecks then script_loop x tx inputs flags queue 0 (vin tx) True
               else Inr True))
     else Inr True)"

section \<open>Connecting a block\<close>

text \<open>
  What \<^verbatim>\<open>ConnectBlock\<close> and \<^verbatim>\<open>DisconnectBlock\<close> take from their surroundings:
  \<^item> \<open>fScriptChecks\<close>: the value the function computes from \<^verbatim>\<open>hashAssumeValid\<close>, the
    best header and the chain work (it only decides whether scripts are run);
  \<^item> \<open>nScriptCheckThreads\<close>, \<open>fTxIndex\<close>, \<open>fAddressIndex\<close>, \<open>fSpentIndex\<close>,
    \<open>fTimestampIndex\<close>: globals;
  \<^item> \<open>ComputeBlockSize\<close>: \<^verbatim>\<open>BlockSizeCalculator::ComputeBlockSize\<close>;
  \<^item> \<open>CSV_active\<close>: whether \<^verbatim>\<open>VersionBitsState\<close> of the parent for the CSV deployment is
    \<^verbatim>\<open>THRESHOLD_ACTIVE\<close>;
  \<^item> \<open>SmartMining_Validate\<close>: \<open>None\<close> when \<^verbatim>\<open>SmartMining::Validate\<close> accepts, else the
    failure it leaves in the state;
  \<^item> \<open>FindUndoPos\<close>: the position in the undo file of \<^verbatim>\<open>nFile\<close> at which the undo data
    is written, \<open>None\<close> when the disk is full; \<open>UndoWriteToDisk_ok\<close> and the
    \<open>_ok\<close> fields say whether the write to the undo file, respectively to the block
    tree database, succeeds. The address, spent, transaction and timestamp indexes
    live in that database: the entries that the two functions collect for them do not
    touch the view and are not modelled.
\<close>

record chain_env =
  fScriptChecks :: bool
  nScriptCheckThreads :: int
  fTxIndex :: bool
  fAddressIndex :: bool
  fSpentIndex :: bool
  fTimestampIndex :: bool
  ComputeBlockSize :: "CBlockIndex \<Rightarrow> 32 word"
  CSV_active :: bool
  SmartMining_Validate :: "CBlock \<Rightarrow> CBlockIndex \<Rightarrow> CAmount \<Rightarrow> failure option"
  FindUndoPos :: "int \<Rightarrow> nat option"
  UndoWriteToDisk_ok :: bool
  WriteTxIndex_ok :: bool
  WriteAddressIndex_ok :: bool
  UpdateAddressUnspentIndex_ok :: bool
  UpdateSpentIndex_ok :: bool
  WriteTimestampIndex_ok :: bool
  EraseAddressIndex_ok :: bool

text \<open>
  The undo files: the position of a record maps to the undo data and the block hash
  that went into its checksum. \<^verbatim>\<open>UndoReadFromDisk\<close> fails when nothing is stored at
  the position or when the checksum does not match the hash it is given.
\<close>

type_synonym undo_files = "int \<times> nat \<rightharpoonup> uint256 \<times> CBlockUndo"

definition UndoReadFromDisk :: "undo_files \<Rightarrow> int \<times> nat \<Rightarrow> uint256 \<Rightarrow> CBlockUndo option" where
  "UndoReadFromDisk files pos hashBlk =
    (case files pos of
       None \<Rightarrow> None
     | Some (h, blockundo) \<Rightarrow> if h = hashBlk then Some blockundo else None)"

definition GetUndoPos :: "CBlockIndex \<Rightarrow> (int \<times> nat) option" where
  "GetUndoPos pindex =
    (if HAVE_UNDO (nStatus pindex) then Some (nFile pindex, nUndoPos pindex) else None)"

definition IsValid :: "CBlockIndex \<Rightarrow> validity \<Rightarrow> bool" where
  "IsValid pindex nUpTo =
    (\<not> FAILED_VALID (nStatus pindex) \<and> \<not> FAILED_CHILD (nStatus pindex) \<and>
     level (validLevel (nStatus pindex)) \<ge> level nUpTo)"

definition RaiseValidity :: "CBlockIndex \<Rightarrow> validity \<Rightarrow> CBlockIndex" where
  "RaiseValidity pindex nUpTo =
    (if FAILED_VALID (nStatus pindex) \<or> FAILED_CHILD (nStatus pindex) then pindex
     else if level (validLevel (nStatus pindex)) < level nUpTo
       then pindex\<lparr>nStatus := (nStatus pindex)\<lparr>validLevel := nUpTo\<rparr>\<rparr>
     else pindex)"

text \<open>
  The BIP30 switch of \<^verbatim>\<open>ConnectBlock\<close>: on for an index without a hash and for every
  block but the two listed ones, then off again when the ancestor of the parent at
  \<^verbatim>\<open>BIP34Height\<close> is the block \<^verbatim>\<open>BIP34Hash\<close>.
\<close>

definition BIP30_exception :: "CBlockIndex \<Rightarrow> bool" where
  "BIP30_exception pindex =
    ((nHeight pindex = 91842 \<and> phashBlock pindex =
        Some 0x00000000000a4d0a398161ffc163c503763b1f4360639393e0e4c8e300e0caec) \<or>
     (nHeight pindex = 91880 \<and> phashBlock pindex =
        Some 0x00000000000743f190a18c5577a3c2d2a1f610ae9601ac046a38084ccb7cd721))"

definition fEnforceBIP30 :: "BlockMap \<Rightarrow> consensus_params \<Rightarrow> CBlockIndex \<Rightarrow> CBlockIndex \<Rightarrow> bool" where
  "fEnforceBIP30 m params pindex pindexPrev =
    ((phashBlock pindex = None \<or> \<not> BIP30_exception pindex) \<and>
     (case GetAncestor m pindexPrev (BIP34Height params) of
        None \<Rightarrow> True
      | Some pindexBIP34height \<Rightarrow> \<not> (phashBlock pindexBIP34height = Some (BIP34Hash params))))"

definition overwrites_coin :: "ext \<Rightarrow> CCoinsViewCache \<Rightarrow> CTransaction \<Rightarrow> bool" where
  "overwrites_coin x view tx =
    list_ex (\<lambda>i. HaveCoin view (COutPoint (GetHash x tx) i)) [0..<length (vout tx)]"

text \<open>
  The script flags and the lock-time flags of the block, and the size limits after the
  adaptive block size rule.
\<close>

definition fStrictPayToScriptHash :: "CBlockIndex \<Rightarrow> bool" where
  "fStrictPayToScriptHash pindex = (GetBlockTime pindex \<ge> 1333238400)"

definition script_flags ::
  "ext \<Rightarrow> chain_env \<Rightarrow> BlockMap \<Rightarrow> consensus_params \<Rightarrow> CBlock \<Rightarrow> CBlockIndex \<Rightarrow> 32 word" where
  "script_flags x env m params block pindex =
    (let flags0 = (if fStrictPayToScriptHash pindex then SCRIPT_VERIFY_P2SH x else 0);
         flags1 = (if nVersion block \<ge> 3 \<and>
                      IsSuperMajority m params 3 (deref m (pprev pindex))
                        (nMajorityEnforceBlockUpgrade params)
                   then flags0 OR SCRIPT_VERIFY_DERSIG x else flags0);
         flags2 = (if nVersion block \<ge> 4 \<and>
                      IsSuperMajority m params 4 (deref m (pprev pindex))
                        (nMajorityEnforceBlockUpgrade params)
                   then flags1 OR SCRIPT_VERIFY_CHECKLOCKTIMEVERIFY x else flags1)
     in if CSV_active env then flags2 OR SCRIPT_VERIFY_CHECKSEQUENCEVERIFY x else flags2)"

definition adaptive_limits ::
  "chain_env \<Rightarrow> BlockMap \<Rightarrow> consensus_params \<Rightarrow> size_limits \<Rightarrow> CBlock \<Rightarrow> CBlockIndex \<Rightarrow> size_limits" where
  "adaptive_limits env m params lim block pindex =
    (if IsSuperMajority m params (nVersion block) (deref m (pprev pindex))
          (nMajorityEnforceBlockUpgrade params)
     then \<lparr>maxBlockSize = ComputeBlockSize env pindex,
           maxBlockSigops = ComputeBlockSize env pindex div 50,
           maxStandardTxSigops = (ComputeBlockSize env pindex div 50) div 5\<rparr>
     else lim)"

text \<open>
  The state of the loop over the transactions: the view, \<^verbatim>\<open>nSigOps\<close>, \<^verbatim>\<open>nFees\<close>,
  the undo data collected so far, and whether the script checks handed to the check
  queue all succeed (\<^verbatim>\<open>control.Wait()\<close>).
\<close>

record connect_state =
  cs_view :: CCoinsViewCache
  cs_nSigOps :: "32 word"
  cs_nFees :: CAmount
  cs_undo :: CBlockUndo
  cs_checks :: bool

definition input_heights :: "CCoinsViewCache \<Rightarrow> CTransaction \<Rightarrow> int list" where
  "input_heights view tx =
    map (\<lambda>txin. case AccessCoin view (prevout txin) of None \<Rightarrow> 0 | Some c \<Rightarrow> coin_nHeight c)
      (vin tx)"

text \<open>
  The part of the loop body that only a transaction with inputs goes through: inputs
  present, sequence locks, P2SH signature operations, fees, \<^verbatim>\<open>CheckInputs\<close>. It
  returns the new \<^verbatim>\<open>nSigOps\<close>, \<^verbatim>\<open>nFees\<close> and check-queue outcome.
\<close>

definition connect_inputs ::
  "ext \<Rightarrow> chain_env \<Rightarrow> BlockMap \<Rightarrow> size_limits \<Rightarrow> CBlockIndex \<Rightarrow> 32 word \<Rightarrow> 32 word
     \<Rightarrow> CTransaction \<Rightarrow> connect_state \<Rightarrow> 32 word \<Rightarrow> failure + (32 word \<times> CAmount \<times> bool)" where
  "connect_inputs x env m lim pindex flags nLockTimeFlags tx st nSigOps =
    (if \<not> HaveInputs x (cs_view st) tx
       then Inl (Invalid 100 REJECT_INVALID ''bad-txns-inputs-missingorspent'' False)
     else case SequenceLocks m tx nLockTimeFlags (input_heights (cs_view st) tx) pindex of
       Inl e \<Rightarrow> Inl e
     | Inr (final, hs) \<Rightarrow>
        if \<not> final then Inl (Invalid 100 REJECT_INVALID ''bad-txns-nonfinal'' False)
        else case (if fStrictPayToScriptHash pindex
                   then (case GetP2SHSigOpCount x tx (cs_view st) of
                           Inl e \<Rightarrow> Inl e | Inr k \<Rightarrow> Inr (nSigOps + k))
                   else Inr nSigOps) of
          Inl e \<Rightarrow> Inl e
        | Inr nSigOps' \<Rightarrow>
           if fStrictPayToScriptHash pindex \<and> nSigOps' > maxBlockSigops lim
             then Inl (Invalid 100 REJECT_INVALID ''bad-blk-sigops'' False)
           else case CheckInputs x m tx (cs_view st) (fScriptChecks env) flags
                       (nScriptCheckThreads env \<noteq> 0) of
             Inl e \<Rightarrow> Inl e
           | Inr ok \<Rightarrow>
              Inr (nSigOps',
                   cs_nFees st + (GetValueIn x (cs_view st) tx - GetValueOut tx),
                   cs_checks st \<and> ok))"

text \<open>One iteration of the loop, for the transaction at index \<open>i\<close>.\<close>

definition connect_tx ::
  "ext \<Rightarrow> chain_env \<Rightarrow> BlockMap \<Rightarrow> size_limits \<Rightarrow> CBlockIndex \<Rightarrow> 32 word \<Rightarrow> 32 word
     \<Rightarrow> nat \<Rightarrow> CTransaction \<Rightarrow> connect_state \<Rightarrow> failure + connect_state" where
  "connect_tx x env m lim pindex flags nLockTimeFlags i tx st =
    (let nSigOps = cs_nSigOps st + GetLegacySigOpCount x tx
     in if nSigOps > maxBlockSigops lim
          then Inl (Invalid 100 REJECT_INVALID ''bad-blk-sigops'' False)
        else case (if \<not> IsCoinBase x tx \<and> \<not> IsZerocoinSpend x tx
                   then connect_inputs x env m lim pindex flags nLockTimeFlags tx st nSigOps
                   else Inr (nSigOps, cs_nFees st, cs_checks st)) of
          Inl e \<Rightarrow> Inl e
        | Inr (nSigOps', nFees', checks') \<Rightarrow>
           (case UpdateCoins x tx (cs_view st) (nHeight pindex) of
              Inl e \<Rightarrow> Inl e
            | Inr (view', txundo) \<Rightarrow>
               Inr \<lparr>cs_view = view', cs_nSigOps = nSigOps', cs_nFees = nFees',
                    cs_undo = (if i > 0 then cs_undo st @ [txundo] else cs_undo st),
                    cs_checks = checks'\<rparr>))"

fun connect_loop ::
  "ext \<Rightarrow> chain_env \<Rightarrow> BlockMap \<Rightarrow> size_limits \<Rightarrow> CBlockIndex \<Rightarrow> 32 word \<Rightarrow> 32 word
     \<Rightarrow> nat \<Rightarrow> CTransaction list \<Rightarrow> connect_state \<Rightarrow> failure + connect_state" where
  "connect_loop x env m lim pindex flags nLockTimeFlags i [] st = Inr st"
| "connect_loop x env m lim pindex flags nLockTimeFlags i (tx # txs) st =
    (case connect_tx x env m lim pindex flags nLockTimeFlags i tx st of
       Inl e \<Rightarrow> Inl e
     | Inr st' \<Rightarrow> connect_loop x env m lim pindex flags nLockTimeFlags (Suc i) txs st')"

text \<open>
  Writing the undo data and raising the validity of the index entry; \<open>hashPrev\<close> is the
  hash of the parent, which goes into the checksum.
\<close>

definition write_undo ::
  "chain_env \<Rightarrow> undo_files \<Rightarrow> CBlockIndex \<Rightarrow> uint256 \<Rightarrow> CBlockUndo
     \<Rightarrow> failure + (CBlockIndex \<times> undo_files)" where
  "write_undo env files pindex hashPrev blockundo =
    (if GetUndoPos pindex = None \<or> \<not> IsValid pindex VALID_SCRIPTS then
       (if GetUndoPos pindex = None then
          (case FindUndoPos env (nFile pindex) of
             None \<Rightarrow> Inl (Error ''out of disk space'')
           | Some pos \<Rightarrow>
              if \<not> UndoWriteToDisk_ok env then Inl (Error ''Failed to write undo data'')
              else Inr (RaiseValidity
                          (pindex\<lparr>nUndoPos := pos,
                                  nStatus := (nStatus pindex)\<lparr>HAVE_UNDO := True\<rparr>\<rparr>)
                          VALID_SCRIPTS,
                        files((nFile pindex, pos) \<mapsto> (hashPrev, blockundo))))
        else Inr (RaiseValidity pindex VALID_SCRIPTS, files))
     else Inr (pindex, files))"

definition write_indexes :: "chain_env \<Rightarrow> failure + unit" where
  "write_indexes env =
    (if fTxIndex env \<and> \<not> WriteTxIndex_ok env
       then Inl (Error ''Failed to write transaction index'')
     else if fAddressIndex env \<and> \<not> WriteAddressIndex_ok env
       then Inl (Error ''Failed to write address index'')
     else if fAddressIndex env \<and> \<not> UpdateAddressUnspentIndex_ok env
       then Inl (Error ''Failed to write address unspent index'')
     else if fSpentIndex env \<and> \<not> UpdateSpentIndex_ok env
       then Inl (Error ''Failed to write transaction index'')
     else if fTimestampIndex env \<and> \<not> WriteTimestampIndex_ok env
       then Inl (Error ''Failed to write timestamp index'')
     else Inr ())"

record connect_result =
  r_view :: CCoinsViewCache
  r_pindex :: CBlockIndex
  r_files :: undo_files
  r_limits :: size_limits
  r_block :: CBlock
  r_blockundo :: CBlockUndo

text \<open>
  \<^verbatim>\<open>ConnectBlock(block, state, pindex, view, fJustCheck)\<close>. Besides the view, the
  function changes the index entry, the undo files, the size limits and the block's
  \<^verbatim>\<open>fChecked\<close> member: all are returned, with the undo data of the block. With
  \<^verbatim>\<open>fJustCheck\<close> the view is returned as the loop leaves it.
\<close>

definition ConnectBlock ::
  "ext \<Rightarrow> chain_env \<Rightarrow> consensus_params \<Rightarrow> BlockMap \<Rightarrow> size_limits \<Rightarrow> undo_files \<Rightarrow> CBlock
     \<Rightarrow> CBlockIndex \<Rightarrow> CCoinsViewCache \<Rightarrow> bool \<Rightarrow> failure + connect_result" where
  "ConnectBlock x env params m lim files block pindex view fJustCheck =
    (case CheckBlock x lim m block (\<not> fJustCheck) (\<not> fJustCheck) of
       Inl e \<Rightarrow> Inl e
     | Inr block' \<Rightarrow>
      if (case deref m (pprev pindex) of None \<Rightarrow> Some 0 | Some pindexPrev \<Rightarrow> phashBlock pindexPrev)
           \<noteq> Some (hashBlock view)
        then Inl Crash
      else if GetBlockHash x block = hashGenesisBlock params then
        (case phashBlock pindex of
           None \<Rightarrow> if fJustCheck
                    then Inr \<lparr>r_view = view, r_pindex = pindex, r_files = files, r_limits = lim,
                              r_block = block', r_blockundo = []\<rparr>
                    else Inl Crash
         | Some h \<Rightarrow>
            Inr \<lparr>r_view = (if fJustCheck then view else view\<lparr>hashBlock := h\<rparr>),
                 r_pindex = pindex, r_files = files, r_limits = lim, r_block = block',
                 r_blockundo = []\<rparr>)
      else case deref m (pprev pindex) of
        None \<Rightarrow> Inl Crash
      | Some pindexPrev \<Rightarrow>
         if fEnforceBIP30 m params pindex pindexPrev \<and>
            list_ex (overwrites_coin x view) (vtx block)
           then Inl (Invalid 100 REJECT_INVALID ''bad-txns-BIP30'' False)
         else
          (let flags = script_flags x env m params block pindex;
               lim' = adaptive_limits env m params lim block pindex;
               nLockTimeFlags = (if CSV_active env then LOCKTIME_VERIFY_SEQUENCE else 0)
           in case connect_loop x env m lim' pindex flags nLockTimeFlags 0 (vtx block)
                     \<lparr>cs_view = view, cs_nSigOps = 0, cs_nFees = 0, cs_undo = [],
                      cs_checks = True\<rparr> of
                Inl e \<Rightarrow> Inl e
              | Inr st \<Rightarrow>
                 (case SmartMining_Validate env block pindex (cs_nFees st) of
                    Some e \<Rightarrow> Inl e
                  | None \<Rightarrow>
                     if \<not> cs_checks st then Inl (Invalid 100 REJECT_NONE [] False)
                     else if fJustCheck
                       then Inr \<lparr>r_view = cs_view st, r_pindex = pindex, r_files = files,
                                 r_limits = lim', r_block = block', r_blockundo = cs_undo st\<rparr>
                     else case phashBlock pindexPrev of
                       None \<Rightarrow> Inl Crash
                     | Some hashPrev \<Rightarrow>
                      (case write_undo env files pindex hashPrev (cs_undo st) of
                         Inl e \<Rightarrow> Inl e
                       | Inr (pindex', files') \<Rightarrow>
                          (case write_indexes env of
                             Inl e \<Rightarrow> Inl e
                           | Inr u \<Rightarrow>
                              (case phashBlock pindex of
                                 None \<Rightarrow> Inl Crash
                               | Some h \<Rightarrow>
                                  Inr \<lparr>r_view = (cs_view st)\<lparr>hashBlock := h\<rparr>,
                                       r_pindex = pindex', r_files = files',
                                       r_limits = lim', r_block = block',
                                       r_blockundo = cs_undo st\<rparr>))))))"

section \<open>Disconnecting a block\<close>

text \<open>
  The loop of \<^verbatim>\<open>DisconnectBlock\<close> over the outputs of a transaction, from output \<open>i\<close>
  on: every output that is not unspendable is spent and compared with the block.
\<close>

fun spend_outputs ::
  "ext \<Rightarrow> uint256 \<Rightarrow> bool \<Rightarrow> int \<Rightarrow> CTxOut list \<Rightarrow> nat \<Rightarrow> CCoinsViewCache \<Rightarrow> bool
     \<Rightarrow> bool \<times> CCoinsViewCache" where
  "spend_outputs x txid is_coinbase height [] i view fClean = (fClean, view)"
| "spend_outputs x txid is_coinbase height (txout # outs) i view fClean =
    (if \<not> IsUnspendable x (scriptPubKey txout) then
       (case SpendCoin view (COutPoint txid i) of
          None \<Rightarrow> spend_outputs x txid is_coinbase height outs (Suc i) view False
        | Some (coin, view') \<Rightarrow>
           spend_outputs x txid is_coinbase height outs (Suc i) view'
             (if txout \<noteq> out coin \<or> height \<noteq> coin_nHeight coin \<or> is_coinbase \<noteq> fCoinBase coin
              then False else fClean))
     else spend_outputs x txid is_coinbase height outs (Suc i) view fClean)"

text \<open>
  The loop that restores the inputs, over the inputs and their undo records in the
  order in which the code visits them (last input first).
\<close>

fun restore_inputs ::
  "ext \<Rightarrow> (CTxIn \<times> Coin) list \<Rightarrow> CCoinsViewCache \<Rightarrow> bool
     \<Rightarrow> failure + (DisconnectResult \<times> CCoinsViewCache)" where
  "restore_inputs x [] view fClean =
     Inr (if fClean then DISCONNECT_OK else DISCONNECT_UNCLEAN, view)"
| "restore_inputs x ((txin, undo) # rest) view fClean =
    (case ApplyTxInUndo x undo view (prevout txin) of
       Inl e \<Rightarrow> Inl e
     | Inr (res, view') \<Rightarrow>
        if res = DISCONNECT_FAILED then Inr (DISCONNECT_FAILED, view')
        else restore_inputs x rest view' (fClean \<and> res \<noteq> DISCONNECT_UNCLEAN))"

text \<open>The body of the loop over the transactions, for the transaction at index \<open>i\<close>.\<close>

definition disconnect_tx ::
  "ext \<Rightarrow> CTransaction list \<Rightarrow> CBlockUndo \<Rightarrow> int \<Rightarrow> nat \<Rightarrow> CCoinsViewCache \<Rightarrow> bool
     \<Rightarrow> failure + (DisconnectResult \<times> CCoinsViewCache)" where
  "disconnect_tx x txs vtxundo height i view fClean =
    (let tx = txs ! i;
         (fClean', view') = spend_outputs x (GetHash x tx) (IsCoinBase x tx) height (vout tx) 0
                               view fClean
     in if i > 0 then
          (let txundo = vtxundo ! (i - 1)
           in if length txundo \<noteq> length (vin tx) then Inr (DISCONNECT_FAILED, view')
              else restore_inputs x (rev (zip (vin tx) txundo)) view' fClean')
        else Inr (if fClean' then DISCONNECT_OK else DISCONNECT_UNCLEAN, view'))"

text \<open>
  \<^verbatim>\<open>for (int i = block.vtx.size() - 1; i >= 0; i--)\<close>: \<open>disconnect_from k\<close> handles the
  transactions \<open>k - 1\<close> down to 0.
\<close>

fun disconnect_from ::
  "ext \<Rightarrow> CTransaction list \<Rightarrow> CBlockUndo \<Rightarrow> int \<Rightarrow> nat \<Rightarrow> CCoinsViewCache \<Rightarrow> bool
     \<Rightarrow> failure + (DisconnectResult \<times> CCoinsViewCache)" where
  "disconnect_from x txs vtxundo height 0 view fClean =
     Inr (if fClean then DISCONNECT_OK else DISCONNECT_UNCLEAN, view)"
| "disconnect_from x txs vtxundo height (Suc i) view fClean =
    (case disconnect_tx x txs vtxundo height i view fClean of
       Inl e \<Rightarrow> Inl e
     | Inr (res, view') \<Rightarrow>
        if res = DISCONNECT_FAILED then Inr (DISCONNECT_FAILED, view')
        else disconnect_from x txs vtxundo height i view' (res = DISCONNECT_OK))"

text \<open>
  \<^verbatim>\<open>DisconnectBlock(block, state, pindex, view)\<close>. The view is returned as the function
  leaves it, also when the result is \<open>DISCONNECT_FAILED\<close>.
\<close>

definition DisconnectBlock ::
  "ext \<Rightarrow> chain_env \<Rightarrow> BlockMap \<Rightarrow> undo_files \<Rightarrow> CBlock \<Rightarrow> CBlockIndex \<Rightarrow> CCoinsViewCache
     \<Rightarrow> failure + (DisconnectResult \<times> CCoinsViewCache)" where
  "DisconnectBlock x env m files block pindex view =
    (if phashBlock pindex \<noteq> Some (hashBlock view) then Inl Crash
     else case GetUndoPos pindex of
       None \<Rightarrow> Inr (DISCONNECT_FAILED, view)
     | Some pos \<Rightarrow>
        (case deref m (pprev pindex) of
           None \<Rightarrow> Inl Crash
         | Some pindexPrev \<Rightarrow>
            (case phashBlock pindexPrev of
               None \<Rightarrow> Inl Crash
             | Some hashPrev \<Rightarrow>
                (case UndoReadFromDisk files pos hashPrev of
                   None \<Rightarrow> Inr (DISCONNECT_FAILED, view)
                 | Some blockUndo \<Rightarrow>
                    if length blockUndo + 1 \<noteq> length (vtx block)
                      then Inr (DISCONNECT_FAILED, view)
                    else
                     (case disconnect_from x (vtx block) blockUndo (nHeight pindex)
                             (length (vtx block)) view True of
                        Inl e \<Rightarrow> Inl e
                      | Inr (res, view') \<Rightarrow>
                         if res = DISCONNECT_FAILED then Inr (DISCONNECT_FAILED, view')
                         else if fAddressIndex env \<and> \<not> EraseAddressIndex_ok env
                           then Inr (DISCONNECT_FAILED, view'\<lparr>hashBlock := hashPrev\<rparr>)
                         else if fAddressIndex env \<and> \<not> UpdateAddressUnspentIndex_ok env
                           then Inr (DISCONNECT_FAILED, view'\<lparr>hashBlock := hashPrev\<rparr>)
                         else Inr (res, view'\<lparr>hashBlock := hashPrev\<rparr>))))))"

section \<open>Accepting headers and blocks\<close>

text \<open>
  The part of the node's state that \<^verbatim>\<open>AcceptBlockHeader\<close> and \<^verbatim>\<open>AcceptBlock\<close> read and
  write: the block index, the best header, the set of dirty index entries, the tip of
  the active chain and the block files.
\<close>

record node_state =
  mapBlockIndex :: BlockMap
  pindexBestHeader :: "uint256 option"
  setDirtyBlockIndex :: "uint256 set"
  chainActiveTip :: "uint256 option"
  blockFiles :: "int \<times> nat \<rightharpoonup> CBlock"

text \<open>
  What the two functions take from their surroundings:
  \<^item> \<open>GetNextWorkRequired\<close>, \<open>GetBlockProof\<close>: proof-of-work functions;
  \<^item> \<open>GetAdjustedTime\<close>: the value of \<^verbatim>\<open>GetAdjustedTime()\<close>;
  \<^item> \<open>fCheckpointsEnabled\<close> and \<open>GetLastCheckpoint\<close>, the index entry of the last
    checkpoint when there is one;
  \<^item> \<open>MIN_BLOCKS_TO_KEEP\<close>: a constant of validation.h;
  \<^item> \<open>ContextualCheckBlock\<close>: the outcome of that function for the block and its parent,
    \<open>None\<close> when it accepts;
  \<^item> \<open>store_block\<close>: the last part of \<^verbatim>\<open>AcceptBlock\<close>, which finds a position in the
    block files, writes the block, records it in the index
    (\<^verbatim>\<open>ReceivedBlockTransactions\<close>) and may flush the state.
\<close>

record accept_env =
  GetNextWorkRequired :: "CBlockIndex \<Rightarrow> CBlockHeader \<Rightarrow> 32 word"
  GetBlockProof :: "CBlockIndex \<Rightarrow> nat"
  GetAdjustedTime :: int
  fCheckpointsEnabled :: bool
  GetLastCheckpoint :: "CBlockIndex option"
  MIN_BLOCKS_TO_KEEP :: int
  ContextualCheckBlock :: "CBlock \<Rightarrow> uint256 option \<Rightarrow> failure option"
  store_block :: "node_state \<Rightarrow> CBlock \<Rightarrow> uint256 \<Rightarrow> failure + node_state"

definition BLOCK_FAILED_MASK :: "CBlockIndex \<Rightarrow> bool" where
  "BLOCK_FAILED_MASK pindex = (FAILED_VALID (nStatus pindex) \<or> FAILED_CHILD (nStatus pindex))"

text \<open>
  \<^verbatim>\<open>AddToBlockIndex\<close>: the entry under the header's hash if there is one; otherwise a new
  entry, linked to its parent when the parent is known, of validity \<open>TREE\<close>. The new
  entry is in the map when the parent is looked up.
\<close>

definition SetNull_index :: CBlockIndex where
  "SetNull_index =
    \<lparr>phashBlock = None, pprev = None, nHeight = 0, nFile = 0, nDataPos = 0, nUndoPos = 0,
     nChainWork = 0, nTx = 0, nChainTx = 0,
     nStatus = \<lparr>validLevel = VALID_UNKNOWN, HAVE_DATA = False, HAVE_UNDO = False,
                 FAILED_VALID = False, FAILED_CHILD = False\<rparr>,
     idx_nVersion = 0, idx_hashMerkleRoot = 0, idx_nTime = 0, idx_nBits = 0, idx_nNonce = 0,
     nSequenceId = 0\<rparr>"

definition new_index :: "ext \<Rightarrow> accept_env \<Rightarrow> BlockMap \<Rightarrow> 'a CBlockHeader_scheme \<Rightarrow> CBlockIndex" where
  "new_index x env m block =
    (let hash = GetBlockHash x block;
         fromHeader = SetNull_index
           \<lparr>phashBlock := Some hash,
            idx_nVersion := nVersion block, idx_hashMerkleRoot := hashMerkleRoot block,
            idx_nTime := nTime block, idx_nBits := nBits block, idx_nNonce := nNonce block\<rparr>;
         inserted = m(hash \<mapsto> fromHeader);
         linked = (case inserted (hashPrevBlock block) of
                     None \<Rightarrow> fromHeader
                   | Some p \<Rightarrow> fromHeader\<lparr>pprev := Some (hashPrevBlock block),
                                          nHeight := nHeight p + 1\<rparr>)
     in RaiseValidity
          (linked\<lparr>nChainWork := (case inserted (hashPrevBlock block) of
                                     None \<Rightarrow> 0 | Some p \<Rightarrow> nChainWork p)
                                  + GetBlockProof env linked\<rparr>)
          VALID_TREE)"

definition AddToBlockIndex ::
  "ext \<Rightarrow> accept_env \<Rightarrow> node_state \<Rightarrow> 'a CBlockHeader_scheme \<Rightarrow> uint256 \<times> node_state" where
  "AddToBlockIndex x env st block =
    (let hash = GetBlockHash x block
     in case mapBlockIndex st hash of
          Some e \<Rightarrow> (hash, st)
        | None \<Rightarrow>
           (let pindexNew = new_index x env (mapBlockIndex st) block
            in (hash,
                st\<lparr>mapBlockIndex := (mapBlockIndex st)(hash \<mapsto> pindexNew),
                   pindexBestHeader :=
                     (case deref (mapBlockIndex st) (pindexBestHeader st) of
                        None \<Rightarrow> Some hash
                      | Some best \<Rightarrow> if nChainWork best < nChainWork pindexNew then Some hash
                                     else pindexBestHeader st),
                   setDirtyBlockIndex := insert hash (setDirtyBlockIndex st)\<rparr>)))"

definition CheckIndexAgainstCheckpoint ::
  "accept_env \<Rightarrow> consensus_params \<Rightarrow> CBlockIndex \<Rightarrow> failure + unit" where
  "CheckIndexAgainstCheckpoint env params pindexPrev =
    (if phashBlock pindexPrev = Some (hashGenesisBlock params) then Inr ()
     else case GetLastCheckpoint env of
            None \<Rightarrow> Inr ()
          | Some pcheckpoint \<Rightarrow>
             if nHeight pindexPrev + 1 < nHeight pcheckpoint
             then Inl (Invalid 100 REJECT_NONE [] False) else Inr ())"

text \<open>
  \<^verbatim>\<open>AcceptBlockHeader(block, state, chainparams, ppindex)\<close>. The result holds the outcome,
  the pointer left in \<^verbatim>\<open>*ppindex\<close> (\<open>ppindex\<close> is its value on entry) and the state.
  \<^verbatim>\<open>CheckBlockIndex\<close> only asserts and the signal to the listeners leaves the state
  alone; neither is modelled.
\<close>

definition AcceptBlockHeader ::
  "ext \<Rightarrow> accept_env \<Rightarrow> consensus_params \<Rightarrow> node_state \<Rightarrow> 'a CBlockHeader_scheme
     \<Rightarrow> uint256 option \<Rightarrow> (failure + unit) \<times> uint256 option \<times> node_state" where
  "AcceptBlockHeader x env params st block ppindex =
    (let hash = GetBlockHash x block;
         m = mapBlockIndex st;
         add = (case AddToBlockIndex x env st block of (p, st') \<Rightarrow> (Inr (), Some p, st'))
     in if hash \<noteq> hashGenesisBlock params then
          (case m hash of
             Some pindex \<Rightarrow>
               if BLOCK_FAILED_MASK pindex
               then (Inl (Invalid 0 REJECT_NONE ''duplicate'' False), Some hash, st)
               else (Inr (), Some hash, st)
           | None \<Rightarrow>
              (case CheckBlockHeader x m block True of
                 Inl e \<Rightarrow> (Inl e, ppindex, st)
               | Inr u \<Rightarrow>
                  (case m (hashPrevBlock block) of
                     None \<Rightarrow> (Inl (Invalid 10 REJECT_NONE ''bad-prevblk'' False), ppindex, st)
                   | Some pindexPrev \<Rightarrow>
                      if BLOCK_FAILED_MASK pindexPrev
                        then (Inl (Invalid 100 REJECT_INVALID ''bad-prevblk'' False), ppindex, st)
                      else case (if fCheckpointsEnabled env
                                 then CheckIndexAgainstCheckpoint env params pindexPrev
                                 else Inr ()) of
                        Inl e \<Rightarrow> (Inl e, ppindex, st)
                      | Inr u \<Rightarrow>
                         (case ContextualCheckBlockHeader m params
                                 (GetNextWorkRequired env pindexPrev (CBlockHeader.truncate block))
                                 (GetAdjustedTime env) block pindexPrev of
                            Inl e \<Rightarrow> (Inl e, ppindex, st)
                          | Inr u \<Rightarrow> add))))
        else add)"

text \<open>
  \<^verbatim>\<open>AcceptBlock(block, state, chainparams, ppindex, fRequested, dbp, fNewBlock)\<close>. The
  result holds the outcome, the pointer left in \<^verbatim>\<open>*ppindex\<close>, the flag left in
  \<^verbatim>\<open>*fNewBlock\<close> and the state.
\<close>

definition AcceptBlock ::
  "ext \<Rightarrow> accept_env \<Rightarrow> consensus_params \<Rightarrow> size_limits \<Rightarrow> node_state \<Rightarrow> CBlock
     \<Rightarrow> uint256 option \<Rightarrow> bool \<Rightarrow> (failure + unit) \<times> uint256 option \<times> bool \<times> node_state" where
  "AcceptBlock x env params lim st block ppindex fRequested =
    (case AcceptBlockHeader x env params st block ppindex of
       (Inl e, pp, st') \<Rightarrow> (Inl e, pp, False, st')
     | (Inr u, pp, st') \<Rightarrow>
        (case deref (mapBlockIndex st') pp of
           None \<Rightarrow> (Inl Crash, pp, False, st')
         | Some pindex \<Rightarrow>
            (let fAlreadyHave = HAVE_DATA (nStatus pindex);
                 fHasMoreWork = (case deref (mapBlockIndex st') (chainActiveTip st') of
                                   None \<Rightarrow> True
                                 | Some tip \<Rightarrow> nChainWork pindex > nChainWork tip);
                 fTooFarAhead = (nHeight pindex >
                                   (case deref (mapBlockIndex st') (chainActiveTip st') of
                                      None \<Rightarrow> - 1 | Some tip \<Rightarrow> nHeight tip)
                                   + MIN_BLOCKS_TO_KEEP env)
             in if fAlreadyHave then (Inr (), pp, False, st')
                else if \<not> fRequested \<and> (nTx pindex \<noteq> 0 \<or> \<not> fHasMoreWork \<or> fTooFarAhead)
                  then (Inr (), pp, False, st')
                else
                  (case (case CheckBlock x lim (mapBlockIndex st') block True True of
                           Inl e \<Rightarrow> Some e
                         | Inr b \<Rightarrow> ContextualCheckBlock env block (pprev pindex)) of
                     Some e \<Rightarrow>
                       (Inl e, pp, True,
                        if IsInvalid e \<and> \<not> CorruptionPossible e
                        then (case pp of
                                None \<Rightarrow> st'
                              | Some h \<Rightarrow>
                                 st'\<lparr>mapBlockIndex := (mapBlockIndex st')
                                        (h \<mapsto> pindex\<lparr>nStatus := (nStatus pindex)\<lparr>FAILED_VALID := True\<rparr>\<rparr>),
                                     setDirtyBlockIndex := insert h (setDirtyBlockIndex st')\<rparr>)
                        else st')
                   | None \<Rightarrow>
                      (case pp of
                         None \<Rightarrow> (Inl Crash, pp, True, st')
                       | Some h \<Rightarrow>
                          (case store_block env st' block h of
                             Inl e \<Rightarrow> (Inl e, pp, True, st')
                           | Inr st'' \<Rightarrow> (Inr (), pp, True, st'')))))))"

section \<open>The memory pool\<close>

text \<open>
  An entry of the pool, with what \<^verbatim>\<open>AcceptToMemoryPoolWorker\<close> reads of it, and the
  pool: \<open>mapTx\<close> by transaction hash, and \<open>mapNextTx\<close>, which gives for an outpoint the
  pool transaction that spends it.
\<close>

record CTxMemPoolEntry =
  entry_tx :: CTransaction
  entry_nFee :: CAmount
  entry_feeDelta :: CAmount
  entry_nTxSize :: nat
  entry_dirty :: bool
  entry_nCountWithDescendants :: nat
  entry_spendsCoinbase :: bool
  entry_sigOpCount :: "32 word"

definition GetModifiedFee :: "CTxMemPoolEntry \<Rightarrow> CAmount" where
  "GetModifiedFee e = entry_nFee e + entry_feeDelta e"

record CTxMemPool =
  mapTx :: "uint256 \<rightharpoonup> CTxMemPoolEntry"
  mapNextTx :: "COutPoint \<rightharpoonup> CTransaction"

definition pool_exists :: "CTxMemPool \<Rightarrow> uint256 \<Rightarrow> bool" where
  "pool_exists pool hash = (mapTx pool hash \<noteq> None)"

text \<open>
  What admission takes from policy, InstantSend, the pool's own code and the
  configuration:
  \<^item> \<open>IsStandardTx\<close> gives the reason when the transaction is not standard;
    \<open>CSV_tip_active\<close> is \<^verbatim>\<open>VersionBitsTipState(..., DEPLOYMENT_CSV) == THRESHOLD_ACTIVE\<close>;
    \<open>CheckFinalTx\<close> is called with \<open>STANDARD_LOCKTIME_VERIFY_FLAGS\<close>;
  \<^item> \<open>HasTxLockRequest\<close> and \<open>TxLockRequest_IsValid\<close> belong to InstantSend;
  \<^item> \<open>HaveCoinInCache\<close> is that member of \<^verbatim>\<open>pcoinsTip\<close>;
  \<^item> \<open>CheckTransaction_nHeight\<close> is the default of the last argument of
    \<^verbatim>\<open>CheckTransaction\<close>;
  \<^item> \<open>ApplyDeltas pool hash fee\<close> is the fee after \<^verbatim>\<open>pool.ApplyDeltas\<close>;
    \<open>tx_GetMinFee\<close> is \<^verbatim>\<open>tx.GetMinFee(1000, true, GMF_RELAY)\<close>; \<open>GetTxSize\<close> the size of
    the new entry; \<open>pool_GetMinFee pool size\<close> is
    \<^verbatim>\<open>pool.GetMinFee(...).GetFee(size)\<close>; \<open>minRelayTxFee_GetFee\<close> is
    \<^verbatim>\<open>::minRelayTxFee.GetFee\<close>; \<open>CFeeRate fee size\<close> is the rate that \<^verbatim>\<open>CFeeRate(fee, size)\<close>
    holds and by which two rates are compared;
  \<^item> \<open>AllowFree_priority\<close> is \<^verbatim>\<open>AllowFree(entry.GetPriority(chainActive.Height() + 1))\<close>
    and \<open>free_rate_limited\<close> the outcome of the test of the free-transaction rate
    limiter; both are computed in floating point;
  \<^item> \<open>CalculateMemPoolAncestors\<close> gives the hashes of the ancestors, or \<open>None\<close> when a
    limit is exceeded; \<open>CalculateDescendants pool h acc\<close> adds \<open>h\<close> and its descendants
    to \<open>acc\<close>;
  \<^item> \<open>RemoveStaged\<close>, \<open>addUnchecked\<close>, \<open>addAddressIndex\<close>, \<open>addSpentIndex\<close> and
    \<open>LimitMempoolSize\<close> change the pool.
\<close>

record mempool_env =
  fRequireStandard :: bool
  fEnableReplacement :: bool
  fMainNet :: bool
  IsStandardTx :: "CTransaction \<Rightarrow> string option"
  CSV_tip_active :: bool
  CheckFinalTx :: "CTransaction \<Rightarrow> bool"
  STANDARD_LOCKTIME_VERIFY_FLAGS :: "32 word"
  HasTxLockRequest :: "uint256 \<Rightarrow> bool"
  TxLockRequest_IsValid :: "CTransaction \<Rightarrow> bool"
  HaveCoinInCache :: "COutPoint \<Rightarrow> bool"
  CheckTransaction_nHeight :: int
  AreInputsStandard :: "CTransaction \<Rightarrow> CCoinsViewCache \<Rightarrow> bool"
  ApplyDeltas :: "CTxMemPool \<Rightarrow> uint256 \<Rightarrow> CAmount \<Rightarrow> CAmount"
  tx_GetMinFee :: "CTransaction \<Rightarrow> CAmount"
  GetTxSize :: "CTransaction \<Rightarrow> nat"
  MAX_STANDARD_TX_SIGOPS_COST :: "32 word"
  pool_GetMinFee :: "CTxMemPool \<Rightarrow> nat \<Rightarrow> CAmount"
  minRelayTxFee_GetFee :: "nat \<Rightarrow> CAmount"
  CFeeRate :: "CAmount \<Rightarrow> nat \<Rightarrow> int"
  relaypriority :: bool
  AllowFree_priority :: "CTxMemPoolEntry \<Rightarrow> bool"
  free_rate_limited :: bool
  CalculateMemPoolAncestors :: "CTxMemPool \<Rightarrow> CTxMemPoolEntry \<Rightarrow> uint256 list option"
  CalculateDescendants :: "CTxMemPool \<Rightarrow> uint256 \<Rightarrow> uint256 list \<Rightarrow> uint256 list"
  STANDARD_SCRIPT_VERIFY_FLAGS :: "32 word"
  MANDATORY_SCRIPT_VERIFY_FLAGS :: "32 word"
  RemoveStaged :: "CTxMemPool \<Rightarrow> uint256 list \<Rightarrow> CTxMemPool"
  addUnchecked :: "CTxMemPool \<Rightarrow> uint256 \<Rightarrow> CTxMemPoolEntry \<Rightarrow> uint256 list \<Rightarrow> CTxMemPool"
  addAddressIndex :: "CTxMemPool \<Rightarrow> CTxMemPoolEntry \<Rightarrow> CCoinsViewCache \<Rightarrow> CTxMemPool"
  addSpentIndex :: "CTxMemPool \<Rightarrow> CTxMemPoolEntry \<Rightarrow> CCoinsViewCache \<Rightarrow> CTxMemPool"
  LimitMempoolSize :: "CTxMemPool \<Rightarrow> CTxMemPool"

text \<open>
  Modelled from the spec: \<^verbatim>\<open>CCoinsViewMemPool\<close>, the joint view of the UTXO cache and the
  outputs of the pool. An outpoint of a pool transaction is a coin of height
  \<open>MEMPOOL_HEIGHT\<close> that is no coinbase; any other outpoint is looked up in the cache.
\<close>

definition MEMPOOL_HEIGHT :: int where
  "MEMPOOL_HEIGHT = 0x7FFFFFFF"

definition CCoinsViewMemPool :: "CCoinsViewCache \<Rightarrow> CTxMemPool \<Rightarrow> CCoinsViewCache" where
  "CCoinsViewMemPool base pool =
    base\<lparr>cacheCoins :=
      (\<lambda>p. case mapTx pool (prevout_hash p) of
              Some e \<Rightarrow>
                if prevout_n p < length (vout (entry_tx e))
                then Some \<lparr>out = vout (entry_tx e) ! prevout_n p, fCoinBase = False,
                           coin_nHeight = MEMPOOL_HEIGHT\<rparr>
                else None
            | None \<Rightarrow> cacheCoins base p)\<rparr>"

text \<open>
  \<^verbatim>\<open>CheckSequenceLocks(tx, flags, lp)\<close> without existing lock points: the heights of
  the inputs are read from the joint view, an input of the pool counting as confirmed in
  the next block, and the locks are evaluated for an index object on top of the tip. The
  lock points handed back through \<^verbatim>\<open>lp\<close> are not modelled.
\<close>

fun prev_heights :: "CCoinsViewCache \<Rightarrow> int \<Rightarrow> CTxIn list \<Rightarrow> int list option" where
  "prev_heights viewMemPool tipHeight [] = Some []"
| "prev_heights viewMemPool tipHeight (txin # ins) =
    (case AccessCoin viewMemPool (prevout txin) of
       None \<Rightarrow> None
     | Some coin \<Rightarrow>
        (case prev_heights viewMemPool tipHeight ins of
           None \<Rightarrow> None
         | Some hs \<Rightarrow>
            Some ((if coin_nHeight coin = MEMPOOL_HEIGHT then int32 (tipHeight + 1)
                   else coin_nHeight coin) # hs)))"

definition CheckSequenceLocks ::
  "BlockMap \<Rightarrow> uint256 option \<Rightarrow> CCoinsViewCache \<Rightarrow> CTxMemPool \<Rightarrow> CTransaction \<Rightarrow> 32 word
     \<Rightarrow> failure + bool" where
  "CheckSequenceLocks m chainTip pcoinsTip pool tx flags =
    (case deref m chainTip of
       None \<Rightarrow> Inl Crash
     | Some tip \<Rightarrow>
        (let index = SetNull_index\<lparr>pprev := chainTip, nHeight := int32 (nHeight tip + 1)\<rparr>
         in case prev_heights (CCoinsViewMemPool pcoinsTip pool) (nHeight tip) (vin tx) of
              None \<Rightarrow> Inr False
            | Some prevheights \<Rightarrow>
               (case CalculateSequenceLocks m tx flags prevheights index of
                  Inl e \<Rightarrow> Inl e
                | Inr (lockPair, hs) \<Rightarrow> EvaluateSequenceLocks m index lockPair)))"

subsection \<open>The checks before the inputs are looked up\<close>

definition mempool_prechecks ::
  "ext \<Rightarrow> mempool_env \<Rightarrow> size_limits \<Rightarrow> CTxMemPool \<Rightarrow> CTransaction \<Rightarrow> failure + unit" where
  "mempool_prechecks x env lim pool tx =
    (let hash = GetHash x tx
     in case CheckTransaction x lim tx (CheckTransaction_nHeight env) of
          Inl e \<Rightarrow> Inl e
        | Inr u \<Rightarrow>
           if IsCoinBase x tx then Inl (Invalid 100 REJECT_INVALID ''coinbase'' False)
           else case (if fRequireStandard env then IsStandardTx env tx else None) of
             Some reason \<Rightarrow> Inl (Invalid 0 REJECT_NONSTANDARD reason False)
           | None \<Rightarrow>
           if fRequireStandard env \<and> 2 \<le>s tx_nVersion tx \<and> \<not> CSV_tip_active env
             then Inl (Invalid 0 REJECT_NONSTANDARD ''premature-version2-tx'' False)
           else if \<not> CheckFinalTx env tx
             then Inl (Invalid 0 REJECT_NONSTANDARD ''non-final'' False)
           else if pool_exists pool hash
             then Inl (Invalid 0 REJECT_ALREADY_KNOWN ''txn-already-in-mempool'' False)
           else if HasTxLockRequest env hash \<and> \<not> TxLockRequest_IsValid env tx
             then Inl (Invalid 10 REJECT_INVALID ''bad-txlockrequest'' False)
           else if list_ex (\<lambda>txin. case GetLockedOutPointTxHash x (prevout txin) of
                                     None \<Rightarrow> False
                                   | Some hashLocked \<Rightarrow> hash \<noteq> hashLocked) (vin tx)
             then Inl (Invalid 10 REJECT_INVALID ''tx-txlock-conflict'' False)
           else Inr ())"

subsection \<open>Conflicts with transactions of the pool\<close>

text \<open>
  A pool transaction opts out of replacement unless replacement is enabled and one of
  its inputs has a sequence number below \<open>0xfffffffe\<close>.
\<close>

definition fReplacementOptOut :: "mempool_env \<Rightarrow> CTransaction \<Rightarrow> bool" where
  "fReplacementOptOut env ptxConflicting =
    (\<not> (fEnableReplacement env \<and>
        list_ex (\<lambda>txin. nSequence txin < 0xffffffff - 1) (vin ptxConflicting)))"

text \<open>
  The loop over the inputs that collects \<^verbatim>\<open>setConflicts\<close>, a \<^verbatim>\<open>std::set\<close> of hashes, kept
  here as a list in the order of the set.
\<close>

fun conflict_loop ::
  "ext \<Rightarrow> mempool_env \<Rightarrow> CTxMemPool \<Rightarrow> uint256 \<Rightarrow> CTxIn list \<Rightarrow> uint256 list
     \<Rightarrow> failure + uint256 list" where
  "conflict_loop x env pool hash [] setConflicts = Inr setConflicts"
| "conflict_loop x env pool hash (txin # ins) setConflicts =
    (case mapNextTx pool (prevout txin) of
       None \<Rightarrow> conflict_loop x env pool hash ins setConflicts
     | Some ptxConflicting \<Rightarrow>
        if GetHash x ptxConflicting \<in> set setConflicts
          then conflict_loop x env pool hash ins setConflicts
        else if HasTxLockRequest env (GetHash x ptxConflicting)
          then Inl (Invalid 0 REJECT_INVALID ''tx-txlockreq-mempool-conflict'' False)
        else if HasTxLockRequest env hash
          then Inl (Invalid 0 REJECT_INVALID ''txlockreq-tx-mempool-conflict'' False)
        else if fReplacementOptOut env ptxConflicting
          then Inl (Invalid 0 REJECT_CONFLICT ''txn-mempool-conflict'' False)
        else conflict_loop x env pool hash ins (insort (GetHash x ptxConflicting) setConflicts))"

definition find_conflicts ::
  "ext \<Rightarrow> mempool_env \<Rightarrow> CTxMemPool \<Rightarrow> CTransaction \<Rightarrow> failure + uint256 list" where
  "find_conflicts x env pool tx =
    (if \<not> IsZerocoinSpend x tx then conflict_loop x env pool (GetHash x tx) (vin tx) []
     else Inr [])"

subsection \<open>Looking up the inputs\<close>

text \<open>
  The loop over the outputs of the transaction that tells whether it is already known,
  and the loop over its inputs that tells whether they exist. Both add to
  \<^verbatim>\<open>coins_to_uncache\<close>. The second one stops with the second component set when an
  input is not in the view.
\<close>

fun known_loop ::
  "mempool_env \<Rightarrow> CCoinsViewCache \<Rightarrow> uint256 \<Rightarrow> nat list \<Rightarrow> COutPoint list
     \<Rightarrow> bool \<times> COutPoint list" where
  "known_loop env view hash [] uncache = (False, uncache)"
| "known_loop env view hash (n # ns) uncache =
    (if HaveCoin view (COutPoint hash n)
     then (True, if \<not> HaveCoinInCache env (COutPoint hash n)
                 then uncache @ [COutPoint hash n] else uncache)
     else known_loop env view hash ns uncache)"

fun exist_loop ::
  "mempool_env \<Rightarrow> CCoinsViewCache \<Rightarrow> CTxIn list \<Rightarrow> COutPoint list \<Rightarrow> bool \<times> COutPoint list" where
  "exist_loop env view [] uncache = (False, uncache)"
| "exist_loop env view (txin # ins) uncache =
    (let uncache' = (if \<not> HaveCoinInCache env (prevout txin)
                     then uncache @ [prevout txin] else uncache)
     in if \<not> HaveCoin view (prevout txin) then (True, uncache')
        else exist_loop env view ins uncache')"

text \<open>
  The block of \<^verbatim>\<open>AcceptToMemoryPoolWorker\<close> that holds the pool's lock: the outcome, the
  value left in \<^verbatim>\<open>*pfMissingInputs\<close> (\<open>None\<close> for a null pointer) and
  \<^verbatim>\<open>coins_to_uncache\<close>. On success the outcome is \<^verbatim>\<open>nValueIn\<close>.
\<close>

definition lookup_inputs ::
  "ext \<Rightarrow> mempool_env \<Rightarrow> BlockMap \<Rightarrow> uint256 option \<Rightarrow> CCoinsViewCache \<Rightarrow> CTxMemPool
     \<Rightarrow> CTransaction \<Rightarrow> bool option \<Rightarrow> COutPoint list
     \<Rightarrow> (failure + CAmount) \<times> bool option \<times> COutPoint list" where
  "lookup_inputs x env m chainTip pcoinsTip pool tx pfMissingInputs uncache =
    (let view = CCoinsViewMemPool pcoinsTip pool;
         hash = GetHash x tx
     in case known_loop env view hash [0 ..< length (vout tx)] uncache of
          (True, uncache1) \<Rightarrow>
            (Inl (Invalid 0 REJECT_ALREADY_KNOWN ''txn-already-known'' False),
             pfMissingInputs, uncache1)
        | (False, uncache1) \<Rightarrow>
           (case exist_loop env view (vin tx) uncache1 of
              (True, uncache2) \<Rightarrow>
                (Inl Unset, map_option (\<lambda>b. True) pfMissingInputs, uncache2)
            | (False, uncache2) \<Rightarrow>
               if \<not> HaveInputs x view tx
                 then (Inl (Invalid 0 REJECT_DUPLICATE ''bad-txns-inputs-spent'' False),
                       pfMissingInputs, uncache2)
               else
                 (case CheckSequenceLocks m chainTip pcoinsTip pool tx
                         (STANDARD_LOCKTIME_VERIFY_FLAGS env) of
                    Inl e \<Rightarrow> (Inl e, pfMissingInputs, uncache2)
                  | Inr False \<Rightarrow>
                     (Inl (Invalid 0 REJECT_NONSTANDARD ''non-BIP68-final'' False),
                      pfMissingInputs, uncache2)
                  | Inr True \<Rightarrow> (Inr (GetValueIn x view tx), pfMissingInputs, uncache2))))"

subsection \<open>Fees, size and ancestors\<close>

record policy_result =
  p_nFees :: CAmount
  p_nModifiedFees :: CAmount
  p_nSize :: nat
  p_entry :: CTxMemPoolEntry
  p_setAncestors :: "uint256 list"

definition mempool_policy ::
  "ext \<Rightarrow> mempool_env \<Rightarrow> CTxMemPool \<Rightarrow> CCoinsViewCache \<Rightarrow> CTransaction \<Rightarrow> CAmount \<Rightarrow> bool
     \<Rightarrow> bool \<Rightarrow> uint256 list \<Rightarrow> failure + policy_result" where
  "mempool_policy x env pool view tx nValueIn fLimitFree fRejectAbsurdFee setConflicts =
    (if fMainNet env \<and> fRequireStandard env \<and> \<not> AreInputsStandard env tx view
       then Inl (Invalid 0 REJECT_NONSTANDARD ''bad-txns-nonstandard-inputs'' False)
     else case GetP2SHSigOpCount x tx view of
       Inl e \<Rightarrow> Inl e
     | Inr nP2SH \<Rightarrow>
        (let nSigOps = GetLegacySigOpCount x tx + nP2SH;
             nFees = nValueIn - GetValueOut tx;
             nModifiedFees = ApplyDeltas env pool (GetHash x tx) nFees;
             fSpendsCoinbase =
               list_ex (\<lambda>txin. case AccessCoin view (prevout txin) of
                                  None \<Rightarrow> False | Some coin \<Rightarrow> fCoinBase coin) (vin tx);
             entry = \<lparr>entry_tx = tx, entry_nFee = nFees, entry_feeDelta = 0,
                      entry_nTxSize = GetTxSize env tx, entry_dirty = False,
                      entry_nCountWithDescendants = 1, entry_spendsCoinbase = fSpendsCoinbase,
                      entry_sigOpCount = nSigOps\<rparr>;
             nSize = entry_nTxSize entry
         in if fLimitFree \<and> nFees < tx_GetMinFee env tx
              then Inl (Invalid 0 REJECT_INSUFFICIENTFEE ''not enough fee'' False)
            else if nSigOps > MAX_STANDARD_TX_SIGOPS_COST env
              then Inl (Invalid 0 REJECT_NONSTANDARD ''bad-txns-too-many-sigops'' False)
            else if pool_GetMinFee env pool nSize > 0 \<and> nModifiedFees < pool_GetMinFee env pool nSize
              then Inl (Invalid 0 REJECT_INSUFFICIENTFEE ''mempool min fee not met'' False)
            else if relaypriority env \<and> nModifiedFees < minRelayTxFee_GetFee env nSize \<and>
                    \<not> AllowFree_priority env entry
              then Inl (Invalid 0 REJECT_INSUFFICIENTFEE ''insufficient priority'' False)
            else if fLimitFree \<and> nModifiedFees < minRelayTxFee_GetFee env nSize \<and>
                    free_rate_limited env
              then Inl (Invalid 0 REJECT_INSUFFICIENTFEE ''rate limited free transaction'' False)
            else if fRejectAbsurdFee \<and> nFees > minRelayTxFee_GetFee env nSize * 10000
              then Inl (Invalid 0 REJECT_HIGHFEE ''absurdly-high-fee'' False)
            else case CalculateMemPoolAncestors env pool entry of
              None \<Rightarrow> Inl (Invalid 0 REJECT_NONSTANDARD ''too-long-mempool-chain'' False)
            | Some setAncestors \<Rightarrow>
               if list_ex (\<lambda>hashAncestor. hashAncestor \<in> set setConflicts) setAncestors
                 then Inl (Invalid 10 REJECT_INVALID ''bad-txns-spends-conflicting-tx'' False)
               else Inr \<lparr>p_nFees = nFees, p_nModifiedFees = nModifiedFees, p_nSize = nSize,
                         p_entry = entry, p_setAncestors = setAncestors\<rparr>))"

subsection \<open>Replacement\<close>

text \<open>
  The loop over \<^verbatim>\<open>setConflicts\<close>: the entries found in the pool
  (\<^verbatim>\<open>setIterConflicting\<close>), the hashes of the transactions their inputs come from
  (\<^verbatim>\<open>setConflictsParents\<close>) and the number of their descendants
  (\<^verbatim>\<open>nConflictingCount\<close>).
\<close>

fun replaced_loop ::
  "mempool_env \<Rightarrow> CTxMemPool \<Rightarrow> int \<Rightarrow> uint256 list \<Rightarrow> uint256 list \<times> uint256 set \<times> nat
     \<Rightarrow> failure + uint256 list \<times> uint256 set \<times> nat" where
  "replaced_loop env pool newFeeRate [] acc = Inr acc"
| "replaced_loop env pool newFeeRate (hashConflicting # hs)
      (setIterConflicting, setConflictsParents, nConflictingCount) =
    (case mapTx pool hashConflicting of
       None \<Rightarrow>
         replaced_loop env pool newFeeRate hs
           (setIterConflicting, setConflictsParents, nConflictingCount)
     | Some mi \<Rightarrow>
        if entry_dirty mi
          then Inl (Invalid 0 REJECT_NONSTANDARD ''too many potential replacements'' False)
        else if newFeeRate \<le> CFeeRate env (GetModifiedFee mi) (entry_nTxSize mi)
          then Inl (Invalid 0 REJECT_INSUFFICIENTFEE ''insufficient fee'' False)
        else replaced_loop env pool newFeeRate hs
               (setIterConflicting @ [hashConflicting],
                setConflictsParents \<union> set (map (\<lambda>txin. prevout_hash (prevout txin))
                                               (vin (entry_tx mi))),
                nConflictingCount + entry_nCountWithDescendants mi))"

definition conflicting_fees :: "CTxMemPool \<Rightarrow> uint256 list \<Rightarrow> CAmount" where
  "conflicting_fees pool allConflicting =
    sum_list (map (\<lambda>h. case mapTx pool h of None \<Rightarrow> 0 | Some it \<Rightarrow> GetModifiedFee it)
                  allConflicting)"

definition maxDescendantsToVisit :: nat where
  "maxDescendantsToVisit = 100"

text \<open>
  The replacement checks; the outcome is \<^verbatim>\<open>allConflicting\<close>, the hashes of the entries
  to evict.
\<close>

definition replacement_checks ::
  "mempool_env \<Rightarrow> CTxMemPool \<Rightarrow> CTransaction \<Rightarrow> CAmount \<Rightarrow> nat \<Rightarrow> uint256 list
     \<Rightarrow> failure + uint256 list" where
  "replacement_checks env pool tx nModifiedFees nSize setConflicts =
    (if setConflicts = [] then Inr []
     else case replaced_loop env pool (CFeeRate env nModifiedFees nSize) setConflicts ([], {}, 0) of
       Inl e \<Rightarrow> Inl e
     | Inr (setIterConflicting, setConflictsParents, nConflictingCount) \<Rightarrow>
        if \<not> nConflictingCount \<le> maxDescendantsToVisit
          then Inl (Invalid 0 REJECT_NONSTANDARD ''too many potential replacements'' False)
        else
          (let allConflicting = fold (CalculateDescendants env pool) setIterConflicting [];
               nConflictingFees = conflicting_fees pool allConflicting
           in if list_ex (\<lambda>txin. prevout_hash (prevout txin) \<notin> setConflictsParents \<and>
                                   mapTx pool (prevout_hash (prevout txin)) \<noteq> None) (vin tx)
                then Inl (Invalid 0 REJECT_NONSTANDARD ''replacement-adds-unconfirmed'' False)
              else if nModifiedFees < nConflictingFees
                then Inl (Invalid 0 REJECT_INSUFFICIENTFEE ''insufficient fee'' False)
              else if nModifiedFees - nConflictingFees < minRelayTxFee_GetFee env nSize
                then Inl (Invalid 0 REJECT_INSUFFICIENTFEE ''insufficient fee'' False)
              else Inr allConflicting))"

subsection \<open>Admission\<close>

text \<open>
  The end of \<^verbatim>\<open>AcceptToMemoryPoolWorker\<close>: the script checks, the eviction of the
  replaced entries, the insertion and the trimming of the pool.
\<close>

definition store_tx ::
  "ext \<Rightarrow> mempool_env \<Rightarrow> chain_env \<Rightarrow> BlockMap \<Rightarrow> CTxMemPool \<Rightarrow> CCoinsViewCache \<Rightarrow> CTransaction
     \<Rightarrow> policy_result \<Rightarrow> uint256 list \<Rightarrow> bool \<Rightarrow> (failure + unit) \<times> CTxMemPool" where
  "store_tx x env cenv m pool view tx pol allConflicting fOverrideMempoolLimit =
    (case CheckInputs x m tx view True (STANDARD_SCRIPT_VERIFY_FLAGS env) False of
       Inl e \<Rightarrow> (Inl e, pool)
     | Inr ok \<Rightarrow>
        (case CheckInputs x m tx view True (MANDATORY_SCRIPT_VERIFY_FLAGS env) False of
           Inl e \<Rightarrow> (Inl e, pool)
         | Inr ok' \<Rightarrow>
            (let hash = GetHash x tx;
                 pool1 = RemoveStaged env pool allConflicting;
                 pool2 = addUnchecked env pool1 hash (p_entry pol) (p_setAncestors pol);
                 pool3 = (if fAddressIndex cenv then addAddressIndex env pool2 (p_entry pol) view
                          else pool2);
                 pool4 = (if fSpentIndex cenv then addSpentIndex env pool3 (p_entry pol) view
                          else pool3)
             in if \<not> fOverrideMempoolLimit then
                  (if \<not> pool_exists (LimitMempoolSize env pool4) hash
                   then (Inl (Invalid 0 REJECT_INSUFFICIENTFEE ''mempool full'' False),
                         LimitMempoolSize env pool4)
                   else (Inr (), LimitMempoolSize env pool4))
                else (Inr (), pool4))))"

text \<open>
  \<^verbatim>\<open>AcceptToMemoryPoolWorker\<close>. The result holds the outcome (\<open>Unset\<close> when the function
  returns false and leaves the validation state alone), the value left in
  \<^verbatim>\<open>*pfMissingInputs\<close>, the pool and \<^verbatim>\<open>coins_to_uncache\<close>. Once the inputs are looked
  up the source detaches its view from the pool and goes on with the coins it has
  fetched, those of the inputs; here the joint view itself is handed on. The signal that
  ends a real run is not modelled.
\<close>

definition AcceptToMemoryPoolWorker ::
  "ext \<Rightarrow> mempool_env \<Rightarrow> chain_env \<Rightarrow> size_limits \<Rightarrow> BlockMap \<Rightarrow> uint256 option
     \<Rightarrow> CCoinsViewCache \<Rightarrow> CTxMemPool \<Rightarrow> CTransaction \<Rightarrow> bool \<Rightarrow> bool option \<Rightarrow> bool \<Rightarrow> bool
     \<Rightarrow> COutPoint list \<Rightarrow> bool
     \<Rightarrow> (failure + unit) \<times> bool option \<times> CTxMemPool \<times> COutPoint list" where
  "AcceptToMemoryPoolWorker x env cenv lim m chainTip pcoinsTip pool tx fLimitFree pfMissingInputs
       fOverrideMempoolLimit fRejectAbsurdFee coins_to_uncache fDryRun =
    (let missing0 = map_option (\<lambda>b. False) pfMissingInputs
     in case mempool_prechecks x env lim pool tx of
          Inl e \<Rightarrow> (Inl e, missing0, pool, coins_to_uncache)
        | Inr u \<Rightarrow>
       (case find_conflicts x env pool tx of
          Inl e \<Rightarrow> (Inl e, missing0, pool, coins_to_uncache)
        | Inr setConflicts \<Rightarrow>
       (case lookup_inputs x env m chainTip pcoinsTip pool tx missing0 coins_to_uncache of
          (Inl e, missing, uncache) \<Rightarrow> (Inl e, missing, pool, uncache)
        | (Inr nValueIn, missing, uncache) \<Rightarrow>
           if IsZerocoinSpend x tx then (Inr (), missing, pool, uncache)
           else
       (case mempool_policy x env pool (CCoinsViewMemPool pcoinsTip pool) tx nValueIn fLimitFree
               fRejectAbsurdFee setConflicts of
          Inl e \<Rightarrow> (Inl e, missing, pool, uncache)
        | Inr pol \<Rightarrow>
       (case replacement_checks env pool tx (p_nModifiedFees pol) (p_nSize pol) setConflicts of
          Inl e \<Rightarrow> (Inl e, missing, pool, uncache)
        | Inr allConflicting \<Rightarrow>
           if fDryRun then (Inr (), missing, pool, uncache)
           else
             (case store_tx x env cenv m pool (CCoinsViewMemPool pcoinsTip pool) tx pol
                     allConflicting fOverrideMempoolLimit of
                (r, pool') \<Rightarrow> (r, missing, pool', uncache)))))))"

subsection \<open>Notions used to state the replacement rules\<close>

text \<open>
  The pool transactions that spend one of the inputs \<open>ins\<close>, as a set, and those that
  spend an input of \<open>tx\<close>, in the order of the inputs; their
  hashes in the order of \<^verbatim>\<open>setConflicts\<close>; and the entries that a replacement by \<open>tx\<close>
  evicts, which are the conflicting entries of the pool and their descendants.
\<close>

definition conflicts_of :: "CTxMemPool \<Rightarrow> CTxIn list \<Rightarrow> CTransaction set" where
  "conflicts_of pool ins = {c. \<exists>txin \<in> set ins. mapNextTx pool (prevout txin) = Some c}"

definition direct_conflicts :: "CTxMemPool \<Rightarrow> CTransaction \<Rightarrow> CTransaction list" where
  "direct_conflicts pool tx = List.map_filter (\<lambda>txin. mapNextTx pool (prevout txin)) (vin tx)"

definition conflict_hashes :: "ext \<Rightarrow> CTxMemPool \<Rightarrow> CTransaction \<Rightarrow> uint256 list" where
  "conflict_hashes x pool tx = sort (remdups (map (GetHash x) (direct_conflicts pool tx)))"

definition all_conflicting :: "ext \<Rightarrow> mempool_env \<Rightarrow> CTxMemPool \<Rightarrow> CTransaction \<Rightarrow> uint256 list" where
  "all_conflicting x env pool tx =
    fold (CalculateDescendants env pool)
         (filter (\<lambda>h. mapTx pool h \<noteq> None) (conflict_hashes x pool tx)) []"

text \<open>
  The fee rules of a replacement with the modified fee \<open>fee\<close> and the size \<open>nSize\<close>: a
  rate above that of every conflicting entry of the pool, and a fee that covers the fees
  of the evicted entries and the relay fee for its own size.
\<close>

definition replacement_pays ::
  "ext \<Rightarrow> mempool_env \<Rightarrow> CTxMemPool \<Rightarrow> CTransaction \<Rightarrow> CAmount \<Rightarrow> nat \<Rightarrow> bool" where
  "replacement_pays x env pool tx fee nSize =
    (list_all (\<lambda>c. case mapTx pool (GetHash x c) of
                      None \<Rightarrow> True
                    | Some e \<Rightarrow> CFeeRate env (GetModifiedFee e) (entry_nTxSize e)
                                < CFeeRate env fee nSize)
              (direct_conflicts pool tx) \<and>
     conflicting_fees pool (all_conflicting x env pool tx) \<le> fee \<and>
     minRelayTxFee_GetFee env nSize \<le> fee - conflicting_fees pool (all_conflicting x env pool tx))"

text \<open>
  The other tests of a replacement: none of the conflicting entries of the pool is
  dirty, together they have at most \<open>maxDescendantsToVisit\<close> descendants, and every
  input of \<open>tx\<close> either spends an output of a transaction that a conflicting entry
  spends from as well, or spends no output of a pool transaction.
\<close>

definition conflict_entries :: "ext \<Rightarrow> CTxMemPool \<Rightarrow> CTransaction \<Rightarrow> CTxMemPoolEntry list" where
  "conflict_entries x pool tx = List.map_filter (mapTx pool) (conflict_hashes x pool tx)"

definition replacement_feasible :: "ext \<Rightarrow> CTxMemPool \<Rightarrow> CTransaction \<Rightarrow> bool" where
  "replacement_feasible x pool tx =
    (list_all (\<lambda>e. \<not> entry_dirty e) (conflict_entries x pool tx) \<and>
     sum_list (map entry_nCountWithDescendants (conflict_entries x pool tx))
       \<le> maxDescendantsToVisit \<and>
     list_all (\<lambda>txin.
         list_ex (\<lambda>e. list_ex (\<lambda>i. prevout_hash (prevout i) = prevout_hash (prevout txin))
                              (vin (entry_tx e)))
                 (conflict_entries x pool tx) \<or>
         mapTx pool (prevout_hash (prevout txin)) = None)
       (vin tx))"

definition insufficient_fee :: failure where
  "insufficient_fee = Invalid 0 REJECT_INSUFFICIENTFEE ''insufficient fee'' False"

section \<open>Notions used to state the round trip\<close>

text \<open>
  The coins that \<open>AddCoins\<close> creates for a list of outputs numbered from \<open>i\<close>: one for
  every output that is not unspendable.
\<close>

definition new_coins :: "ext \<Rightarrow> uint256 \<Rightarrow> bool \<Rightarrow> int \<Rightarrow> CTxOut list \<Rightarrow> nat \<Rightarrow> COutPoint \<rightharpoonup> Coin" where
  "new_coins x txid cb h outs i =
    (\<lambda>p. if prevout_hash p = txid \<and> i \<le> prevout_n p \<and> prevout_n p < i + length outs \<and>
              \<not> IsUnspendable x (scriptPubKey (outs ! (prevout_n p - i)))
           then Some \<lparr>out = outs ! (prevout_n p - i), fCoinBase = cb, coin_nHeight = h\<rparr>
           else None)"

text \<open>
  A coin as \<open>ConnectBlock\<close> creates it: its script is not unspendable (\<open>AddCoin\<close> drops
  the others) and its height is not 0 (the genesis block is never connected through
  the transaction loop). A view is well formed when all its coins are.
\<close>

definition coin_ok :: "ext \<Rightarrow> Coin \<Rightarrow> bool" where
  "coin_ok x c = (coin_nHeight c \<noteq> 0 \<and> \<not> IsUnspendable x (scriptPubKey (out c)))"

definition view_ok :: "ext \<Rightarrow> CCoinsViewCache \<Rightarrow> bool" where
  "view_ok x v = (\<forall>c \<in> ran (cacheCoins v). coin_ok x c)"

text \<open>What \<open>CheckBlock\<close> establishes about the position of the coinbase.\<close>

definition coinbase_first :: "ext \<Rightarrow> CBlock \<Rightarrow> bool" where
  "coinbase_first x block =
    (vtx block \<noteq> [] \<and> IsCoinBase x (hd (vtx block)) \<and>
     \<not> list_ex (IsCoinBase x) (tl (vtx block)))"

section \<open>Notions used to state the signature operation limit\<close>



section \<open>Example data\<close>

text \<open>A block index entry with the given hash, parent, height and time; the rest is blank.\<close>

definition example_index :: "uint256 \<Rightarrow> uint256 option \<Rightarrow> int \<Rightarrow> 32 word \<Rightarrow> CBlockIndex" where
  "example_index h prev height time =
    \<lparr>phashBlock = Some h, pprev = prev, nHeight = height, nFile = 0, nDataPos = 0,
     nUndoPos = 0, nChainWork = 0, nTx = 0, nChainTx = 0,
     nStatus = \<lparr>validLevel = VALID_TREE, HAVE_DATA = False, HAVE_UNDO = False,
                 FAILED_VALID = False, FAILED_CHILD = False\<rparr>,
     idx_nVersion = 1, idx_hashMerkleRoot = 0, idx_nTime = time, idx_nBits = 0,
     idx_nNonce = 0, nSequenceId = 0\<rparr>"

definition example_header :: "uint256 \<Rightarrow> 32 word \<Rightarrow> 32 word \<Rightarrow> CBlockHeader" where
  "example_header prev time bits =
    \<lparr>nVersion = 1, hashPrevBlock = prev, hashMerkleRoot = 0, nTime = time, nBits = bits,
     nNonce = 0\<rparr>"

text \<open>A version-2 transaction with one input of the given sequence number.\<close>

definition example_spend :: "COutPoint \<Rightarrow> 32 word \<Rightarrow> CTransaction" where
  "example_spend p s =
    \<lparr>tx_nVersion = 2, vin = [\<lparr>prevout = p, scriptSig = [], nSequence = s\<rparr>],
     vout = [\<lparr>nValue = 1, scriptPubKey = []\<rparr>], nLockTime = 0\<rparr>"

text \<open>
  Stand-ins for the functions declared elsewhere: the hash of a transaction is read off
  its lock time and that of a header off its nonce, a coinbase has the single null
  prevout, a script is unspendable when it starts with the byte \<open>0x6a\<close>, and every
  byte \<open>0xac\<close> of a script counts as one signature operation. A transaction takes 10
  bytes plus 41 bytes and the script for each input and 9 bytes and the script for each
  output; a block takes 81 bytes plus its transactions.
\<close>

definition example_tx_size :: "CTransaction \<Rightarrow> nat" where
  "example_tx_size tx =
    10 + sum_list (map (\<lambda>txin. 41 + length (scriptSig txin)) (vin tx)) +
         sum_list (map (\<lambda>txout. 9 + length (scriptPubKey txout)) (vout tx))"

definition example_ext :: ext where
  "example_ext =
    \<lparr>GetHash = (\<lambda>tx. unat (nLockTime tx)),
     IsCoinBase = (\<lambda>tx. map prevout (vin tx) = [COutPoint 0 4294967295]),
     IsZerocoinSpend = (\<lambda>tx. False),
     IsNull = (\<lambda>p. p = COutPoint 0 4294967295),
     IsUnspendable = (\<lambda>s. take 1 s = [0x6a]),
     IsPayToScriptHash = (\<lambda>s. False),
     scriptIsZerocoinMint = (\<lambda>s. False),
     scriptIsZerocoinSpend = (\<lambda>s. False),
     GetSigOpCount = (\<lambda>s. of_nat (length (filter (\<lambda>b. b = 0xac) s))),
     GetSigOpCountP2SH = (\<lambda>p s. 0),
     GetSerializeSize = example_tx_size,
     GetBlockSerializeSize = (\<lambda>b. 81 + sum_list (map example_tx_size (vtx b))),
     BlockGetHash = (\<lambda>h. unat (nNonce h)),
     CheckProofOfWork = (\<lambda>h hash bits. True),
     BlockMerkleRoot = (\<lambda>txs. (0, False)),
     IsSporkActive_INSTANTSEND_BLOCK_FILTERING = False,
     GetLockedOutPointTxHash = (\<lambda>p. None),
     VerifyScript = (\<lambda>tx i c f. None),
     MAX_MONEY = 500000000000000000,
     WITNESS_SCALE_FACTOR = 4,
     STANDARD_NOT_MANDATORY_VERIFY_FLAGS = 0,
     SCRIPT_VERIFY_P2SH = 1,
     SCRIPT_VERIFY_DERSIG = 4,
     SCRIPT_VERIFY_CHECKLOCKTIMEVERIFY = 512,
     SCRIPT_VERIFY_CHECKSEQUENCEVERIFY = 1024,
     MAX_OUTPUTS_PER_BLOCK = 1000\<rparr>"

definition example_env :: chain_env where
  "example_env =
    \<lparr>fScriptChecks = True, nScriptCheckThreads = 0, fTxIndex = True, fAddressIndex = False,
     fSpentIndex = False, fTimestampIndex = False, ComputeBlockSize = (\<lambda>b. 1000000),
     CSV_active = False, SmartMining_Validate = (\<lambda>b i f. None),
     FindUndoPos = (\<lambda>f. Some 8), UndoWriteToDisk_ok = True, WriteTxIndex_ok = True,
     WriteAddressIndex_ok = True, UpdateAddressUnspentIndex_ok = True,
     UpdateSpentIndex_ok = True, WriteTimestampIndex_ok = True, EraseAddressIndex_ok = True\<rparr>"

definition example_params :: consensus_params where
  "example_params =
    \<lparr>hashGenesisBlock = 1, nMajorityEnforceBlockUpgrade = 750,
     nMajorityRejectBlockOutdated = 950, nMajorityWindow = 1000, BIP34Height = 1000000,
     BIP34Hash = 99\<rparr>"

definition example_limits :: size_limits where
  "example_limits = \<lparr>maxBlockSize = 1000000, maxBlockSigops = 20000, maxStandardTxSigops = 4000\<rparr>"

text \<open>
  A chain of two entries, with hashes 1 (height 0) and 2 (height 1), and the index
  entry of a block 3 at height 2 on top of it.
\<close>

definition example_chain :: BlockMap where
  "example_chain = [1 \<mapsto> example_index 1 None 0 1000, 2 \<mapsto> example_index 2 (Some 1) 1 2000]"

definition example_pindex :: CBlockIndex where
  "example_pindex = example_index 3 (Some 2) 2 3000"

text \<open>
  A coinbase with hash \<open>h\<close> whose output carries the script \<open>s\<close>, and a transaction
  with hash \<open>h\<close> that spends the outpoint \<open>p\<close> into one ordinary and one unspendable output.
\<close>

definition example_coinbase :: "32 word \<Rightarrow> CScript \<Rightarrow> CTransaction" where
  "example_coinbase h s =
    \<lparr>tx_nVersion = 1,
     vin = [\<lparr>prevout = COutPoint 0 4294967295, scriptSig = [1, 2], nSequence = - 1\<rparr>],
     vout = [\<lparr>nValue = 5000, scriptPubKey = s\<rparr>], nLockTime = h\<rparr>"

definition example_payment :: "32 word \<Rightarrow> COutPoint \<Rightarrow> CTransaction" where
  "example_payment h p =
    \<lparr>tx_nVersion = 1, vin = [\<lparr>prevout = p, scriptSig = [3], nSequence = - 1\<rparr>],
     vout = [\<lparr>nValue = 9, scriptPubKey = [8]\<rparr>, \<lparr>nValue = 0, scriptPubKey = [0x6a]\<rparr>],
     nLockTime = h\<rparr>"

definition example_block :: "CTransaction list \<Rightarrow> CBlock" where
  "example_block txs =
    \<lparr>nVersion = 1, hashPrevBlock = 2, hashMerkleRoot = 0, nTime = 3000, nBits = 0,
     nNonce = 3, vtx = txs, fChecked = False\<rparr>"

text \<open>A view on top of block 2 that holds one coin of height 1, at the outpoint \<open>p\<close>.\<close>

definition example_view :: "COutPoint \<Rightarrow> CCoinsViewCache" where
  "example_view p =
    \<lparr>cacheCoins = [p \<mapsto> \<lparr>out = \<lparr>nValue = 10, scriptPubKey = [7]\<rparr>, fCoinBase = False,
                          coin_nHeight = 1\<rparr>],
     hashBlock = 2\<rparr>"

text \<open>
  The connection of a block made of a coinbase and one payment that spends the coin of
  the view.
\<close>

definition example_connected :: "failure + connect_result" where
  "example_connected =
    ConnectBlock example_ext example_env example_params example_chain example_limits Map.empty
      (example_block [example_coinbase 100 [9], example_payment 101 (COutPoint 50 0)])
      example_pindex (example_view (COutPoint 50 0)) False"

text \<open>
  The same chain when block 2, at height 1, is the BIP34 block, so that the BIP30 test is
  off for block 3; the view already holds a coin at the first output of transaction
  100, and the block's coinbase is transaction 100 again.
\<close>

definition example_params_BIP34 :: consensus_params where
  "example_params_BIP34 = example_params\<lparr>BIP34Height := 1, BIP34Hash := 2\<rparr>"

definition example_overwritten :: "failure + connect_result" where
  "example_overwritten =
    ConnectBlock example_ext example_env example_params_BIP34 example_chain example_limits
      Map.empty (example_block [example_coinbase 100 [9]]) example_pindex
      (example_view (COutPoint 100 0)) False"

text \<open>The genesis block (its header hashes to 1) and its index entry, on the empty view.\<close>

definition example_genesis :: CBlock where
  "example_genesis =
    \<lparr>nVersion = 1, hashPrevBlock = 0, hashMerkleRoot = 0, nTime = 1000, nBits = 0,
     nNonce = 1, vtx = [example_coinbase 1 [9]], fChecked = False\<rparr>"

definition example_genesis_connected :: "failure + connect_result" where
  "example_genesis_connected =
    ConnectBlock example_ext example_env example_params example_chain example_limits Map.empty
      example_genesis (example_index 1 None 0 1000) \<lparr>cacheCoins = Map.empty, hashBlock = 0\<rparr> False"

text \<open>
  A block with a zerocoin spend: transaction 77, whose single input has the null
  prevout and a script that starts with the byte \<open>0xc3\<close>.
\<close>

definition example_ext_zerocoin :: ext where
  "example_ext_zerocoin =
    example_ext\<lparr>IsCoinBase := (\<lambda>tx. map prevout (vin tx) = [COutPoint 0 4294967295] \<and>
                                   nLockTime tx \<noteq> 77),
                IsZerocoinSpend := (\<lambda>tx. nLockTime tx = 77),
                scriptIsZerocoinSpend := (\<lambda>s. take 1 s = [0xc3])\<rparr>"

definition example_zerocoin_spend :: CTransaction where
  "example_zerocoin_spend =
    \<lparr>tx_nVersion = 1,
     vin = [\<lparr>prevout = COutPoint 0 4294967295, scriptSig = [0xc3], nSequence = - 1\<rparr>],
     vout = [\<lparr>nValue = 1, scriptPubKey = [8]\<rparr>], nLockTime = 77\<rparr>"

definition example_zerocoin_connected :: "failure + connect_result" where
  "example_zerocoin_connected =
    ConnectBlock example_ext_zerocoin example_env example_params example_chain example_limits
      Map.empty (example_block [example_coinbase 100 [9], example_zerocoin_spend]) example_pindex
      (example_view (COutPoint 50 0)) False"

text \<open>
  A node that knows blocks 1, 2 and 3 and has the data of block 3; \<open>failed\<close> says whether
  block 3 is marked as failed.
\<close>

definition example_accept_env :: accept_env where
  "example_accept_env =
    \<lparr>GetNextWorkRequired = (\<lambda>pindexPrev block. 0), GetBlockProof = (\<lambda>pindex. 1),
     GetAdjustedTime = 3000, fCheckpointsEnabled = True, GetLastCheckpoint = None,
     MIN_BLOCKS_TO_KEEP = 288, ContextualCheckBlock = (\<lambda>block pindexPrev. None),
     store_block = (\<lambda>st block h. Inr (st\<lparr>blockFiles := (blockFiles st)((0, 0) \<mapsto> block)\<rparr>))\<rparr>"

definition example_entry :: "bool \<Rightarrow> CBlockIndex" where
  "example_entry failed =
    example_pindex\<lparr>nStatus := (nStatus example_pindex)
                               \<lparr>HAVE_DATA := True, FAILED_VALID := failed\<rparr>\<rparr>"

definition example_node :: "bool \<Rightarrow> node_state" where
  "example_node failed =
    \<lparr>mapBlockIndex = example_chain(3 \<mapsto> example_entry failed),
     pindexBestHeader = Some 3, setDirtyBlockIndex = {}, chainActiveTip = Some 2,
     blockFiles = [(0, 0) \<mapsto> example_block [example_coinbase 100 [9]]]\<rparr>"

text \<open>
  Stand-ins for policy and for the pool's own code: every transaction is standard and
  final, no InstantSend lock is requested, the fee rate is the fee per 1000 bytes, the
  relay fee one unit for any size, and a pool whose transactions have neither ancestors
  nor descendants in it. \<open>replacement\<close> is the value of \<^verbatim>\<open>fEnableReplacement\<close>.
\<close>

definition example_mempool_env :: "bool \<Rightarrow> mempool_env" where
  "example_mempool_env replacement =
    \<lparr>fRequireStandard = True, fEnableReplacement = replacement, fMainNet = True,
     IsStandardTx = (\<lambda>tx. None), CSV_tip_active = True, CheckFinalTx = (\<lambda>tx. True),
     STANDARD_LOCKTIME_VERIFY_FLAGS = 3, HasTxLockRequest = (\<lambda>h. False),
     TxLockRequest_IsValid = (\<lambda>tx. True), HaveCoinInCache = (\<lambda>p. False),
     CheckTransaction_nHeight = 2147483647, AreInputsStandard = (\<lambda>tx view. True),
     ApplyDeltas = (\<lambda>pool h fee. fee), tx_GetMinFee = (\<lambda>tx. 0),
     GetTxSize = example_tx_size, MAX_STANDARD_TX_SIGOPS_COST = 4000,
     pool_GetMinFee = (\<lambda>pool n. 0), minRelayTxFee_GetFee = (\<lambda>n. 1),
     CFeeRate = (\<lambda>fee n. if n > 0 then fee * 1000 div int n else 0),
     relaypriority = False, AllowFree_priority = (\<lambda>e. True), free_rate_limited = False,
     CalculateMemPoolAncestors = (\<lambda>pool e. Some []),
     CalculateDescendants = (\<lambda>pool h acc. if h \<in> set acc then acc else acc @ [h]),
     STANDARD_SCRIPT_VERIFY_FLAGS = 0, MANDATORY_SCRIPT_VERIFY_FLAGS = 0,
     RemoveStaged = (\<lambda>pool hs.
        pool\<lparr>mapTx := (\<lambda>h. if h \<in> set hs then None else mapTx pool h),
             mapNextTx := (\<lambda>p. case mapNextTx pool p of
                                  None \<Rightarrow> None
                                | Some tx \<Rightarrow> if unat (nLockTime tx) \<in> set hs then None
                                             else Some tx)\<rparr>),
     addUnchecked = (\<lambda>pool h e ancestors.
        pool\<lparr>mapTx := (mapTx pool)(h \<mapsto> e),
             mapNextTx := (\<lambda>p. if p \<in> set (map prevout (vin (entry_tx e)))
                                 then Some (entry_tx e) else mapNextTx pool p)\<rparr>),
     addAddressIndex = (\<lambda>pool e view. pool), addSpentIndex = (\<lambda>pool e view. pool),
     LimitMempoolSize = (\<lambda>pool. pool)\<rparr>"

text \<open>
  A transaction with hash \<open>h\<close> that pays \<open>v\<close> out of the outpoint \<open>p\<close>, with the
  sequence number \<open>s\<close>; the pool entry of such a transaction; and a pool that holds one.
\<close>

definition example_transfer :: "32 word \<Rightarrow> COutPoint \<Rightarrow> 32 word \<Rightarrow> CAmount \<Rightarrow> CTransaction" where
  "example_transfer h p s v =
    \<lparr>tx_nVersion = 1, vin = [\<lparr>prevout = p, scriptSig = [3], nSequence = s\<rparr>],
     vout = [\<lparr>nValue = v, scriptPubKey = [8]\<rparr>], nLockTime = h\<rparr>"

definition example_pool_entry :: "CTransaction \<Rightarrow> CAmount \<Rightarrow> CTxMemPoolEntry" where
  "example_pool_entry tx fee =
    \<lparr>entry_tx = tx, entry_nFee = fee, entry_feeDelta = 0, entry_nTxSize = example_tx_size tx,
     entry_dirty = False, entry_nCountWithDescendants = 1, entry_spendsCoinbase = False,
     entry_sigOpCount = 0\<rparr>"

definition example_empty_pool :: CTxMemPool where
  "example_empty_pool = \<lparr>mapTx = Map.empty, mapNextTx = Map.empty\<rparr>"

definition example_pool :: "32 word \<Rightarrow> CTxMemPool" where
  "example_pool s =
    \<lparr>mapTx = [200 \<mapsto> example_pool_entry (example_transfer 200 (COutPoint 50 0) s 8) 2],
     mapNextTx = [COutPoint 50 0 \<mapsto> example_transfer 200 (COutPoint 50 0) s 8]\<rparr>"

text \<open>The view of the tip after the coin at \<open>p\<close> has been spent.\<close>

definition example_spent_view :: "COutPoint \<Rightarrow> CCoinsViewCache" where
  "example_spent_view p =
    (case SpendCoin (example_view p) p of None \<Rightarrow> example_view p | Some (coin, view) \<Rightarrow> view)"




text \<open>
  The first of the two listed blocks: a chain that ends in a block 7 at height 91841,
  the index entry of its successor with the listed hash, a block on top of block 7 with
  that hash whose coinbase is transaction 100, and a view on top of block 7 that holds
  a coin at the first output of transaction 100.
\<close>

definition example_ext_listed :: ext where
  "example_ext_listed =
    example_ext\<lparr>BlockGetHash :=
      (\<lambda>h. if nNonce h = 3
            then 0x00000000000a4d0a398161ffc163c503763b1f4360639393e0e4c8e300e0caec
            else unat (nNonce h))\<rparr>"

definition example_chain_listed :: BlockMap where
  "example_chain_listed = [7 \<mapsto> example_index 7 None 91841 2000]"

definition example_pindex_listed :: "int \<Rightarrow> CBlockIndex" where
  "example_pindex_listed height =
    example_index 0x00000000000a4d0a398161ffc163c503763b1f4360639393e0e4c8e300e0caec
      (Some 7) height 3000"

definition example_block_listed :: CBlock where
  "example_block_listed = (example_block [example_coinbase 100 [9]])\<lparr>hashPrevBlock := 7\<rparr>"

definition example_view_listed :: CCoinsViewCache where
  "example_view_listed = (example_view (COutPoint 100 0))\<lparr>hashBlock := 7\<rparr>"

text \<open>
  A pool whose transaction 200 spends the outpoint (50, 0) with a signature script of
  100 bytes, for a fee of 2: it is larger than a plain transfer and its fee rate lower.
\<close>

definition example_wide_transfer :: CTransaction where
  "example_wide_transfer =
    \<lparr>tx_nVersion = 1,
     vin = [\<lparr>prevout = COutPoint 50 0, scriptSig = replicate 100 3, nSequence = 0\<rparr>],
     vout = [\<lparr>nValue = 8, scriptPubKey = [8]\<rparr>], nLockTime = 200\<rparr>"

definition example_pool_wide :: CTxMemPool where
  "example_pool_wide =
    \<lparr>mapTx = [200 \<mapsto> example_pool_entry example_wide_transfer 2],
     mapNextTx = [COutPoint 50 0 \<mapsto> example_wide_transfer]\<rparr>"

section \<open>Properties of the block reward\<close>

text \<open>
  C10. For every height from 1 to 143499, every fee and every block time,
  \<open>GetBlockValue\<close> returns 5000 coins plus the fees; the assignment guarded by the
  reward start time is overwritten (it assigns the value the variable already has), so
  the result does not depend on the block time, on the start time or on the network,
  at any height.
\<close>

theorem GetBlockValue_flat_range_ignores_time:
  "(0 <s h \<and> h \<le>s 143499 \<longrightarrow> GetBlockValue env h fees t = 5000 * COIN + fees) \<and>
   GetBlockValue env h fees t =
     GetBlockValue (env\<lparr>nStartRewardTime := s, MainNet := mn\<rparr>) h fees t'"
  by (auto simp add: GetBlockValue_def Let_def HF_CHAIN_REWARD_END_HEIGHT_def
        word_sle_eq word_sless_alt)

theorem GetBlockValue_flat_range_ignores_time_witness:
  "0 <s (1000 :: 32 word) \<and> (1000 :: 32 word) \<le>s 143499 \<and>
   GetBlockValue \<lparr>taper_value = (\<lambda>h f. f), taper_subsidy = (\<lambda>h. 0),
       nStartRewardTime = 1500000000, MainNet = True\<rparr> 1000 7 1400000000 = 500000000007"
  using GetBlockValue_flat_range_ignores_time
    [where h = 1000 and fees = 7 and t = 1400000000 and env = "\<lparr>taper_value = (\<lambda>h f. f),
       taper_subsidy = (\<lambda>h. 0), nStartRewardTime = 1500000000, MainNet = True\<rparr>"]
  by (simp add: word_sle_eq word_sless_alt COIN_def)

text \<open>
  C3. Just past the terminal height (\<open>HF_CHAIN_REWARD_END_HEIGHT + 1 = 717500000\<close>)
  \<open>GetBlockValue\<close> pays the fees alone, that is a subsidy of zero, whereas
  \<open>GetBlockSubsidy\<close> still reports the full 5000 coins: the subsidy function lacks the
  branch that stops the reward.
\<close>

theorem GetBlockSubsidy_past_terminal_height:
  "GetBlockValue env 717500000 fees t = fees \<and>
   GetBlockSubsidy env 717500000 = 5000 * COIN \<and>
   5000 * COIN = (500000000000 :: 64 word)"
  by (simp add: GetBlockValue_def GetBlockSubsidy_def Let_def HF_CHAIN_REWARD_END_HEIGHT_def
        COIN_def word_sle_eq word_sless_alt)

section \<open>Properties of the contextual header check\<close>

text \<open>
  C7 (as amended). For a header whose difficulty bits are the required ones, the check
  fails with \<open>time-too-old\<close> exactly when the header's time is not above the median time
  past of its parent, and with \<open>time-too-new\<close> exactly when the time is above the median
  time past and exceeds the adjusted time by more than two hours (the test against the
  median comes first in the code). A header within both bounds passes the timestamp
  checks: what remains is the rule on outdated versions.
\<close>

theorem ContextualCheckBlockHeader_time_bounds:
  assumes "nBits block = nextWork"
  shows "(ContextualCheckBlockHeader m params nextWork adjustedTime block pindexPrev
            = Inl (Invalid 0 REJECT_INVALID ''time-too-old'' False)
          \<longleftrightarrow> uint (nTime block) \<le> GetMedianTimePast m pindexPrev) \<and>
         (ContextualCheckBlockHeader m params nextWork adjustedTime block pindexPrev
            = Inl (Invalid 0 REJECT_INVALID ''time-too-new'' False)
          \<longleftrightarrow> GetMedianTimePast m pindexPrev < uint (nTime block) \<and>
              uint (nTime block) > adjustedTime + 2 * 60 * 60) \<and>
         (GetMedianTimePast m pindexPrev < uint (nTime block) \<and>
          uint (nTime block) \<le> adjustedTime + 2 * 60 * 60 \<longrightarrow>
            ContextualCheckBlockHeader m params nextWork adjustedTime block pindexPrev
              = outdated_version m params (nVersion block) pindexPrev [2, 3, 4])"
  using assms
  by (simp add: ContextualCheckBlockHeader_def bad_version_reason_def
        MAX_FUTURE_BLOCK_TIME_def)

lemma times_back_numeral:
  "times_back m (numeral k) (Some b) =
     GetBlockTime b # times_back m (pred_numeral k) (deref m (pprev b))"
  "times_back m (numeral k) None = []"
  by (simp_all add: numeral_eq_Suc)

lemma majority_loop_numeral:
  "majority_loop m (numeral k) minVersion None nRequired nFound = nFound"
  "majority_loop m (numeral k) minVersion (Some b) nRequired nFound =
    (if nFound < nRequired
     then majority_loop m (pred_numeral k) minVersion (deref m (pprev b)) nRequired
            (if idx_nVersion b \<ge> minVersion then nFound + 1 else nFound)
     else nFound)"
  by (simp_all add: numeral_eq_Suc)

lemma walk_back_numeral:
  "walk_back m (numeral k) None = None"
  "walk_back m (numeral k) (Some b) = walk_back m (pred_numeral k) (deref m (pprev b))"
  by (simp_all add: numeral_eq_Suc)

theorem ContextualCheckBlockHeader_time_bounds_witness:
  "GetMedianTimePast [1 \<mapsto> example_index 1 None 0 9000] (example_index 2 (Some 1) 1 10000) = 10000 \<and>
   nBits (example_header 2 10000 5) = 5 \<and>
   ContextualCheckBlockHeader [1 \<mapsto> example_index 1 None 0 9000] example_params 5 5000
      (example_header 2 10000 5) (example_index 2 (Some 1) 1 10000)
     = Inl (Invalid 0 REJECT_INVALID ''time-too-old'' False) \<and>
   ContextualCheckBlockHeader [1 \<mapsto> example_index 1 None 0 9000] example_params 5 1000
      (example_header 2 10001 5) (example_index 2 (Some 1) 1 10000)
     = Inl (Invalid 0 REJECT_INVALID ''time-too-new'' False) \<and>
   ContextualCheckBlockHeader [1 \<mapsto> example_index 1 None 0 9000] example_params 5 5000
      (example_header 2 10001 5) (example_index 2 (Some 1) 1 10000)
     = Inr ()"
  using ContextualCheckBlockHeader_time_bounds
    [where block = "example_header 2 10000 5" and nextWork = 5
       and m = "[1 \<mapsto> example_index 1 None 0 9000]"
       and pindexPrev = "example_index 2 (Some 1) 1 10000" and adjustedTime = 5000
       and params = example_params]
    ContextualCheckBlockHeader_time_bounds
    [where block = "example_header 2 10001 5" and nextWork = 5
       and m = "[1 \<mapsto> example_index 1 None 0 9000]"
       and pindexPrev = "example_index 2 (Some 1) 1 10000" and adjustedTime = 1000
       and params = example_params]
    ContextualCheckBlockHeader_time_bounds
    [where block = "example_header 2 10001 5" and nextWork = 5
       and m = "[1 \<mapsto> example_index 1 None 0 9000]"
       and pindexPrev = "example_index 2 (Some 1) 1 10000" and adjustedTime = 5000
       and params = example_params]
  by (simp add: example_header_def example_index_def example_params_def GetMedianTimePast_def
        GetBlockTime_def deref_def times_back_numeral majority_loop_numeral IsSuperMajority_def)

text \<open>
  The parent has the median time past 10000. A header with a time within both bounds
  but other difficulty bits than required is rejected, with \<open>bad-diffbits\<close>; and a
  header whose time, 9500, is more than two hours ahead of the adjusted time 1000 is
  answered with \<open>time-too-old\<close>, not \<open>time-too-new\<close>, because it is not above the
  median either.
\<close>

theorem ContextualCheckBlockHeader_time_bounds_counterexample:
  "GetMedianTimePast [1 \<mapsto> example_index 1 None 0 9000] (example_index 2 (Some 1) 1 10000) = 10000 \<and>
   ContextualCheckBlockHeader [1 \<mapsto> example_index 1 None 0 9000] example_params 5 5000
      (example_header 2 10001 6) (example_index 2 (Some 1) 1 10000)
     = Inl (Invalid 100 REJECT_INVALID ''bad-diffbits'' False) \<and>
   uint (nTime (example_header 2 9500 5)) > 1000 + 2 * 60 * 60 \<and>
   ContextualCheckBlockHeader [1 \<mapsto> example_index 1 None 0 9000] example_params 5 1000
      (example_header 2 9500 5) (example_index 2 (Some 1) 1 10000)
     = Inl (Invalid 0 REJECT_INVALID ''time-too-old'' False)"
  by (simp add: example_header_def example_index_def example_params_def GetMedianTimePast_def
        GetBlockTime_def deref_def times_back_numeral ContextualCheckBlockHeader_def)

section \<open>Properties of the relative lock-time\<close>

lemma times_back_nonneg: "\<forall>t \<in> set (times_back m k p). 0 \<le> t"
  by (induction m k p rule: times_back.induct) (auto simp: GetBlockTime_def)

lemma GetMedianTimePast_nonneg: "0 \<le> GetMedianTimePast m b"
proof -
  let ?ts = "sort (times_back m 11 (Some b))"
  have ne: "?ts \<noteq> []" by (simp add: numeral_eq_Suc)
  then have "length ?ts div 2 < length ?ts" by (cases ?ts) auto
  then have "?ts ! (length ?ts div 2) \<in> set ?ts" by (rule nth_mem)
  then have "?ts ! (length ?ts div 2) \<in> set (times_back m 11 (Some b))" by simp
  with times_back_nonneg show ?thesis
    unfolding GetMedianTimePast_def Let_def by blast
qed

lemma sequence_lock_loop_disabled:
  "\<forall>i \<in> set ins. nSequence i AND SEQUENCE_LOCKTIME_DISABLE_FLAG \<noteq> 0 \<Longrightarrow>
   length hs = length ins \<Longrightarrow>
   sequence_lock_loop m block (ins @ rest) (hs @ hrest) (a, b) =
     (case sequence_lock_loop m block rest hrest (a, b) of
        Inl e \<Rightarrow> Inl e
      | Inr (lp, hs') \<Rightarrow> Inr (lp, replicate (length ins) 0 @ hs'))"
proof (induction ins arbitrary: hs)
  case Nil
  then show ?case by (auto split: sum.splits)
next
  case (Cons i ins)
  then obtain h hs' where "hs = h # hs'" by (cases hs) auto
  with Cons show ?case by (auto split: sum.splits)
qed

lemma int32_id: "- 2147483648 \<le> z \<Longrightarrow> z \<le> 2147483647 \<Longrightarrow> int32 z = z"
  by (simp add: int32_def)

text \<open>
  C5 (as amended). A transaction of version 2 or higher, checked with
  \<open>LOCKTIME_VERIFY_SEQUENCE\<close>, whose only sequence-locked input is in height mode with
  lock value \<open>n\<close> (the low 16 bits of its sequence number) and spends a coin of height
  \<open>h\<close>, satisfies the sequence locks of a block exactly when the block's height is at
  least \<open>h + n\<close>, provided that \<open>h + n - 1\<close> is not above \<open>2 ^ 31 - 1\<close>, the greatest
  \<^verbatim>\<open>int\<close>. The other inputs carry the disable flag; their heights are reset to 0.
\<close>

theorem SequenceLocks_height_mode:
  assumes "tx_nVersion tx \<ge> 2"
    and "flags AND LOCKTIME_VERIFY_SEQUENCE \<noteq> 0"
    and "vin tx = pre @ [txin] @ post"
    and "prevHeights = hpre @ [h] @ hpost"
    and "length hpre = length pre" and "length hpost = length post"
    and "\<forall>i \<in> set (pre @ post). nSequence i AND SEQUENCE_LOCKTIME_DISABLE_FLAG \<noteq> 0"
    and "nSequence txin AND SEQUENCE_LOCKTIME_DISABLE_FLAG = 0"
    and "nSequence txin AND SEQUENCE_LOCKTIME_TYPE_FLAG = 0"
    and "deref m (pprev block) = Some p"
    and "0 \<le> h"
    and "h + uint (nSequence txin AND SEQUENCE_LOCKTIME_MASK) - 1 \<le> 2147483647"
  shows "SequenceLocks m tx flags prevHeights block =
           Inr (nHeight block \<ge> h + uint (nSequence txin AND SEQUENCE_LOCKTIME_MASK),
                replicate (length pre) 0 @ [h] @ replicate (length post) 0)"
proof -
  let ?n = "uint (nSequence txin AND SEQUENCE_LOCKTIME_MASK)"
  have post: "sequence_lock_loop m block post hpost (a, b)
                = Inr ((a, b), replicate (length post) 0)" for a b
    using sequence_lock_loop_disabled [of post hpost m block "[]" "[]" a b] assms by simp
  have mid: "sequence_lock_loop m block ([txin] @ post) ([h] @ hpost) (- 1, - 1) =
               Inr ((h + ?n - 1, - 1), h # replicate (length post) 0)"
  proof -
    have n0: "0 \<le> ?n" by simp
    with \<open>0 \<le> h\<close> have "- 2147483648 \<le> h + ?n - 1" by linarith
    with assms(12) have "int32 (h + ?n - 1) = h + ?n - 1" by (intro int32_id)
    moreover from n0 \<open>0 \<le> h\<close> have "max (- 1) (h + ?n - 1) = h + ?n - 1" by linarith
    ultimately show ?thesis using assms(8,9) by (simp add: post Let_def)
  qed
  have all: "sequence_lock_loop m block (pre @ [txin] @ post) (hpre @ [h] @ hpost) (- 1, - 1) =
               Inr ((h + ?n - 1, - 1),
                    replicate (length pre) 0 @ h # replicate (length post) 0)"
    using sequence_lock_loop_disabled
            [of pre hpre m block "[txin] @ post" "[h] @ hpost" "- 1" "- 1"] assms mid
    by simp
  have "0 \<le> GetMedianTimePast m p" by (rule GetMedianTimePast_nonneg)
  then show ?thesis
    using assms(1-6,10) all
    by (auto simp add: SequenceLocks_def CalculateSequenceLocks_def
          EvaluateSequenceLocks_def Let_def)
qed

theorem SequenceLocks_height_mode_witness:
  "SequenceLocks [1 \<mapsto> example_index 1 None 103 1000] (example_spend (COutPoint 7 0) 5) 1 [99]
      (example_index 2 (Some 1) 103 2000) = Inr (False, [99]) \<and>
   SequenceLocks [1 \<mapsto> example_index 1 None 103 1000] (example_spend (COutPoint 7 0) 5) 1 [99]
      (example_index 2 (Some 1) 104 2000) = Inr (True, [99])"
proof -
  let ?m = "[1 \<mapsto> example_index 1 None 103 1000]"
  let ?tx = "example_spend (COutPoint 7 0) 5"
  have n: "uint ((5 :: 32 word) AND SEQUENCE_LOCKTIME_MASK) = 5"
    by (simp add: SEQUENCE_LOCKTIME_MASK_def)
  have a: "SequenceLocks ?m ?tx 1 [99] (example_index 2 (Some 1) H 2000) =
             Inr (H \<ge> 99 + 5, [99])" for H
    using SequenceLocks_height_mode
      [where tx = ?tx and flags = 1 and pre = "[]" and post = "[]" and hpre = "[]"
         and hpost = "[]" and h = 99 and prevHeights = "[99]" and m = ?m
         and txin = "\<lparr>prevout = COutPoint 7 0, scriptSig = [], nSequence = 5\<rparr>"
         and block = "example_index 2 (Some 1) H 2000"
         and p = "example_index 1 None 103 1000"] n
    by (simp add: example_spend_def example_index_def deref_def LOCKTIME_VERIFY_SEQUENCE_def
          SEQUENCE_LOCKTIME_DISABLE_FLAG_def SEQUENCE_LOCKTIME_TYPE_FLAG_def)
  show ?thesis using a [of 103] a [of 104] by simp
qed

text \<open>
  A coin of the greatest height an \<^verbatim>\<open>int\<close> holds, spent with the lock value 5: the sum
  \<open>h + 5 - 1\<close> overflows to a negative number and the transaction counts as final in a
  block of height 104, far below \<open>h + 5\<close>.
\<close>

theorem SequenceLocks_height_mode_counterexample:
  "uint (nSequence (hd (vin (example_spend (COutPoint 7 0) 5))) AND SEQUENCE_LOCKTIME_MASK) = 5 \<and>
   \<not> nHeight (example_index 2 (Some 1) 104 2000) \<ge> 2147483647 + 5 \<and>
   SequenceLocks [1 \<mapsto> example_index 1 None 103 1000] (example_spend (COutPoint 7 0) 5) 1
      [2147483647] (example_index 2 (Some 1) 104 2000) = Inr (True, [2147483647])"
  by (simp add: example_spend_def example_index_def deref_def LOCKTIME_VERIFY_SEQUENCE_def
        SEQUENCE_LOCKTIME_DISABLE_FLAG_def SEQUENCE_LOCKTIME_TYPE_FLAG_def
        SEQUENCE_LOCKTIME_MASK_def SequenceLocks_def CalculateSequenceLocks_def
        EvaluateSequenceLocks_def GetMedianTimePast_def GetBlockTime_def times_back_numeral
        int32_def Let_def)

section \<open>Connecting and disconnecting a block\<close>

lemma new_coins_Nil: "new_coins x txid cb h [] i = Map.empty"
  by (auto simp: new_coins_def)

lemma new_coins_Cons:
  "new_coins x txid cb h (txout # outs) i =
     (if IsUnspendable x (scriptPubKey txout) then new_coins x txid cb h outs (Suc i)
      else (new_coins x txid cb h outs (Suc i))
             (COutPoint txid i \<mapsto> \<lparr>out = txout, fCoinBase = cb, coin_nHeight = h\<rparr>))"
proof (rule ext)
  fix p
  obtain t n where p: "p = COutPoint t n" by (cases p)
  show "new_coins x txid cb h (txout # outs) i p =
     (if IsUnspendable x (scriptPubKey txout) then new_coins x txid cb h outs (Suc i)
      else (new_coins x txid cb h outs (Suc i))
             (COutPoint txid i \<mapsto> \<lparr>out = txout, fCoinBase = cb, coin_nHeight = h\<rparr>)) p"
  proof (cases "n = i")
    case True
    then show ?thesis by (auto simp: new_coins_def p)
  next
    case False
    then show ?thesis
      by (auto simp: new_coins_def p nth_Cons' Suc_diff_le)
  qed
qed

lemma new_coins_below: "n < i \<Longrightarrow> new_coins x txid cb h outs i (COutPoint t n) = None"
  by (simp add: new_coins_def)

lemma AddCoins_loop_char:
  "AddCoins_loop x v txid cb h outs i = Inr v1 \<Longrightarrow>
     v1 = v\<lparr>cacheCoins := cacheCoins v ++ new_coins x txid cb h outs i\<rparr>"
proof (induction outs arbitrary: v i)
  case Nil
  then show ?case by (simp add: new_coins_Nil)
next
  case (Cons txout outs)
  show ?case
  proof (cases "IsUnspendable x (scriptPubKey txout)")
    case True
    with Cons.prems have "AddCoins_loop x v txid cb h outs (Suc i) = Inr v1"
      by (simp add: AddCoin_def)
    from Cons.IH[OF this] True show ?thesis by (simp add: new_coins_Cons)
  next
    case False
    let ?c = "\<lparr>out = txout, fCoinBase = cb, coin_nHeight = h\<rparr>"
    let ?v' = "v\<lparr>cacheCoins := (cacheCoins v)(COutPoint txid i \<mapsto> ?c)\<rparr>"
    from Cons.prems False have "AddCoins_loop x ?v' txid cb h outs (Suc i) = Inr v1"
      by (auto simp add: AddCoin_def split: if_splits)
    from Cons.IH[OF this] have "v1 = ?v'\<lparr>cacheCoins := cacheCoins ?v' ++ new_coins x txid cb h outs (Suc i)\<rparr>" .
    moreover have "(cacheCoins v)(COutPoint txid i \<mapsto> ?c) ++ new_coins x txid cb h outs (Suc i)
       = cacheCoins v ++ new_coins x txid cb h (txout # outs) i"
      using False by (auto simp: new_coins_Cons map_add_def new_coins_below intro!: ext split: option.splits)
    ultimately show ?thesis by simp
  qed
qed

lemma AddCoins_loop_no_overwrite:
  "AddCoins_loop x v txid False h outs i = Inr v1 \<Longrightarrow>
     dom (new_coins x txid False h outs i) \<inter> dom (cacheCoins v) = {}"
proof (induction outs arbitrary: v i)
  case Nil
  then show ?case by (simp add: new_coins_Nil)
next
  case (Cons txout outs)
  show ?case
  proof (cases "IsUnspendable x (scriptPubKey txout)")
    case True
    with Cons.prems have "AddCoins_loop x v txid False h outs (Suc i) = Inr v1"
      by (simp add: AddCoin_def)
    from Cons.IH[OF this] True show ?thesis by (simp add: new_coins_Cons)
  next
    case False
    let ?c = "\<lparr>out = txout, fCoinBase = False, coin_nHeight = h\<rparr>"
    let ?v' = "v\<lparr>cacheCoins := (cacheCoins v)(COutPoint txid i \<mapsto> ?c)\<rparr>"
    from Cons.prems False have a: "AddCoins_loop x ?v' txid False h outs (Suc i) = Inr v1"
      and b: "cacheCoins v (COutPoint txid i) = None"
      by (auto simp add: AddCoin_def HaveCoin_def split: if_splits)
    have d1: "dom (new_coins x txid False h (txout # outs) i)
               = insert (COutPoint txid i) (dom (new_coins x txid False h outs (Suc i)))"
      using False by (simp add: new_coins_Cons)
    have d2: "dom (cacheCoins ?v') = insert (COutPoint txid i) (dom (cacheCoins v))"
      by simp
    from b have "COutPoint txid i \<notin> dom (cacheCoins v)" by (simp add: domIff)
    moreover from Cons.IH[OF a] have "dom (new_coins x txid False h outs (Suc i))
        \<inter> insert (COutPoint txid i) (dom (cacheCoins v)) = {}"
      unfolding d2 .
    ultimately have "insert (COutPoint txid i) (dom (new_coins x txid False h outs (Suc i)))
        \<inter> dom (cacheCoins v) = {}" by blast
    then show ?thesis unfolding d1 .
  qed
qed


lemma spend_outputs_char:
  "(\<And>p c. new_coins x txid cb h outs i p = Some c \<Longrightarrow> cacheCoins v1 p = Some c) \<Longrightarrow>
   spend_outputs x txid cb h outs i v1 fClean =
     (fClean, v1\<lparr>cacheCoins := cacheCoins v1 |` (- dom (new_coins x txid cb h outs i))\<rparr>)"
proof (induction outs arbitrary: v1 i fClean)
  case Nil
  then show ?case by (simp add: new_coins_Nil)
next
  case (Cons txout outs)
  show ?case
  proof (cases "IsUnspendable x (scriptPubKey txout)")
    case True
    then have eq: "new_coins x txid cb h (txout # outs) i = new_coins x txid cb h outs (Suc i)"
      by (simp add: new_coins_Cons)
    have "spend_outputs x txid cb h outs (Suc i) v1 fClean =
      (fClean, v1\<lparr>cacheCoins := cacheCoins v1 |` (- dom (new_coins x txid cb h outs (Suc i)))\<rparr>)"
      by (rule Cons.IH) (use Cons.prems eq in auto)
    with True eq show ?thesis by simp
  next
    case False
    let ?c = "\<lparr>out = txout, fCoinBase = cb, coin_nHeight = h\<rparr>"
    let ?p = "COutPoint txid i"
    let ?new' = "new_coins x txid cb h outs (Suc i)"
    have eq: "new_coins x txid cb h (txout # outs) i = ?new'(?p \<mapsto> ?c)"
      using False by (simp add: new_coins_Cons)
    have here: "cacheCoins v1 ?p = Some ?c"
      by (rule Cons.prems) (simp add: eq)
    let ?v' = "v1\<lparr>cacheCoins := (cacheCoins v1)(?p := None)\<rparr>"
    have notp: "?new' ?p = None" by (simp add: new_coins_below)
    have ih: "spend_outputs x txid cb h outs (Suc i) ?v' fClean =
      (fClean, ?v'\<lparr>cacheCoins := cacheCoins ?v' |` (- dom ?new')\<rparr>)"
    proof (rule Cons.IH)
      fix p c assume a: "?new' p = Some c"
      with notp have "p \<noteq> ?p" by auto
      moreover from a this have "cacheCoins v1 p = Some c"
        by (intro Cons.prems) (simp add: eq)
      ultimately show "cacheCoins ?v' p = Some c" by simp
    qed
    have "((cacheCoins v1)(?p := None)) |` (- dom ?new') = cacheCoins v1 |` (- dom (?new'(?p \<mapsto> ?c)))"
      by (rule ext) (auto simp: restrict_map_def)
    with ih have "spend_outputs x txid cb h outs (Suc i) ?v' fClean =
      (fClean, v1\<lparr>cacheCoins := cacheCoins v1 |` (- dom (new_coins x txid cb h (txout # outs) i))\<rparr>)"
      by (simp add: eq)
    with False here show ?thesis by (simp add: SpendCoin_def)
  qed
qed

lemma spend_inputs_char:
  "spend_inputs v ins = Inr (v', undo) \<Longrightarrow>
     length undo = length ins \<and> distinct (map prevout ins) \<and>
     set (map prevout ins) \<inter> dom (cacheCoins v') = {} \<and>
     cacheCoins v = cacheCoins v' ++ map_of (zip (map prevout ins) undo) \<and>
     hashBlock v' = hashBlock v \<and> set undo \<subseteq> ran (cacheCoins v)"
proof (induction ins arbitrary: v v' undo)
  case Nil
  then show ?case by auto
next
  case (Cons txin ins)
  let ?p = "prevout txin"
  from Cons.prems obtain c v0 undo' where
    sp: "cacheCoins v ?p = Some c" "v0 = v\<lparr>cacheCoins := (cacheCoins v)(?p := None)\<rparr>"
    and rest: "spend_inputs v0 ins = Inr (v', undo')" and u: "undo = c # undo'"
    by (auto simp: SpendCoin_def split: option.splits sum.splits)
  from Cons.IH[OF rest] have ih:
     "length undo' = length ins" "distinct (map prevout ins)"
     "set (map prevout ins) \<inter> dom (cacheCoins v') = {}"
     "cacheCoins v0 = cacheCoins v' ++ map_of (zip (map prevout ins) undo')"
     "hashBlock v' = hashBlock v0" "set undo' \<subseteq> ran (cacheCoins v0)"
    by auto
  let ?M = "map_of (zip (map prevout ins) undo')"
  have domM: "dom ?M = set (map prevout ins)" using ih(1) by simp
  have v0p: "cacheCoins v0 ?p = None" using sp by simp
  then have "?p \<notin> dom (cacheCoins v' ++ ?M)" using ih(4) by (simp add: domIff)
  then have pM: "?p \<notin> dom ?M" and pv': "?p \<notin> dom (cacheCoins v')" by auto
  have "cacheCoins v = (cacheCoins v0)(?p \<mapsto> c)"
    using sp by (auto intro!: ext)
  also have "\<dots> = cacheCoins v' ++ ?M(?p \<mapsto> c)" using ih(4) by simp
  finally have cv: "cacheCoins v = cacheCoins v' ++ map_of (zip (map prevout (txin # ins)) undo)"
    using u by simp
  have "ran (cacheCoins v0) \<subseteq> ran (cacheCoins v)"
    using sp by (auto simp: ran_def split: if_splits)
  with ih(6) sp have r: "set undo \<subseteq> ran (cacheCoins v)" using u by (auto simp: ran_def)
  have d: "distinct (map prevout (txin # ins))" using ih(2) pM domM by simp
  have e: "set (map prevout (txin # ins)) \<inter> dom (cacheCoins v') = {}"
    using ih(3) pv' by simp
  have l: "length undo = length (txin # ins)" using ih(1) u by simp
  have hb: "hashBlock v' = hashBlock v" using ih(5) sp(2) by simp
  from l d e cv hb r show ?case by blast
qed

lemma map_of_rev_distinct:
  "distinct (map fst l) \<Longrightarrow> map_of (rev l) = map_of l"
proof (rule ext)
  fix k assume d: "distinct (map fst l)"
  then have d': "distinct (map fst (rev l))" by (simp add: rev_map[symmetric])
  show "map_of (rev l) k = map_of l k"
  proof (cases "map_of l k")
    case None
    then have "k \<notin> fst ` set (rev l)" by (simp add: map_of_eq_None_iff)
    then have "map_of (rev l) k = None" by (rule map_of_eq_None_iff [THEN iffD2])
    with None show ?thesis by simp
  next
    case (Some y)
    then have "(k, y) \<in> set (rev l)" using d by (simp add: map_of_eq_Some_iff)
    then show ?thesis using Some d' by (simp add: map_of_eq_Some_iff)
  qed
qed

lemma restore_inputs_char:
  "distinct (map (\<lambda>a. prevout (fst a)) ps) \<Longrightarrow>
   (\<And>i u. (i, u) \<in> set ps \<Longrightarrow> prevout i \<notin> dom (cacheCoins w) \<and> coin_ok x u) \<Longrightarrow>
   restore_inputs x ps w fClean =
     Inr (if fClean then DISCONNECT_OK else DISCONNECT_UNCLEAN,
          w\<lparr>cacheCoins := cacheCoins w ++ map_of (map (\<lambda>(i, u). (prevout i, u)) ps)\<rparr>)"
proof (induction ps arbitrary: w fClean)
  case Nil
  then show ?case by simp
next
  case (Cons a ps)
  obtain i u where a: "a = (i, u)" by (cases a)
  let ?p = "prevout i"
  let ?w' = "w\<lparr>cacheCoins := (cacheCoins w)(?p \<mapsto> u)\<rparr>"
  from Cons.prems(2)[of i u] a have pw: "cacheCoins w ?p = None" and ok: "coin_ok x u"
    by (auto simp: domIff)
  then have step: "ApplyTxInUndo x u w ?p = Inr (DISCONNECT_OK, ?w')"
    by (simp add: ApplyTxInUndo_def HaveCoin_def AddCoin_def coin_ok_def Let_def)
  let ?M = "map_of (map (\<lambda>(i, u). (prevout i, u)) ps)"
  have pM: "?p \<notin> dom ?M"
  proof
    assume "?p \<in> dom ?M"
    then obtain y where "?M ?p = Some y" by auto
    then have "(?p, y) \<in> set (map (\<lambda>(i, u). (prevout i, u)) ps)" by (rule map_of_SomeD)
    then have "?p \<in> set (map (\<lambda>a. prevout (fst a)) ps)" by force
    with Cons.prems(1) a show False by simp
  qed
  have ih: "restore_inputs x ps ?w' fClean =
     Inr (if fClean then DISCONNECT_OK else DISCONNECT_UNCLEAN,
          ?w'\<lparr>cacheCoins := cacheCoins ?w' ++ ?M\<rparr>)"
  proof (rule Cons.IH)
    show "distinct (map (\<lambda>a. prevout (fst a)) ps)" using Cons.prems(1) by simp
  next
    fix j v assume jv: "(j, v) \<in> set ps"
    with Cons.prems(2)[of j v] have f1: "prevout j \<notin> dom (cacheCoins w)" and f2: "coin_ok x v"
      by auto
    from jv have inimg: "prevout j \<in> (\<lambda>a. prevout (fst a)) ` set ps" by force
    from Cons.prems(1) a have notin: "?p \<notin> (\<lambda>a. prevout (fst a)) ` set ps" by simp
    have neq: "prevout j \<noteq> ?p"
    proof
      assume "prevout j = ?p"
      with inimg have "?p \<in> (\<lambda>a. prevout (fst a)) ` set ps" by simp
      with notin show False by contradiction
    qed
    from f1 f2 neq show "prevout j \<notin> dom (cacheCoins ?w') \<and> coin_ok x v" by simp
  qed
  have "(cacheCoins w)(?p \<mapsto> u) ++ ?M = cacheCoins w ++ ?M(?p \<mapsto> u)"
    using pM by (simp add: map_add_upd_left)
  then have eq: "cacheCoins ?w' ++ ?M = cacheCoins w ++ map_of (map (\<lambda>(i, u). (prevout i, u)) (a # ps))"
    using a by simp
  have "restore_inputs x (a # ps) w fClean = restore_inputs x ps ?w' fClean"
    using step a by simp
  also have "\<dots> = Inr (if fClean then DISCONNECT_OK else DISCONNECT_UNCLEAN,
          ?w'\<lparr>cacheCoins := cacheCoins ?w' ++ ?M\<rparr>)" by (rule ih)
  also have "?w'\<lparr>cacheCoins := cacheCoins ?w' ++ ?M\<rparr> =
     w\<lparr>cacheCoins := cacheCoins w ++ map_of (map (\<lambda>(i, u). (prevout i, u)) (a # ps))\<rparr>"
    unfolding eq by simp
  finally show ?case .
qed


lemma new_coins_SomeD:
  "new_coins x txid cb h outs i p = Some c \<Longrightarrow>
     (\<exists>k < length outs. p = COutPoint txid (i + k)) \<and> coin_nHeight c = h \<and>
     \<not> IsUnspendable x (scriptPubKey (out c))"
proof -
  assume a: "new_coins x txid cb h outs i p = Some c"
  obtain t n where p: "p = COutPoint t n" by (cases p)
  from a p have c: "t = txid" "i \<le> n" "n < i + length outs"
      "\<not> IsUnspendable x (scriptPubKey (outs ! (n - i)))"
      "c = \<lparr>out = outs ! (n - i), fCoinBase = cb, coin_nHeight = h\<rparr>"
    by (auto simp: new_coins_def split: if_splits)
  then have "n - i < length outs" "p = COutPoint txid (i + (n - i))" using p by auto
  with c show ?thesis by auto
qed

lemma no_overwrite_disjoint:
  "\<not> overwrites_coin x v tx \<Longrightarrow>
     dom (new_coins x (GetHash x tx) cb h (vout tx) 0) \<inter> dom (cacheCoins v) = {}"
proof -
  assume a: "\<not> overwrites_coin x v tx"
  { fix p c assume "new_coins x (GetHash x tx) cb h (vout tx) 0 p = Some c"
    then obtain k where "k < length (vout tx)" "p = COutPoint (GetHash x tx) k"
      using new_coins_SomeD by fastforce
    with a have "cacheCoins v p = None"
      by (auto simp: overwrites_coin_def list_ex_iff HaveCoin_def) }
  then show ?thesis by (auto simp: domIff) 
qed

lemma add_then_spend_outputs:
  assumes add: "AddCoins x v tx h = Inr v1"
    and dis: "dom (new_coins x (GetHash x tx) (IsCoinBase x tx) h (vout tx) 0) \<inter> dom (cacheCoins v) = {}"
    and w1: "cacheCoins w1 = cacheCoins v1"
  shows "spend_outputs x (GetHash x tx) (IsCoinBase x tx) h (vout tx) 0 w1 fClean
           = (fClean, w1\<lparr>cacheCoins := cacheCoins v\<rparr>)"
proof -
  let ?new = "new_coins x (GetHash x tx) (IsCoinBase x tx) h (vout tx) 0"
  from add have v1: "v1 = v\<lparr>cacheCoins := cacheCoins v ++ ?new\<rparr>"
    unfolding AddCoins_def by (rule AddCoins_loop_char)
  with w1 have cw1: "cacheCoins w1 = cacheCoins v ++ ?new" by simp
  have "spend_outputs x (GetHash x tx) (IsCoinBase x tx) h (vout tx) 0 w1 fClean =
     (fClean, w1\<lparr>cacheCoins := cacheCoins w1 |` (- dom ?new)\<rparr>)"
    by (rule spend_outputs_char) (simp add: cw1 map_add_def)
  moreover have "(cacheCoins v ++ ?new) |` (- dom ?new) = cacheCoins v"
  proof (rule ext)
    fix p show "((cacheCoins v ++ ?new) |` (- dom ?new)) p = cacheCoins v p"
    proof (cases "p \<in> dom ?new")
      case True
      with dis have "p \<notin> dom (cacheCoins v)" by blast
      with True show ?thesis by (simp add: restrict_map_def domIff)
    next
      case False
      then show ?thesis by (simp add: restrict_map_def map_add_def domIff)
    qed
  qed
  ultimately show ?thesis by (simp add: cw1)
qed

lemma view_ok_add:
  assumes add: "AddCoins x v tx h = Inr v1" and ok: "view_ok x v" and h: "h \<noteq> 0"
  shows "view_ok x v1"
proof -
  let ?new = "new_coins x (GetHash x tx) (IsCoinBase x tx) h (vout tx) 0"
  from add have v1: "v1 = v\<lparr>cacheCoins := cacheCoins v ++ ?new\<rparr>"
    unfolding AddCoins_def by (rule AddCoins_loop_char)
  { fix c assume "c \<in> ran (cacheCoins v1)"
    then have "\<exists>p. cacheCoins v1 p = Some c" by (simp add: ran_def)
    then obtain p where "cacheCoins v1 p = Some c" by blast
    then have "(cacheCoins v ++ ?new) p = Some c" by (simp add: v1)
    then have "?new p = Some c \<or> cacheCoins v p = Some c"
      by (simp only: map_add_Some_iff) blast
    then have "coin_ok x c"
    proof
      assume "?new p = Some c"
      from new_coins_SomeD[OF this] h show ?thesis by (simp add: coin_ok_def)
    next
      assume "cacheCoins v p = Some c"
      then have "c \<in> ran (cacheCoins v)" by (auto simp: ran_def)
      with ok show ?thesis by (simp add: view_ok_def)
    qed }
  then show ?thesis by (simp add: view_ok_def)
qed

lemma tx_roundtrip:
  assumes up: "UpdateCoins x tx v h = Inr (v1, txundo)"
    and ok: "view_ok x v" and h: "h \<noteq> 0"
    and nz: "\<not> IsZerocoinSpend x tx"
    and cb: "IsCoinBase x tx \<longleftrightarrow> i = 0"
    and now: "IsCoinBase x tx \<Longrightarrow> \<not> overwrites_coin x v tx"
    and txi: "txs ! i = tx" and undo: "0 < i \<Longrightarrow> vtxundo ! (i - 1) = txundo"
    and w1: "cacheCoins w1 = cacheCoins v1"
  shows "disconnect_tx x txs vtxundo h i w1 fClean =
           Inr (if fClean then DISCONNECT_OK else DISCONNECT_UNCLEAN,
                w1\<lparr>cacheCoins := cacheCoins v\<rparr>) \<and> view_ok x v1"
proof (cases "IsCoinBase x tx")
  case True
  with cb have i0: "i = 0" by simp
  from up True have add: "AddCoins x v tx h = Inr v1"
    by (auto simp: UpdateCoins_def split: sum.splits)
  have "spend_outputs x (GetHash x tx) (IsCoinBase x tx) h (vout tx) 0 w1 fClean
          = (fClean, w1\<lparr>cacheCoins := cacheCoins v\<rparr>)"
    using add no_overwrite_disjoint[OF now[OF True]] w1 by (rule add_then_spend_outputs)
  with i0 txi view_ok_add[OF add ok h] show ?thesis
    by (simp add: disconnect_tx_def Let_def)
next
  case False
  with cb have ipos: "0 < i" by simp
  from up False nz obtain v' where
    sp: "spend_inputs v (vin tx) = Inr (v', txundo)" and add: "AddCoins x v' tx h = Inr v1"
    by (auto simp: UpdateCoins_def split: sum.splits)
  note ch = spend_inputs_char[OF sp]
  from add False have "dom (new_coins x (GetHash x tx) (IsCoinBase x tx) h (vout tx) 0)
      \<inter> dom (cacheCoins v') = {}"
    unfolding AddCoins_def using AddCoins_loop_no_overwrite by simp
  with add have so: "spend_outputs x (GetHash x tx) (IsCoinBase x tx) h (vout tx) 0 w1 fClean
      = (fClean, w1\<lparr>cacheCoins := cacheCoins v'\<rparr>)"
    using w1 by (rule add_then_spend_outputs)
  let ?w' = "w1\<lparr>cacheCoins := cacheCoins v'\<rparr>"
  let ?ps = "rev (zip (vin tx) txundo)"
  have len: "length txundo = length (vin tx)" using ch by simp
  have "map (\<lambda>a. prevout (fst a)) (zip (vin tx) txundo)
          = map prevout (map fst (zip (vin tx) txundo))"
    by (simp add: comp_def)
  also have "\<dots> = map prevout (vin tx)" using len by simp
  finally have mapfst:
    "map (\<lambda>a. prevout (fst a)) (zip (vin tx) txundo) = map prevout (vin tx)" .
  have ri: "restore_inputs x ?ps ?w' fClean =
     Inr (if fClean then DISCONNECT_OK else DISCONNECT_UNCLEAN,
          ?w'\<lparr>cacheCoins := cacheCoins ?w' ++ map_of (map (\<lambda>(i, u). (prevout i, u)) ?ps)\<rparr>)"
  proof (rule restore_inputs_char)
    show "distinct (map (\<lambda>a. prevout (fst a)) ?ps)"
      using ch mapfst by (simp add: rev_map[symmetric])
  next
    fix j u assume "(j, u) \<in> set ?ps"
    then have ju: "(j, u) \<in> set (zip (vin tx) txundo)" by simp
    then have "j \<in> set (vin tx)" "u \<in> set txundo" by (auto dest: set_zip_leftD set_zip_rightD)
    with ch ok show "prevout j \<notin> dom (cacheCoins ?w') \<and> coin_ok x u"
      by (auto simp: view_ok_def)
  qed
  have mz: "map (\<lambda>(i, u). (prevout i, u)) (zip (vin tx) txundo) = zip (map prevout (vin tx)) txundo"
    by (simp add: zip_map1)
  have "map_of (map (\<lambda>(i, u). (prevout i, u)) ?ps) = map_of (rev (zip (map prevout (vin tx)) txundo))"
    by (simp add: rev_map[symmetric] mz)
  also have "\<dots> = map_of (zip (map prevout (vin tx)) txundo)"
    by (rule map_of_rev_distinct) (use ch len in simp)
  finally have "cacheCoins v' ++ map_of (map (\<lambda>(i, u). (prevout i, u)) ?ps) = cacheCoins v"
    using ch by simp
  then have restored:
    "?w'\<lparr>cacheCoins := cacheCoins ?w' ++ map_of (map (\<lambda>(i, u). (prevout i, u)) ?ps)\<rparr>
       = w1\<lparr>cacheCoins := cacheCoins v\<rparr>"
    by simp
  have okv': "view_ok x v'"
  proof -
    { fix c assume "c \<in> ran (cacheCoins v')"
      then obtain p where p: "cacheCoins v' p = Some c" by (auto simp: ran_def)
      with ch have "p \<notin> set (map prevout (vin tx))" by blast
      then have none: "map_of (zip (map prevout (vin tx)) txundo) p = None"
        using len by (simp add: map_of_zip_is_None)
      have "(cacheCoins v' ++ map_of (zip (map prevout (vin tx)) txundo)) p = Some c"
        unfolding map_add_Some_iff using p none by blast
      moreover have "cacheCoins v = cacheCoins v' ++ map_of (zip (map prevout (vin tx)) txundo)"
        using ch by blast
      ultimately have "cacheCoins v p = Some c" by simp
      then have "c \<in> ran (cacheCoins v)" by (auto simp: ran_def)
      with ok have "coin_ok x c" by (simp add: view_ok_def) }
    then show ?thesis by (simp add: view_ok_def)
  qed
  from so ri restored ipos txi undo len view_ok_add[OF add okv' h] show ?thesis
    by (simp add: disconnect_tx_def Let_def)
qed

lemma connect_tx_SomeD:
  assumes "connect_tx x env m lim pindex flags lt i tx st = Inr st'"
  shows "\<exists>txundo. UpdateCoins x tx (cs_view st) (nHeight pindex) = Inr (cs_view st', txundo) \<and>
           cs_undo st' = (if i > 0 then cs_undo st @ [txundo] else cs_undo st)"
  using assms
  by (auto simp: connect_tx_def Let_def split: if_splits sum.splits prod.splits)

lemma connect_loop_undo:
  "connect_loop x env m lim pindex flags lt i txs st = Inr stf \<Longrightarrow>
     (\<exists>more. cs_undo stf = cs_undo st @ more \<and>
             length more = (if i = 0 then length txs - 1 else length txs))"
proof (induction txs arbitrary: i st)
  case Nil
  then show ?case by simp
next
  case (Cons tx txs)
  from Cons.prems obtain st' where
    one: "connect_tx x env m lim pindex flags lt i tx st = Inr st'"
    and rest: "connect_loop x env m lim pindex flags lt (Suc i) txs st' = Inr stf"
    by (auto split: sum.splits)
  from connect_tx_SomeD[OF one] obtain txundo where
    u: "cs_undo st' = (if i > 0 then cs_undo st @ [txundo] else cs_undo st)" by blast
  from Cons.IH[OF rest] obtain more where
    m: "cs_undo stf = cs_undo st' @ more" "length more = length txs" by auto
  show ?case
  proof (cases "i = 0")
    case True
    with u m show ?thesis by simp
  next
    case False
    with u m have "cs_undo stf = cs_undo st @ (txundo # more)" by simp
    with m False show ?thesis by simp
  qed
qed

lemma connect_loop_roundtrip:
  assumes "connect_loop x env m lim pindex flags lt i txs st = Inr stf"
    and "all = pre @ txs" and "length pre = i"
    and "view_ok x (cs_view st)" and "nHeight pindex \<noteq> 0"
    and "\<forall>tx \<in> set txs. \<not> IsZerocoinSpend x tx"
    and "\<forall>k < length txs. IsCoinBase x (txs ! k) \<longleftrightarrow> i + k = 0"
    and "i = 0 \<Longrightarrow> txs \<noteq> [] \<Longrightarrow> \<not> overwrites_coin x (cs_view st) (hd txs)"
    and "length (cs_undo st) = i - 1"
    and "cacheCoins w = cacheCoins (cs_view stf)"
  shows "disconnect_from x all (cs_undo stf) (nHeight pindex) (length all) w True =
         disconnect_from x all (cs_undo stf) (nHeight pindex) i
           (w\<lparr>cacheCoins := cacheCoins (cs_view st)\<rparr>) True"
  using assms
proof (induction txs arbitrary: i st pre)
  case Nil
  then have "st = stf" by simp
  moreover have "w\<lparr>cacheCoins := cacheCoins w\<rparr> = w" by simp
  then have "w\<lparr>cacheCoins := cacheCoins (cs_view stf)\<rparr> = w"
    using Nil.prems(10) by simp
  ultimately show ?case using Nil.prems(2,3) by simp
next
  case (Cons tx txs)
  from Cons.prems(1) obtain st' where
    one: "connect_tx x env m lim pindex flags lt i tx st = Inr st'"
    and rest: "connect_loop x env m lim pindex flags lt (Suc i) txs st' = Inr stf"
    by (auto split: sum.splits)
  from connect_tx_SomeD[OF one] obtain txundo where
    up: "UpdateCoins x tx (cs_view st) (nHeight pindex) = Inr (cs_view st', txundo)"
    and u: "cs_undo st' = (if i > 0 then cs_undo st @ [txundo] else cs_undo st)" by blast
  from connect_loop_undo[OF rest] obtain more where
    more: "cs_undo stf = cs_undo st' @ more" by blast
  have alli: "all ! i = tx" using Cons.prems(2,3) by (auto simp: nth_append)
  have undo_i: "0 < i \<Longrightarrow> cs_undo stf ! (i - 1) = txundo"
    using u more Cons.prems(9) by (simp add: nth_append)
  have cb: "IsCoinBase x tx \<longleftrightarrow> i = 0" using Cons.prems(7) by auto
  have now: "IsCoinBase x tx \<Longrightarrow> \<not> overwrites_coin x (cs_view st) tx"
    using cb Cons.prems(8) by simp
  have nz: "\<not> IsZerocoinSpend x tx" using Cons.prems(6) by simp
  let ?w' = "w\<lparr>cacheCoins := cacheCoins (cs_view st')\<rparr>"
  have w': "cacheCoins ?w' = cacheCoins (cs_view st')" by simp
  from tx_roundtrip[OF up Cons.prems(4) Cons.prems(5) nz cb now alli undo_i w', of True]
  have dt: "disconnect_tx x all (cs_undo stf) (nHeight pindex) i ?w' True =
              Inr (DISCONNECT_OK, w\<lparr>cacheCoins := cacheCoins (cs_view st)\<rparr>)"
    and ok': "view_ok x (cs_view st')"
    by simp_all
  have "disconnect_from x all (cs_undo stf) (nHeight pindex) (length all) w True =
        disconnect_from x all (cs_undo stf) (nHeight pindex) (Suc i) ?w' True"
  proof (rule Cons.IH[OF rest, of "pre @ [tx]"])
    show "all = (pre @ [tx]) @ txs" using Cons.prems(2) by simp
    show "length (pre @ [tx]) = Suc i" using Cons.prems(3) by simp
    show "view_ok x (cs_view st')" by (rule ok')
    show "nHeight pindex \<noteq> 0" by (rule Cons.prems(5))
    show "\<forall>tx\<in>set txs. \<not> IsZerocoinSpend x tx" using Cons.prems(6) by simp
    show "\<forall>k<length txs. IsCoinBase x (txs ! k) = (Suc i + k = 0)"
    proof (intro allI impI)
      fix k assume "k < length txs"
      then have "Suc k < length (tx # txs)" by simp
      with Cons.prems(7) have "IsCoinBase x ((tx # txs) ! Suc k) = (i + Suc k = 0)" by blast
      then show "IsCoinBase x (txs ! k) = (Suc i + k = 0)" by simp
    qed
    show "Suc i = 0 \<Longrightarrow> txs \<noteq> [] \<Longrightarrow> \<not> overwrites_coin x (cs_view st') (hd txs)" by simp
    show "length (cs_undo st') = Suc i - 1" using u Cons.prems(9) by (cases "i = 0") auto
    show "cacheCoins w = cacheCoins (cs_view stf)" by (rule Cons.prems(10))
  qed
  also have "\<dots> = disconnect_from x all (cs_undo stf) (nHeight pindex) i
                      (w\<lparr>cacheCoins := cacheCoins (cs_view st)\<rparr>) True"
    using dt by simp
  finally show ?case .
qed

lemma CheckBlock_coinbase_first:
  "CheckBlock x lim m block a b = Inr block' \<Longrightarrow> \<not> fChecked block \<Longrightarrow> coinbase_first x block"
  by (auto simp: CheckBlock_def CheckBlock_before_sigops_def coinbase_first_def
        split: sum.splits if_splits)

lemma coinbase_first_nth:
  assumes "coinbase_first x block" and "k < length (vtx block)"
  shows "IsCoinBase x (vtx block ! k) \<longleftrightarrow> k = 0"
proof (cases "vtx block")
  case Nil
  with assms show ?thesis by simp
next
  case (Cons t ts)
  show ?thesis
  proof (cases k)
    case 0
    with assms Cons show ?thesis by (simp add: coinbase_first_def)
  next
    case (Suc j)
    with assms Cons have "ts ! j \<in> set ts" by simp
    with assms Cons Suc show ?thesis by (auto simp: coinbase_first_def list_ex_iff)
  qed
qed

lemma ConnectBlock_InrD:
  assumes "ConnectBlock x env params m lim files block pindex view False = Inr r"
    and "GetBlockHash x block \<noteq> hashGenesisBlock params"
  shows "\<exists>block' pindexPrev st h pindex' files'.
           CheckBlock x lim m block True True = Inr block' \<and>
           deref m (pprev pindex) = Some pindexPrev \<and>
           phashBlock pindexPrev = Some (hashBlock view) \<and>
           \<not> (fEnforceBIP30 m params pindex pindexPrev \<and> list_ex (overwrites_coin x view) (vtx block)) \<and>
           connect_loop x env m (adaptive_limits env m params lim block pindex) pindex
             (script_flags x env m params block pindex)
             (if CSV_active env then LOCKTIME_VERIFY_SEQUENCE else 0) 0 (vtx block)
             \<lparr>cs_view = view, cs_nSigOps = 0, cs_nFees = 0, cs_undo = [], cs_checks = True\<rparr> = Inr st \<and>
           write_undo env files pindex (hashBlock view) (cs_undo st) = Inr (pindex', files') \<and>
           phashBlock pindex = Some h \<and>
           r_view r = (cs_view st)\<lparr>hashBlock := h\<rparr> \<and> r_pindex r = pindex' \<and> r_files r = files' \<and>
           r_blockundo r = cs_undo st"
  using assms
  apply (simp add: ConnectBlock_def Let_def split: sum.splits option.splits if_splits prod.splits)
  apply auto
  done


lemma write_undo_fresh:
  assumes "write_undo env files pindex hashPrev blockundo = Inr (pindex', files')"
    and "\<not> HAVE_UNDO (nStatus pindex)"
  shows "\<exists>pos. GetUndoPos pindex' = Some pos \<and> files' pos = Some (hashPrev, blockundo) \<and>
           phashBlock pindex' = phashBlock pindex \<and> pprev pindex' = pprev pindex \<and>
           nHeight pindex' = nHeight pindex"
  using assms
  by (auto simp: write_undo_def GetUndoPos_def RaiseValidity_def split: option.splits if_splits)

text \<open>
  C1 (as amended). Let a block that is not the genesis block and holds no zerocoin
  spend be connected (not just checked) on a well-formed view, at a non-zero height,
  its undo data being written by this connection, and let no output of its coinbase
  be an outpoint that is unspent in the view (which the BIP30 test sees to where it is
  in force). Let the coinbase be the first and only coinbase of the block if the block's
  \<open>fChecked\<close> flag was already set (\<open>CheckBlock\<close> tests this before it sets the flag),
  and let the erasing and updating of the address index succeed if that index is kept.
  Then \<open>DisconnectBlock\<close>, run on the resulting view, index entry and undo files, returns
  \<open>DISCONNECT_OK\<close> and the view it leaves is the view before the connection: the same
  coins, with their amounts, scripts, heights and coinbase flags, and the best block
  back at the parent.
\<close>

theorem ConnectBlock_DisconnectBlock_roundtrip:
  assumes connect: "ConnectBlock x env params m lim files block pindex view False = Inr r"
    and not_genesis: "GetBlockHash x block \<noteq> hashGenesisBlock params"
    and no_zerocoin: "\<forall>tx \<in> set (vtx block). \<not> IsZerocoinSpend x tx"
    and no_overwrite: "\<not> overwrites_coin x view (hd (vtx block))"
    and checked: "fChecked block \<longrightarrow> coinbase_first x block"
    and fresh: "\<not> HAVE_UNDO (nStatus pindex)"
    and wf: "view_ok x view" and height: "nHeight pindex \<noteq> 0"
    and db: "fAddressIndex env \<longrightarrow> EraseAddressIndex_ok env \<and> UpdateAddressUnspentIndex_ok env"
  shows "DisconnectBlock x env m (r_files r) block (r_pindex r) (r_view r) = Inr (DISCONNECT_OK, view)"
proof -
  from ConnectBlock_InrD[OF connect not_genesis]
  obtain block' pindexPrev st h pindex' files' where
    cb: "CheckBlock x lim m block True True = Inr block'"
    and parent: "deref m (pprev pindex) = Some pindexPrev"
    and hprev: "phashBlock pindexPrev = Some (hashBlock view)"
    and loop: "connect_loop x env m (adaptive_limits env m params lim block pindex) pindex
             (script_flags x env m params block pindex)
             (if CSV_active env then LOCKTIME_VERIFY_SEQUENCE else 0) 0 (vtx block)
             \<lparr>cs_view = view, cs_nSigOps = 0, cs_nFees = 0, cs_undo = [], cs_checks = True\<rparr> = Inr st"
    and wu: "write_undo env files pindex (hashBlock view) (cs_undo st) = Inr (pindex', files')"
    and h: "phashBlock pindex = Some h"
    and r: "r_view r = (cs_view st)\<lparr>hashBlock := h\<rparr>" "r_pindex r = pindex'" "r_files r = files'"
    by auto
  from write_undo_fresh[OF wu fresh] obtain pos where
    pos: "GetUndoPos pindex' = Some pos" "files' pos = Some (hashBlock view, cs_undo st)"
      "phashBlock pindex' = phashBlock pindex" "pprev pindex' = pprev pindex"
      "nHeight pindex' = nHeight pindex"
    by blast
  have cf: "coinbase_first x block"
    using checked CheckBlock_coinbase_first[OF cb] by blast
  then have ne: "vtx block \<noteq> []" by (simp add: coinbase_first_def)
  note now = no_overwrite
  let ?st0 = "\<lparr>cs_view = view, cs_nSigOps = 0, cs_nFees = 0, cs_undo = [], cs_checks = True\<rparr>"
  let ?w = "(cs_view st)\<lparr>hashBlock := h\<rparr>"
  from connect_loop_undo[OF loop] have len: "length (cs_undo st) + 1 = length (vtx block)"
    using ne by (cases "vtx block") auto
  have "disconnect_from x (vtx block) (cs_undo st) (nHeight pindex) (length (vtx block)) ?w True =
        disconnect_from x (vtx block) (cs_undo st) (nHeight pindex) 0
          (?w\<lparr>cacheCoins := cacheCoins (cs_view ?st0)\<rparr>) True"
  proof (rule connect_loop_roundtrip[OF loop, of _ "[]"])
    show "vtx block = [] @ vtx block" by simp
    show "length [] = (0::nat)" by simp
    show "view_ok x (cs_view ?st0)" using wf by simp
    show "nHeight pindex \<noteq> 0" by (rule height)
    show "\<forall>tx\<in>set (vtx block). \<not> IsZerocoinSpend x tx" by (rule no_zerocoin)
    show "\<forall>k<length (vtx block). IsCoinBase x (vtx block ! k) = (0 + k = 0)"
      using coinbase_first_nth[OF cf] by simp
    show "\<not> overwrites_coin x (cs_view ?st0) (hd (vtx block))" using now by simp
    show "length (cs_undo ?st0) = 0 - 1" by simp
    show "cacheCoins ?w = cacheCoins (cs_view st)" by simp
  qed
  then have df: "disconnect_from x (vtx block) (cs_undo st) (nHeight pindex) (length (vtx block)) ?w True =
        Inr (DISCONNECT_OK, ?w\<lparr>cacheCoins := cacheCoins view\<rparr>)"
    by simp
  have fin: "?w\<lparr>cacheCoins := cacheCoins view, hashBlock := hashBlock view\<rparr> = view" by simp
  show ?thesis
    using r pos h parent hprev len df fin db
    by (simp add: DisconnectBlock_def UndoReadFromDisk_def)
qed

lemmas example_defs = example_ext_def example_env_def example_params_def example_limits_def
  example_chain_def example_pindex_def example_coinbase_def example_payment_def example_block_def
  example_view_def example_index_def example_params_BIP34_def example_genesis_def
  example_tx_size_def
  example_ext_zerocoin_def example_zerocoin_spend_def

lemmas connect_defs = ConnectBlock_def CheckBlock_def CheckBlock_before_sigops_def CheckBlockHeader_def
  getNHeight_def GetBlockHash_def CheckTransaction_def MoneyRange_def block_legacy_sigops_def
  GetLegacySigOpCount_def conflicts_with_lock_def MAX_BLOCK_SIGOPS_COST_def HF_ZEROCOIN_DISABLE_def
  deref_def fEnforceBIP30_def BIP30_exception_def GetAncestor_def overwrites_coin_def HaveCoin_def
  script_flags_def adaptive_limits_def fStrictPayToScriptHash_def GetBlockTime_def
  IsSuperMajority_def majority_loop_numeral connect_tx_def connect_inputs_def UpdateCoins_def
  AddCoins_def AddCoin_def SpendCoin_def HaveInputs_def input_heights_def AccessCoin_def
  SequenceLocks_def CalculateSequenceLocks_def EvaluateSequenceLocks_def GetMedianTimePast_def
  times_back_numeral CheckInputs_def GetSpendHeight_def CheckTxInputs_def GetValueOut_def
  GetValueIn_def COINBASE_MATURITY_def write_undo_def GetUndoPos_def IsValid_def RaiseValidity_def
  write_indexes_def LOCKTIME_VERIFY_SEQUENCE_def CBlockHeader.truncate_def int32_def Let_def

lemmas disconnect_defs = DisconnectBlock_def UndoReadFromDisk_def GetUndoPos_def deref_def
  disconnect_tx_def SpendCoin_def ApplyTxInUndo_def AddCoin_def HaveCoin_def AccessByTxid_def
  AccessCoin_def Let_def

lemma example_connected_Inr: "example_connected = Inr (projr example_connected)"
proof -
  have "\<exists>r. example_connected = Inr r"
    unfolding example_connected_def by (simp add: example_defs connect_defs)
  then obtain r where r: "example_connected = Inr r" by blast
  have "Inr r = Inr (projr (Inr r :: failure + connect_result))" by simp
  then show ?thesis unfolding r .
qed

theorem ConnectBlock_DisconnectBlock_roundtrip_witness:
  "example_connected = Inr (projr example_connected) \<and>
   DisconnectBlock example_ext example_env example_chain (r_files (projr example_connected))
     (example_block [example_coinbase 100 [9], example_payment 101 (COutPoint 50 0)])
     (r_pindex (projr example_connected)) (r_view (projr example_connected))
     = Inr (DISCONNECT_OK, example_view (COutPoint 50 0))"
proof -
  have c: "ConnectBlock example_ext example_env example_params example_chain example_limits Map.empty
      (example_block [example_coinbase 100 [9], example_payment 101 (COutPoint 50 0)])
      example_pindex (example_view (COutPoint 50 0)) False = Inr (projr example_connected)"
    using example_connected_Inr by (simp add: example_connected_def)
  have "DisconnectBlock example_ext example_env example_chain (r_files (projr example_connected))
     (example_block [example_coinbase 100 [9], example_payment 101 (COutPoint 50 0)])
     (r_pindex (projr example_connected)) (r_view (projr example_connected))
     = Inr (DISCONNECT_OK, example_view (COutPoint 50 0))"
  proof (rule ConnectBlock_DisconnectBlock_roundtrip[OF c])
    show "GetBlockHash example_ext (example_block [example_coinbase 100 [9], example_payment 101 (COutPoint 50 0)])
            \<noteq> hashGenesisBlock example_params"
      by (simp add: example_defs GetBlockHash_def CBlockHeader.truncate_def)
    show "\<forall>tx\<in>set (vtx (example_block [example_coinbase 100 [9], example_payment 101 (COutPoint 50 0)])).
            \<not> IsZerocoinSpend example_ext tx"
      by (simp add: example_defs)
    show "\<not> overwrites_coin example_ext (example_view (COutPoint 50 0))
            (hd (vtx (example_block [example_coinbase 100 [9], example_payment 101 (COutPoint 50 0)])))"
      by (simp add: example_defs overwrites_coin_def HaveCoin_def)
    show "fChecked (example_block [example_coinbase 100 [9], example_payment 101 (COutPoint 50 0)])
            \<longrightarrow> coinbase_first example_ext (example_block [example_coinbase 100 [9], example_payment 101 (COutPoint 50 0)])"
      by (simp add: example_defs)
    show "\<not> HAVE_UNDO (nStatus example_pindex)" by (simp add: example_defs)
    show "view_ok example_ext (example_view (COutPoint 50 0))"
      by (simp add: example_defs view_ok_def coin_ok_def)
    show "nHeight example_pindex \<noteq> 0" by (simp add: example_defs)
    show "fAddressIndex example_env \<longrightarrow>
            EraseAddressIndex_ok example_env \<and> UpdateAddressUnspentIndex_ok example_env"
      by (simp add: example_defs)
  qed
  with example_connected_Inr show ?thesis by simp
qed

lemma example_overwritten_eq:
  "example_overwritten =
     Inr \<lparr>r_view = \<lparr>cacheCoins = [COutPoint 100 0 \<mapsto>
                      \<lparr>out = \<lparr>nValue = 5000, scriptPubKey = [9]\<rparr>, fCoinBase = True, coin_nHeight = 2\<rparr>],
                    hashBlock = 3\<rparr>,
          r_pindex = example_pindex\<lparr>nUndoPos := 8,
             nStatus := \<lparr>validLevel = VALID_SCRIPTS, HAVE_DATA = False, HAVE_UNDO = True,
                 FAILED_VALID = False, FAILED_CHILD = False\<rparr>\<rparr>,
          r_files = [(0, 8) \<mapsto> (2, [])],
          r_limits = example_limits,
          r_block = (example_block [example_coinbase 100 [9]])\<lparr>fChecked := True\<rparr>,
          r_blockundo = []\<rparr>"
  unfolding example_overwritten_def by (simp add: example_defs connect_defs)


lemma example_genesis_connected_eq:
  "example_genesis_connected =
     Inr \<lparr>r_view = \<lparr>cacheCoins = Map.empty, hashBlock = 1\<rparr>,
          r_pindex = example_index 1 None 0 1000,
          r_files = Map.empty,
          r_limits = example_limits,
          r_block = example_genesis\<lparr>fChecked := True\<rparr>,
          r_blockundo = []\<rparr>"
  unfolding example_genesis_connected_def by (simp add: example_defs connect_defs)

text \<open>
  The round trip fails where a coinbase overwrites a coin: block 3 sits on the BIP34
  chain, where the BIP30 test is off, its coinbase overwrites the coin that the view
  holds at the same outpoint, and after \<open>DisconnectBlock\<close> (which reports
  \<open>DISCONNECT_OK\<close>) that coin is gone. It also fails for the genesis block, for which no
  undo data is written.
\<close>

theorem ConnectBlock_DisconnectBlock_roundtrip_counterexample:
  "example_overwritten = Inr (projr example_overwritten) \<and>
   DisconnectBlock example_ext example_env example_chain (r_files (projr example_overwritten))
     (example_block [example_coinbase 100 [9]])
     (r_pindex (projr example_overwritten)) (r_view (projr example_overwritten))
     = Inr (DISCONNECT_OK, \<lparr>cacheCoins = Map.empty, hashBlock = 2\<rparr>) \<and>
   cacheCoins (example_view (COutPoint 100 0)) (COutPoint 100 0) \<noteq> None \<and>
   example_genesis_connected = Inr (projr example_genesis_connected) \<and>
   DisconnectBlock example_ext example_env example_chain (r_files (projr example_genesis_connected))
     example_genesis
     (r_pindex (projr example_genesis_connected)) (r_view (projr example_genesis_connected))
     = Inr (DISCONNECT_FAILED, \<lparr>cacheCoins = Map.empty, hashBlock = 1\<rparr>)"
  by (simp add: example_overwritten_eq example_genesis_connected_eq)
     (simp add: example_defs disconnect_defs)

lemma example_zerocoin_connected_eq:
  "example_zerocoin_connected =
     Inr \<lparr>r_view = \<lparr>cacheCoins = [COutPoint 50 0 \<mapsto>
                        \<lparr>out = \<lparr>nValue = 10, scriptPubKey = [7]\<rparr>, fCoinBase = False, coin_nHeight = 1\<rparr>,
                      COutPoint 100 0 \<mapsto>
                        \<lparr>out = \<lparr>nValue = 5000, scriptPubKey = [9]\<rparr>, fCoinBase = True, coin_nHeight = 2\<rparr>,
                      COutPoint 77 0 \<mapsto>
                        \<lparr>out = \<lparr>nValue = 1, scriptPubKey = [8]\<rparr>, fCoinBase = False, coin_nHeight = 2\<rparr>],
                    hashBlock = 3\<rparr>,
          r_pindex = example_pindex\<lparr>nUndoPos := 8,
             nStatus := \<lparr>validLevel = VALID_SCRIPTS, HAVE_DATA = False, HAVE_UNDO = True,
                 FAILED_VALID = False, FAILED_CHILD = False\<rparr>\<rparr>,
          r_files = [(0, 8) \<mapsto> (2, [[]])],
          r_limits = example_limits,
          r_block = (example_block [example_coinbase 100 [9], example_zerocoin_spend])\<lparr>fChecked := True\<rparr>,
          r_blockundo = [[]]\<rparr>"
  unfolding example_zerocoin_connected_def by (simp add: example_defs connect_defs)

text \<open>
  A block with a zerocoin spend connects, \<open>UpdateCoins\<close> leaving the undo record of the
  spend empty, and cannot be disconnected: \<open>DisconnectBlock\<close> finds the undo record
  shorter than the input list.
\<close>

lemma DisconnectBlock_zerocoin_spend_fails:
  "example_zerocoin_connected = Inr (projr example_zerocoin_connected) \<and>
   DisconnectBlock example_ext_zerocoin example_env example_chain
     (r_files (projr example_zerocoin_connected))
     (example_block [example_coinbase 100 [9], example_zerocoin_spend])
     (r_pindex (projr example_zerocoin_connected)) (r_view (projr example_zerocoin_connected))
     = Inr (DISCONNECT_FAILED,
            \<lparr>cacheCoins = [COutPoint 50 0 \<mapsto>
                        \<lparr>out = \<lparr>nValue = 10, scriptPubKey = [7]\<rparr>, fCoinBase = False, coin_nHeight = 1\<rparr>,
                      COutPoint 100 0 \<mapsto>
                        \<lparr>out = \<lparr>nValue = 5000, scriptPubKey = [9]\<rparr>, fCoinBase = True, coin_nHeight = 2\<rparr>],
              hashBlock = 3\<rparr>)"
  by (simp add: example_zerocoin_connected_eq)
     (simp add: example_defs disconnect_defs)

section \<open>Signature operation limits and the BIP30 test\<close>














lemma sequence_lock_loop_Crash:
  "sequence_lock_loop m block ins hs lp = Inl e \<Longrightarrow> e = Crash"
  by (induction m block ins hs lp rule: sequence_lock_loop.induct)
     (auto simp: Let_def split: if_splits sum.splits option.splits)

lemma P2SH_loop_Crash: "P2SH_loop x view ins n = Inl e \<Longrightarrow> e = Crash"
  by (induction ins arbitrary: n) (auto split: option.splits)

lemma AddCoins_loop_Crash: "AddCoins_loop x view txid cb h outs i = Inl e \<Longrightarrow> e = Crash"
  by (induction outs arbitrary: view i) (auto simp: AddCoin_def split: sum.splits if_splits)

lemma spend_inputs_Crash: "spend_inputs view ins = Inl e \<Longrightarrow> e = Crash"
  by (induction ins arbitrary: view) (auto split: option.splits sum.splits prod.splits)

lemma UpdateCoins_Crash: "UpdateCoins x tx view h = Inl e \<Longrightarrow> e = Crash"
  by (auto simp: UpdateCoins_def AddCoins_def dest: AddCoins_loop_Crash spend_inputs_Crash
        split: if_splits sum.splits prod.splits)

lemma SequenceLocks_Crash: "SequenceLocks m tx flags hs block = Inl e \<Longrightarrow> e = Crash"
  by (auto simp: SequenceLocks_def CalculateSequenceLocks_def EvaluateSequenceLocks_def Let_def
        dest: sequence_lock_loop_Crash split: sum.splits prod.splits if_splits option.splits)

lemma check_input_values_not_BIP30:
  "check_input_values x inputs h ins v = Inl e \<Longrightarrow>
   e \<noteq> Invalid 100 REJECT_INVALID ''bad-txns-BIP30'' False"
  by (induction ins arbitrary: v) (auto split: option.splits if_splits)

lemma script_loop_not_BIP30:
  "script_loop x tx inputs flags queue i ins ok = Inl e \<Longrightarrow>
   e \<noteq> Invalid 100 REJECT_INVALID ''bad-txns-BIP30'' False"
  by (induction ins arbitrary: i ok) (auto split: option.splits if_splits)

lemma CheckInputs_not_BIP30:
  "CheckInputs x m tx inputs checks flags queue = Inl e \<Longrightarrow>
   e \<noteq> Invalid 100 REJECT_INVALID ''bad-txns-BIP30'' False"
  by (auto simp: CheckInputs_def GetSpendHeight_def CheckTxInputs_def
        dest: check_input_values_not_BIP30 script_loop_not_BIP30
        split: if_splits sum.splits option.splits)

lemma connect_tx_not_BIP30:
  "connect_tx x env m lim pindex flags lt i tx st = Inl e \<Longrightarrow>
   e \<noteq> Invalid 100 REJECT_INVALID ''bad-txns-BIP30'' False"
  by (auto simp: connect_tx_def connect_inputs_def GetP2SHSigOpCount_def Let_def
        dest: CheckInputs_not_BIP30 UpdateCoins_Crash SequenceLocks_Crash P2SH_loop_Crash
        split: if_splits sum.splits prod.splits)

lemma connect_loop_not_BIP30:
  "connect_loop x env m lim pindex flags lt i txs st = Inl e \<Longrightarrow>
   e \<noteq> Invalid 100 REJECT_INVALID ''bad-txns-BIP30'' False"
  by (induction txs arbitrary: i st) (auto dest: connect_tx_not_BIP30 split: sum.splits)


lemma ConnectBlock_after_BIP30:
  assumes "CheckBlock x lim m block (\<not> fJustCheck) (\<not> fJustCheck) = Inr block'"
    and "deref m (pprev pindex) = Some pindexPrev"
    and "phashBlock pindexPrev = Some (hashBlock view)"
    and "GetBlockHash x block \<noteq> hashGenesisBlock params"
    and "\<forall>nFees. SmartMining_Validate env block pindex nFees
            \<noteq> Some (Invalid 100 REJECT_INVALID ''bad-txns-BIP30'' False)"
    and "\<not> (fEnforceBIP30 m params pindex pindexPrev \<and> list_ex (overwrites_coin x view) (vtx block))"
  shows "ConnectBlock x env params m lim files block pindex view fJustCheck
           \<noteq> Inl (Invalid 100 REJECT_INVALID ''bad-txns-BIP30'' False)"
proof
  assume bad: "ConnectBlock x env params m lim files block pindex view fJustCheck
           = Inl (Invalid 100 REJECT_INVALID ''bad-txns-BIP30'' False)"
  let ?loop = "connect_loop x env m (adaptive_limits env m params lim block pindex) pindex
             (script_flags x env m params block pindex)
             (if CSV_active env then LOCKTIME_VERIFY_SEQUENCE else 0) 0 (vtx block)
             \<lparr>cs_view = view, cs_nSigOps = 0, cs_nFees = 0, cs_undo = [], cs_checks = True\<rparr>"
  show False
  proof (cases ?loop)
    case (Inl e)
    with bad assms(1-4,6) have "e = Invalid 100 REJECT_INVALID ''bad-txns-BIP30'' False"
      by (simp add: ConnectBlock_def Let_def)
    with connect_loop_not_BIP30[OF Inl] show False by simp
  next
    case (Inr st)
    with bad assms(1-4,6) assms(5)[rule_format, of "cs_nFees st"] show False
      by (auto simp: ConnectBlock_def Let_def write_undo_def write_indexes_def
            split: option.splits if_splits sum.splits prod.splits)
  qed
qed

text \<open>
  C4 (as amended). Take a block that passes \<open>CheckBlock\<close>, is not the genesis block
  and whose parent is the best block of the view, \<open>SmartMining::Validate\<close> not being
  the one to answer \<open>bad-txns-BIP30\<close>. Then \<open>ConnectBlock\<close> rejects the block with
  \<open>bad-txns-BIP30\<close> exactly when the BIP30 test is in force and one of the block's
  transactions has an output whose outpoint is unspent in the view. The test is in
  force unless the index entry is one of the two listed (height, hash) pairs, or the
  ancestor of the parent at \<open>BIP34Height\<close> has the hash \<open>BIP34Hash\<close>.
\<close>

theorem ConnectBlock_BIP30:
  assumes "CheckBlock x lim m block (\<not> fJustCheck) (\<not> fJustCheck) = Inr block'"
    and "deref m (pprev pindex) = Some pindexPrev"
    and "phashBlock pindexPrev = Some (hashBlock view)"
    and "GetBlockHash x block \<noteq> hashGenesisBlock params"
    and "\<forall>nFees. SmartMining_Validate env block pindex nFees
            \<noteq> Some (Invalid 100 REJECT_INVALID ''bad-txns-BIP30'' False)"
  shows "(ConnectBlock x env params m lim files block pindex view fJustCheck
              = Inl (Invalid 100 REJECT_INVALID ''bad-txns-BIP30'' False)
          \<longleftrightarrow> fEnforceBIP30 m params pindex pindexPrev \<and>
              (\<exists>tx \<in> set (vtx block). \<exists>i < length (vout tx).
                  HaveCoin view (COutPoint (GetHash x tx) i))) \<and>
         (fEnforceBIP30 m params pindex pindexPrev \<longleftrightarrow>
            \<not> (nHeight pindex = 91842 \<and> phashBlock pindex =
                  Some 0x00000000000a4d0a398161ffc163c503763b1f4360639393e0e4c8e300e0caec) \<and>
            \<not> (nHeight pindex = 91880 \<and> phashBlock pindex =
                  Some 0x00000000000743f190a18c5577a3c2d2a1f610ae9601ac046a38084ccb7cd721) \<and>
            (\<forall>a. GetAncestor m pindexPrev (BIP34Height params) = Some a \<longrightarrow>
                   phashBlock a \<noteq> Some (BIP34Hash params)))"
proof (intro conjI)
  have ov: "list_ex (overwrites_coin x view) (vtx block) \<longleftrightarrow>
        (\<exists>tx \<in> set (vtx block). \<exists>i < length (vout tx). HaveCoin view (COutPoint (GetHash x tx) i))"
    unfolding list_ex_iff overwrites_coin_def by (simp add: Bex_def)
  show "ConnectBlock x env params m lim files block pindex view fJustCheck
              = Inl (Invalid 100 REJECT_INVALID ''bad-txns-BIP30'' False)
          \<longleftrightarrow> fEnforceBIP30 m params pindex pindexPrev \<and>
              (\<exists>tx \<in> set (vtx block). \<exists>i < length (vout tx).
                  HaveCoin view (COutPoint (GetHash x tx) i))"
  proof (cases "fEnforceBIP30 m params pindex pindexPrev \<and> list_ex (overwrites_coin x view) (vtx block)")
    case True
    with assms(1-4) have "ConnectBlock x env params m lim files block pindex view fJustCheck
              = Inl (Invalid 100 REJECT_INVALID ''bad-txns-BIP30'' False)"
      by (simp add: ConnectBlock_def)
    with True ov show ?thesis by simp
  next
    case False
    from ConnectBlock_after_BIP30[OF assms False] False ov show ?thesis by simp
  qed
next
  show "fEnforceBIP30 m params pindex pindexPrev \<longleftrightarrow>
            \<not> (nHeight pindex = 91842 \<and> phashBlock pindex =
                  Some 0x00000000000a4d0a398161ffc163c503763b1f4360639393e0e4c8e300e0caec) \<and>
            \<not> (nHeight pindex = 91880 \<and> phashBlock pindex =
                  Some 0x00000000000743f190a18c5577a3c2d2a1f610ae9601ac046a38084ccb7cd721) \<and>
            (\<forall>a. GetAncestor m pindexPrev (BIP34Height params) = Some a \<longrightarrow>
                   phashBlock a \<noteq> Some (BIP34Hash params))"
    by (auto simp: fEnforceBIP30_def BIP30_exception_def split: option.splits)
qed

lemmas listed_defs = example_ext_listed_def example_chain_listed_def example_pindex_listed_def
  example_block_listed_def example_view_listed_def

theorem ConnectBlock_BIP30_witness:
  "ConnectBlock example_ext example_env example_params example_chain example_limits Map.empty
      (example_block [example_coinbase 100 [9]]) example_pindex (example_view (COutPoint 100 0)) False
     = Inl (Invalid 100 REJECT_INVALID ''bad-txns-BIP30'' False) \<and>
   HaveCoin example_view_listed
     (COutPoint (GetHash example_ext_listed (example_coinbase 100 [9])) 0) \<and>
   phashBlock (example_pindex_listed 91842) =
     Some 0x00000000000a4d0a398161ffc163c503763b1f4360639393e0e4c8e300e0caec \<and>
   \<not> fEnforceBIP30 example_chain_listed example_params (example_pindex_listed 91842)
       (example_index 7 None 91841 2000) \<and>
   (\<exists>r. ConnectBlock example_ext_listed example_env example_params example_chain_listed
      example_limits Map.empty example_block_listed (example_pindex_listed 91842)
      example_view_listed False = Inr r) \<and>
   ConnectBlock example_ext_listed example_env example_params example_chain_listed
      example_limits Map.empty example_block_listed (example_pindex_listed 91842)
      example_view_listed False \<noteq> Inl (Invalid 100 REJECT_INVALID ''bad-txns-BIP30'' False) \<and>
   ConnectBlock example_ext_listed example_env example_params example_chain_listed
      example_limits Map.empty example_block_listed (example_pindex_listed 91843)
      example_view_listed False = Inl (Invalid 100 REJECT_INVALID ''bad-txns-BIP30'' False)"
proof -
  let ?B = "example_block [example_coinbase 100 [9]]"
  note defs = listed_defs example_defs connect_defs walk_back_numeral
  have cb: "CheckBlock example_ext example_limits example_chain ?B (\<not> False) (\<not> False)
              = Inr (?B\<lparr>fChecked := True\<rparr>)"
    by (simp add: defs)
  have cbl: "CheckBlock example_ext_listed example_limits example_chain_listed example_block_listed
               (\<not> False) (\<not> False) = Inr (example_block_listed\<lparr>fChecked := True\<rparr>)"
    by (simp add: defs)
  have a: "ConnectBlock example_ext example_env example_params example_chain example_limits Map.empty
      ?B example_pindex (example_view (COutPoint 100 0)) False
     = Inl (Invalid 100 REJECT_INVALID ''bad-txns-BIP30'' False)"
    using ConnectBlock_BIP30[OF cb, where pindex = example_pindex
      and pindexPrev = "example_index 2 (Some 1) 1 2000" and view = "example_view (COutPoint 100 0)"
      and params = example_params and env = example_env and files = Map.empty]
    by (simp add: example_defs deref_def GetBlockHash_def CBlockHeader.truncate_def HaveCoin_def
          GetAncestor_def)
  have b: "ConnectBlock example_ext_listed example_env example_params example_chain_listed
      example_limits Map.empty example_block_listed (example_pindex_listed 91842)
      example_view_listed False \<noteq> Inl (Invalid 100 REJECT_INVALID ''bad-txns-BIP30'' False)"
    using ConnectBlock_BIP30[OF cbl, where pindex = "example_pindex_listed 91842"
      and pindexPrev = "example_index 7 None 91841 2000" and view = example_view_listed
      and params = example_params and env = example_env and files = Map.empty]
    by (simp add: listed_defs example_defs deref_def GetBlockHash_def CBlockHeader.truncate_def
          GetAncestor_def)
  have c: "ConnectBlock example_ext_listed example_env example_params example_chain_listed
      example_limits Map.empty example_block_listed (example_pindex_listed 91843)
      example_view_listed False = Inl (Invalid 100 REJECT_INVALID ''bad-txns-BIP30'' False)"
    using ConnectBlock_BIP30[OF cbl, where pindex = "example_pindex_listed 91843"
      and pindexPrev = "example_index 7 None 91841 2000" and view = example_view_listed
      and params = example_params and env = example_env and files = Map.empty]
    by (simp add: listed_defs example_defs deref_def GetBlockHash_def CBlockHeader.truncate_def
          HaveCoin_def GetAncestor_def)
  have d: "\<exists>r. ConnectBlock example_ext_listed example_env example_params example_chain_listed
      example_limits Map.empty example_block_listed (example_pindex_listed 91842)
      example_view_listed False = Inr r"
    by (simp add: defs)
  have e: "\<not> fEnforceBIP30 example_chain_listed example_params (example_pindex_listed 91842)
       (example_index 7 None 91841 2000)"
    by (simp add: defs)
  from a b c d e show ?thesis by (simp add: listed_defs example_defs HaveCoin_def)
qed

text \<open>
  Block 3 is not one of the two listed pairs and its coinbase output is already unspent
  in the view, yet \<open>ConnectBlock\<close> accepts it: block 2, the parent, is the BIP34 block,
  which switches the test off.
\<close>

theorem ConnectBlock_BIP30_counterexample:
  "\<not> BIP30_exception example_pindex \<and>
   HaveCoin (example_view (COutPoint 100 0))
     (COutPoint (GetHash example_ext (example_coinbase 100 [9])) 0) \<and>
   ConnectBlock example_ext example_env example_params_BIP34 example_chain example_limits
      Map.empty (example_block [example_coinbase 100 [9]]) example_pindex
      (example_view (COutPoint 100 0)) False
    = Inr \<lparr>r_view = \<lparr>cacheCoins = [COutPoint 100 0 \<mapsto>
                      \<lparr>out = \<lparr>nValue = 5000, scriptPubKey = [9]\<rparr>, fCoinBase = True, coin_nHeight = 2\<rparr>],
                    hashBlock = 3\<rparr>,
          r_pindex = example_pindex\<lparr>nUndoPos := 8,
             nStatus := \<lparr>validLevel = VALID_SCRIPTS, HAVE_DATA = False, HAVE_UNDO = True,
                 FAILED_VALID = False, FAILED_CHILD = False\<rparr>\<rparr>,
          r_files = [(0, 8) \<mapsto> (2, [])],
          r_limits = example_limits,
          r_block = (example_block [example_coinbase 100 [9]])\<lparr>fChecked := True\<rparr>,
          r_blockundo = []\<rparr>"
  by (simp add: example_defs connect_defs)

section \<open>Headers and blocks that are already known\<close>

text \<open>
  C8 (as amended). A header whose hash is already in the block index is not validated again
  and creates no entry: \<^verbatim>\<open>AcceptBlockHeader\<close> hands back the existing entry and leaves
  the state as it was. \<^verbatim>\<open>AcceptBlock\<close> for a block whose entry already has its data set
  does the same, writes nothing and reports no new block. The outcome is success,
  except that an entry other than the genesis block that is marked as failed is answered
  with the rejection \<open>duplicate\<close>.
\<close>

theorem AcceptBlock_known_block:
  assumes known: "mapBlockIndex st (GetBlockHash x block) = Some pindex"
  shows "AcceptBlockHeader x env params st block ppindex =
           (if GetBlockHash x block \<noteq> hashGenesisBlock params \<and> BLOCK_FAILED_MASK pindex
            then Inl (Invalid 0 REJECT_NONE ''duplicate'' False) else Inr (),
            Some (GetBlockHash x block), st) \<and>
         (HAVE_DATA (nStatus pindex) \<longrightarrow>
          AcceptBlock x env params lim st block ppindex fRequested =
           (if GetBlockHash x block \<noteq> hashGenesisBlock params \<and> BLOCK_FAILED_MASK pindex
            then Inl (Invalid 0 REJECT_NONE ''duplicate'' False) else Inr (),
            Some (GetBlockHash x block), False, st))"
proof -
  have header: "AcceptBlockHeader x env params st block ppindex =
           (if GetBlockHash x block \<noteq> hashGenesisBlock params \<and> BLOCK_FAILED_MASK pindex
            then Inl (Invalid 0 REJECT_NONE ''duplicate'' False) else Inr (),
            Some (GetBlockHash x block), st)"
  proof (cases "GetBlockHash x block = hashGenesisBlock params")
    case True
    from known have "AddToBlockIndex x env st block = (GetBlockHash x block, st)"
      by (simp add: AddToBlockIndex_def Let_def)
    with True show ?thesis by (simp add: AcceptBlockHeader_def)
  next
    case False
    with known show ?thesis by (simp add: AcceptBlockHeader_def)
  qed
  have "AcceptBlock x env params lim st block ppindex fRequested =
           (if GetBlockHash x block \<noteq> hashGenesisBlock params \<and> BLOCK_FAILED_MASK pindex
            then Inl (Invalid 0 REJECT_NONE ''duplicate'' False) else Inr (),
            Some (GetBlockHash x block), False, st)" if "HAVE_DATA (nStatus pindex)"
    using known that by (simp add: AcceptBlock_def header deref_def Let_def)
  with header show ?thesis by blast
qed

lemmas accept_defs = example_accept_env_def example_node_def example_entry_def example_block_def
  example_ext_def example_params_def example_pindex_def example_index_def GetBlockHash_def
  BLOCK_FAILED_MASK_def CBlockHeader.truncate_def deref_def Let_def

theorem AcceptBlock_known_block_witness:
  "mapBlockIndex (example_node False) (GetBlockHash example_ext (example_block [example_coinbase 100 [9]]))
     = Some (example_entry False) \<and>
   AcceptBlockHeader example_ext example_accept_env example_params (example_node False)
       (example_block [example_coinbase 100 [9]]) None
     = (Inr (), Some 3, example_node False) \<and>
   AcceptBlock example_ext example_accept_env example_params example_limits (example_node False)
       (example_block [example_coinbase 100 [9]]) None True
     = (Inr (), Some 3, False, example_node False)"
  using AcceptBlock_known_block [where st = "example_node False" and x = example_ext
      and block = "example_block [example_coinbase 100 [9]]" and pindex = "example_entry False"
      and env = example_accept_env and params = example_params and lim = example_limits
      and ppindex = None and fRequested = True]
  by (simp add: accept_defs)

theorem AcceptBlock_known_block_counterexample:
  "mapBlockIndex (example_node True) (GetBlockHash example_ext (example_block [example_coinbase 100 [9]]))
     = Some (example_entry True) \<and>
   HAVE_DATA (nStatus (example_entry True)) \<and>
   AcceptBlock example_ext example_accept_env example_params example_limits (example_node True)
       (example_block [example_coinbase 100 [9]]) None True
     = (Inl (Invalid 0 REJECT_NONE ''duplicate'' False), Some 3, False, example_node True)"
  by (simp add: accept_defs AcceptBlock_def AcceptBlockHeader_def)

section \<open>Admission to the memory pool\<close>

subsection \<open>Missing and spent inputs\<close>

text \<open>
  Once the loop over the inputs has found every one of them in the view,
  \<^verbatim>\<open>HaveInputs\<close> holds: the test that follows the loop cannot fail, and the lookup of
  the inputs never answers \<open>bad-txns-inputs-spent\<close>.
\<close>

lemma exist_loop_all:
  "exist_loop env view ins uncache = (False, uncache') \<Longrightarrow>
   list_all (\<lambda>txin. HaveCoin view (prevout txin)) ins"
  by (induction ins arbitrary: uncache) (auto simp: Let_def split: if_splits)

lemma exist_loop_HaveInputs:
  "exist_loop env view (vin tx) uncache = (False, uncache') \<Longrightarrow> HaveInputs x view tx"
  by (simp add: HaveInputs_def exist_loop_all)

lemma CheckSequenceLocks_Crash:
  "CheckSequenceLocks m chainTip pcoinsTip pool tx flags = Inl e \<Longrightarrow> e = Crash"
  by (auto simp: CheckSequenceLocks_def CalculateSequenceLocks_def EvaluateSequenceLocks_def
        Let_def dest: sequence_lock_loop_Crash split: option.splits sum.splits if_splits prod.splits)

lemma lookup_inputs_never_spent:
  "fst (lookup_inputs x env m chainTip pcoinsTip pool tx missing uncache)
     \<noteq> Inl (Invalid 0 REJECT_DUPLICATE ''bad-txns-inputs-spent'' False)"
  by (auto simp: lookup_inputs_def Let_def
        dest: CheckSequenceLocks_Crash exist_loop_HaveInputs
        split: prod.splits bool.splits if_splits sum.splits)

lemma version_1_below_2: "\<not> (2::32 word) \<le> 1"
  by (simp add: word_le_nat_alt)

lemmas mempool_defs = version_1_below_2 AcceptToMemoryPoolWorker_def mempool_prechecks_def find_conflicts_def
  lookup_inputs_def mempool_policy_def replacement_checks_def store_tx_def
  CCoinsViewMemPool_def CheckSequenceLocks_def pool_exists_def fReplacementOptOut_def
  GetModifiedFee_def conflicting_fees_def maxDescendantsToVisit_def MEMPOOL_HEIGHT_def
  SetNull_index_def direct_conflicts_def map_filter_def replacement_pays_def all_conflicting_def
  conflict_hashes_def insufficient_fee_def GetP2SHSigOpCount_def

lemmas example_mempool_defs = example_mempool_env_def example_transfer_def
  example_pool_entry_def example_empty_pool_def example_pool_def example_spent_view_def

text \<open>
  C9. Admission is meant to tell a missing input from a spent one: an unknown
  prevout gives a failure with the missing-inputs flag set and the validation state
  left alone, a spent one the rejection \<open>bad-txns-inputs-spent\<close>. The code does the first
  for both. Here the coin at the outpoint (50, 0) is in the view of the tip and is then
  spent; a transaction that refers to it is answered with the flag set and no rejection.
\<close>

theorem AcceptToMemoryPoolWorker_spent_input:
  "HaveCoin (example_view (COutPoint 50 0)) (COutPoint 50 0) \<and>
   SpendCoin (example_view (COutPoint 50 0)) (COutPoint 50 0)
     = Some (\<lparr>out = \<lparr>nValue = 10, scriptPubKey = [7]\<rparr>, fCoinBase = False, coin_nHeight = 1\<rparr>,
             example_spent_view (COutPoint 50 0)) \<and>
   AcceptToMemoryPoolWorker example_ext (example_mempool_env True) example_env example_limits
         example_chain (Some 2) (example_spent_view (COutPoint 50 0)) example_empty_pool
         (example_transfer 201 (COutPoint 50 0) 0xffffffff 9) True (Some False) False True [] False
     = (Inl Unset, Some True, example_empty_pool, [COutPoint 50 0])"
  by (simp add: example_defs connect_defs mempool_defs example_mempool_defs)

subsection \<open>Replacement\<close>

lemma direct_conflicts_set:
  "set (direct_conflicts pool tx) = {c. \<exists>txin \<in> set (vin tx). mapNextTx pool (prevout txin) = Some c}"
  unfolding direct_conflicts_def map_filter_def
  by (auto simp: image_iff) force

lemma conflict_loop_optout:
  assumes "\<forall>c \<in> conflicts_of pool ins. \<not> HasTxLockRequest env (GetHash x c)"
    and "\<not> HasTxLockRequest env hash"
    and "\<forall>c \<in> conflicts_of pool ins. \<forall>c' \<in> conflicts_of pool ins.
           GetHash x c = GetHash x c' \<longrightarrow> fReplacementOptOut env c = fReplacementOptOut env c'"
    and "\<exists>c \<in> conflicts_of pool ins. fReplacementOptOut env c \<and> GetHash x c \<notin> set sc"
  shows "conflict_loop x env pool hash ins sc
           = Inl (Invalid 0 REJECT_CONFLICT ''txn-mempool-conflict'' False)"
  using assms
proof (induction ins arbitrary: sc)
  case Nil
  then show ?case by (simp add: conflicts_of_def)
next
  case (Cons txin ins)
  have sub: "conflicts_of pool ins \<subseteq> conflicts_of pool (txin # ins)"
    by (auto simp: conflicts_of_def)
  from Cons.prems(4) obtain c where c: "c \<in> conflicts_of pool (txin # ins)"
    "fReplacementOptOut env c" "GetHash x c \<notin> set sc" by blast
  have ih: "conflict_loop x env pool hash ins sc'
           = Inl (Invalid 0 REJECT_CONFLICT ''txn-mempool-conflict'' False)"
    if "\<exists>c \<in> conflicts_of pool ins. fReplacementOptOut env c \<and> GetHash x c \<notin> set sc'" for sc'
    using Cons.IH[of sc'] Cons.prems(1,2,3) sub that by blast
  show ?case
  proof (cases "mapNextTx pool (prevout txin)")
    case None
    with c(1) have "c \<in> conflicts_of pool ins" by (auto simp: conflicts_of_def)
    with c None show ?thesis using ih[of sc] by auto
  next
    case (Some d)
    then have d: "d \<in> conflicts_of pool (txin # ins)" by (auto simp: conflicts_of_def)
    then have nolock: "\<not> HasTxLockRequest env (GetHash x d)" using Cons.prems(1) by blast
    show ?thesis
    proof (cases "GetHash x d \<in> set sc")
      case True
      then have "c \<noteq> d" using c(3) by auto
      with c(1) Some have "c \<in> conflicts_of pool ins" by (auto simp: conflicts_of_def)
      with c Some True show ?thesis using ih[of sc] by auto
    next
      case False
      show ?thesis
      proof (cases "fReplacementOptOut env d")
        case True
        with Some False nolock Cons.prems(2) show ?thesis by simp
      next
        case nd: False
        then have ne: "GetHash x c \<noteq> GetHash x d"
          using Cons.prems(3) c(1,2) d by blast
        then have "c \<noteq> d" by auto
        with c(1) Some have "c \<in> conflicts_of pool ins" by (auto simp: conflicts_of_def)
        with c ne have "\<exists>c \<in> conflicts_of pool ins. fReplacementOptOut env c \<and>
              GetHash x c \<notin> set (insort (GetHash x d) sc)"
          by (auto simp: set_insort_key)
        from ih[OF this] Some False nolock Cons.prems(2) nd show ?thesis by simp
      qed
    qed
  qed
qed

lemma conflict_loop_Inr:
  assumes "conflict_loop x env pool hash ins sc = Inr sc'"
    and "sorted sc" and "distinct sc"
  shows "sorted sc' \<and> distinct sc' \<and> set sc' = set sc \<union> GetHash x ` conflicts_of pool ins
         \<and> (\<forall>c \<in> conflicts_of pool ins. GetHash x c \<notin> set sc \<longrightarrow>
               (\<exists>c' \<in> conflicts_of pool ins. GetHash x c' = GetHash x c \<and> \<not> fReplacementOptOut env c'))"
  using assms
proof (induction ins arbitrary: sc)
  case Nil
  then show ?case by (simp add: conflicts_of_def)
next
  case (Cons txin ins)
  show ?case
  proof (cases "mapNextTx pool (prevout txin)")
    case None
    then have eq: "conflicts_of pool (txin # ins) = conflicts_of pool ins"
      by (auto simp: conflicts_of_def)
    from Cons.prems None have "conflict_loop x env pool hash ins sc = Inr sc'" by simp
    from Cons.IH[OF this Cons.prems(2,3)] show ?thesis unfolding eq .
  next
    case (Some d)
    then have eq: "conflicts_of pool (txin # ins) = insert d (conflicts_of pool ins)"
      by (auto simp: conflicts_of_def)
    show ?thesis
    proof (cases "GetHash x d \<in> set sc")
      case True
      with Cons.prems Some have "conflict_loop x env pool hash ins sc = Inr sc'" by simp
      from Cons.IH[OF this Cons.prems(2,3)] True show ?thesis unfolding eq by auto
    next
      case False
      with Cons.prems(1) Some have nd: "\<not> fReplacementOptOut env d"
        and loop: "conflict_loop x env pool hash ins (insort (GetHash x d) sc) = Inr sc'"
        by (auto split: if_splits)
      have "sorted (insort (GetHash x d) sc)" "distinct (insort (GetHash x d) sc)"
        using Cons.prems(2,3) False by (auto simp: sorted_insort distinct_insort)
      from Cons.IH[OF loop this]
      have ih: "sorted sc'" "distinct sc'"
        "set sc' = set (insort (GetHash x d) sc) \<union> GetHash x ` conflicts_of pool ins"
        "\<forall>c \<in> conflicts_of pool ins. GetHash x c \<notin> set (insort (GetHash x d) sc) \<longrightarrow>
               (\<exists>c' \<in> conflicts_of pool ins. GetHash x c' = GetHash x c \<and> \<not> fReplacementOptOut env c')"
        by auto
      have "\<exists>c' \<in> insert d (conflicts_of pool ins). GetHash x c' = GetHash x c \<and> \<not> fReplacementOptOut env c'"
        if "c \<in> insert d (conflicts_of pool ins)" "GetHash x c \<notin> set sc" for c
      proof (cases "GetHash x c = GetHash x d")
        case True
        with nd show ?thesis by auto
      next
        case False
        with that have "c \<in> conflicts_of pool ins" "GetHash x c \<notin> set (insort (GetHash x d) sc)"
          by (auto simp: set_insort_key)
        with ih(4) show ?thesis by blast
      qed
      with ih(1,2,3) show ?thesis unfolding eq by (auto simp: set_insort_key)
    qed
  qed
qed


lemma replaced_loop_Inr:
  "replaced_loop env pool rate hs (its, ps, n) = Inr (its', ps', n') \<Longrightarrow>
   its' = its @ filter (\<lambda>h. mapTx pool h \<noteq> None) hs \<and>
   (\<forall>h \<in> set hs. \<forall>e. mapTx pool h = Some e \<longrightarrow>
        CFeeRate env (GetModifiedFee e) (entry_nTxSize e) < rate)"
proof (induction hs arbitrary: its ps n)
  case Nil
  then show ?case by simp
next
  case (Cons h hs)
  show ?case
  proof (cases "mapTx pool h")
    case None
    with Cons.prems have "replaced_loop env pool rate hs (its, ps, n) = Inr (its', ps', n')"
      by simp
    from Cons.IH[OF this] None show ?thesis by simp
  next
    case (Some mi)
    with Cons.prems have rate: "CFeeRate env (GetModifiedFee mi) (entry_nTxSize mi) < rate"
      and loop: "replaced_loop env pool rate hs
           (its @ [h], ps \<union> set (map (\<lambda>txin. prevout_hash (prevout txin)) (vin (entry_tx mi))),
            n + entry_nCountWithDescendants mi) = Inr (its', ps', n')"
      by (auto split: if_splits)
    from Cons.IH[OF loop] Some rate show ?thesis by simp
  qed
qed

lemma replaced_loop_Inl:
  "replaced_loop env pool rate hs acc = Inl e \<Longrightarrow> e = insufficient_fee \<Longrightarrow>
   \<exists>h \<in> set hs. \<exists>mi. mapTx pool h = Some mi \<and>
      \<not> CFeeRate env (GetModifiedFee mi) (entry_nTxSize mi) < rate"
proof (induction hs arbitrary: acc)
  case Nil
  then show ?case by simp
next
  case (Cons h hs)
  obtain its ps n where acc: "acc = (its, ps, n)" by (cases acc) auto
  show ?case
  proof (cases "mapTx pool h")
    case None
    with Cons.prems acc have "replaced_loop env pool rate hs acc = Inl e" by simp
    from Cons.IH[OF this Cons.prems(2)] show ?thesis by auto
  next
    case (Some mi)
    show ?thesis
    proof (cases "CFeeRate env (GetModifiedFee mi) (entry_nTxSize mi) < rate")
      case False
      with Some show ?thesis by auto
    next
      case True
      with Cons.prems acc Some obtain acc' where "replaced_loop env pool rate hs acc' = Inl e"
        by (auto simp: insufficient_fee_def split: if_splits)
      from Cons.IH[OF this Cons.prems(2)] show ?thesis by auto
    qed
  qed
qed

lemma conflict_hashes_eq:
  assumes "sorted sc" "distinct sc" "set sc = GetHash x ` set (direct_conflicts pool tx)"
  shows "sc = conflict_hashes x pool tx"
proof -
  have "sorted (conflict_hashes x pool tx)" "distinct (conflict_hashes x pool tx)"
    "set (conflict_hashes x pool tx) = GetHash x ` set (direct_conflicts pool tx)"
    by (auto simp: conflict_hashes_def)
  with assms show ?thesis by (metis sorted_distinct_set_unique)
qed

lemma find_conflicts_Inr:
  assumes "find_conflicts x env pool tx = Inr sc" and "\<not> IsZerocoinSpend x tx"
  shows "sc = conflict_hashes x pool tx \<and>
         (\<forall>c \<in> set (direct_conflicts pool tx).
            \<exists>c' \<in> set (direct_conflicts pool tx). GetHash x c' = GetHash x c \<and> \<not> fReplacementOptOut env c')"
proof -
  from assms have "conflict_loop x env pool (GetHash x tx) (vin tx) [] = Inr sc"
    by (simp add: find_conflicts_def)
  from conflict_loop_Inr[OF this] have "sorted sc" "distinct sc"
    "set sc = GetHash x ` conflicts_of pool (vin tx)"
    "\<forall>c \<in> conflicts_of pool (vin tx).
               (\<exists>c' \<in> conflicts_of pool (vin tx). GetHash x c' = GetHash x c \<and> \<not> fReplacementOptOut env c')"
    by auto
  moreover have "conflicts_of pool (vin tx) = set (direct_conflicts pool tx)"
    by (simp add: conflicts_of_def direct_conflicts_set)
  ultimately show ?thesis using conflict_hashes_eq by auto
qed

lemma replacement_checks_Inr:
  assumes "replacement_checks env pool tx fee nSize (conflict_hashes x pool tx) = Inr allc"
    and "direct_conflicts pool tx \<noteq> []"
  shows "replacement_pays x env pool tx fee nSize"
proof -
  let ?hs = "conflict_hashes x pool tx"
  have ne: "?hs \<noteq> []" using assms(2)
    by (metis conflict_hashes_def set_empty set_remdups set_sort list.map_disc_iff)
  with assms(1) obtain its ps n where
    loop: "replaced_loop env pool (CFeeRate env fee nSize) ?hs ([], {}, 0) = Inr (its, ps, n)"
    by (auto simp: replacement_checks_def split: sum.splits)
  from replaced_loop_Inr[OF loop] have its: "its = filter (\<lambda>h. mapTx pool h \<noteq> None) ?hs"
    and rates: "\<forall>h \<in> set ?hs. \<forall>e. mapTx pool h = Some e \<longrightarrow>
        CFeeRate env (GetModifiedFee e) (entry_nTxSize e) < CFeeRate env fee nSize"
    by auto
  have allc: "fold (CalculateDescendants env pool) its [] = all_conflicting x env pool tx"
    by (simp add: all_conflicting_def its)
  from assms(1) ne loop
  have "conflicting_fees pool (all_conflicting x env pool tx) \<le> fee \<and>
     minRelayTxFee_GetFee env nSize \<le> fee - conflicting_fees pool (all_conflicting x env pool tx)"
    by (auto simp: replacement_checks_def Let_def allc split: if_splits)
  moreover have "list_all (\<lambda>c. case mapTx pool (GetHash x c) of
                      None \<Rightarrow> True
                    | Some e \<Rightarrow> CFeeRate env (GetModifiedFee e) (entry_nTxSize e)
                                < CFeeRate env fee nSize) (direct_conflicts pool tx)"
    using rates by (auto simp: list_all_iff conflict_hashes_def split: option.splits)
  ultimately show ?thesis by (simp add: replacement_pays_def)
qed

lemma replacement_checks_Inl:
  assumes "replacement_checks env pool tx fee nSize (conflict_hashes x pool tx) = Inl insufficient_fee"
  shows "\<not> replacement_pays x env pool tx fee nSize"
proof -
  let ?hs = "conflict_hashes x pool tx"
  from assms have ne: "?hs \<noteq> []" by (auto simp: replacement_checks_def)
  show ?thesis
  proof (cases "replaced_loop env pool (CFeeRate env fee nSize) ?hs ([], {}, 0)")
    case (Inl e)
    with assms ne have "e = insufficient_fee" by (simp add: replacement_checks_def)
    from replaced_loop_Inl[OF Inl this] obtain h mi where
      "h \<in> set ?hs" "mapTx pool h = Some mi"
      "\<not> CFeeRate env (GetModifiedFee mi) (entry_nTxSize mi) < CFeeRate env fee nSize"
      by blast
    then show ?thesis
      by (auto simp: replacement_pays_def list_all_iff conflict_hashes_def split: option.splits)
  next
    case (Inr r)
    obtain its ps n where r: "r = (its, ps, n)" by (cases r) auto
    from replaced_loop_Inr[OF Inr[unfolded r]]
    have its: "its = filter (\<lambda>h. mapTx pool h \<noteq> None) ?hs" by auto
    have allc: "fold (CalculateDescendants env pool) its [] = all_conflicting x env pool tx"
      by (simp add: all_conflicting_def its)
    from assms ne Inr r
    have "\<not> (conflicting_fees pool (all_conflicting x env pool tx) \<le> fee \<and>
     minRelayTxFee_GetFee env nSize \<le> fee - conflicting_fees pool (all_conflicting x env pool tx))"
      by (auto simp: replacement_checks_def Let_def allc insufficient_fee_def split: if_splits)
    then show ?thesis by (simp add: replacement_pays_def)
  qed
qed


lemma conflict_loop_not_fee:
  "conflict_loop x env pool hash ins sc = Inl e \<Longrightarrow> e \<noteq> insufficient_fee"
  by (induction ins arbitrary: sc)
     (auto simp: insufficient_fee_def split: option.splits if_splits)


lemma lookup_inputs_Inl:
  "lookup_inputs x env m chainTip pcoinsTip pool tx missing uncache = (Inl e, missing', uncache')
   \<Longrightarrow> e \<noteq> insufficient_fee"
  by (auto simp: lookup_inputs_def Let_def insufficient_fee_def dest: CheckSequenceLocks_Crash
        split: prod.splits bool.splits if_splits sum.splits)

lemma lookup_inputs_Inr:
  "lookup_inputs x env m chainTip pcoinsTip pool tx missing uncache = (Inr v, missing', uncache')
   \<Longrightarrow> v = GetValueIn x (CCoinsViewMemPool pcoinsTip pool) tx"
  by (auto simp: lookup_inputs_def Let_def
        split: prod.splits bool.splits if_splits sum.splits)

lemma mempool_policy_Inl:
  "mempool_policy x env pool view tx nValueIn fLimitFree fRejectAbsurdFee sc = Inl e
   \<Longrightarrow> e \<noteq> insufficient_fee"
  by (auto simp: mempool_policy_def Let_def insufficient_fee_def GetP2SHSigOpCount_def
        dest: P2SH_loop_Crash split: if_splits sum.splits option.splits)

lemma mempool_policy_Inr:
  "mempool_policy x env pool view tx nValueIn fLimitFree fRejectAbsurdFee sc = Inr pol
   \<Longrightarrow> p_nModifiedFees pol = ApplyDeltas env pool (GetHash x tx) (nValueIn - GetValueOut tx) \<and>
       p_nSize pol = GetTxSize env tx"
  by (auto simp: mempool_policy_def Let_def split: if_splits sum.splits option.splits)

lemma check_input_values_not_fee:
  "check_input_values x inputs h ins v = Inl e \<Longrightarrow> e \<noteq> insufficient_fee"
  by (induction ins arbitrary: v)
     (auto simp: insufficient_fee_def split: option.splits if_splits)

lemma script_loop_not_fee:
  "script_loop x tx inputs flags queue i ins ok = Inl e \<Longrightarrow> e \<noteq> insufficient_fee"
  by (induction ins arbitrary: i ok)
     (auto simp: insufficient_fee_def split: option.splits if_splits)

lemma CheckInputs_not_fee:
  "CheckInputs x m tx inputs checks flags queue = Inl e \<Longrightarrow> e \<noteq> insufficient_fee"
  by (auto simp: CheckInputs_def GetSpendHeight_def CheckTxInputs_def insufficient_fee_def
        dest: check_input_values_not_fee script_loop_not_fee
        split: if_splits sum.splits option.splits)

lemma store_tx_not_fee:
  "store_tx x env cenv m pool view tx pol allc fOverride = (Inl e, pool') \<Longrightarrow> e \<noteq> insufficient_fee"
  by (auto simp: store_tx_def Let_def insufficient_fee_def dest: CheckInputs_not_fee
        split: sum.splits if_splits)

lemma conflict_loop_succeeds:
  assumes "\<forall>c \<in> conflicts_of pool ins.
             \<not> HasTxLockRequest env (GetHash x c) \<and> \<not> fReplacementOptOut env c"
    and "\<not> HasTxLockRequest env hash"
  shows "\<exists>sc'. conflict_loop x env pool hash ins sc = Inr sc'"
  using assms
proof (induction ins arbitrary: sc)
  case Nil
  then show ?case by simp
next
  case (Cons txin ins)
  have sub: "conflicts_of pool ins \<subseteq> conflicts_of pool (txin # ins)"
    by (auto simp: conflicts_of_def)
  with Cons.prems have ih: "\<exists>sc'. conflict_loop x env pool hash ins sc0 = Inr sc'" for sc0
    by (intro Cons.IH) blast
  show ?case
  proof (cases "mapNextTx pool (prevout txin)")
    case None
    with ih[of sc] show ?thesis by simp
  next
    case (Some d)
    then have "d \<in> conflicts_of pool (txin # ins)" by (auto simp: conflicts_of_def)
    with Cons.prems have "\<not> HasTxLockRequest env (GetHash x d)" "\<not> fReplacementOptOut env d"
      by blast+
    with Some ih[of sc] ih[of "insort (GetHash x d) sc"] Cons.prems(2) show ?thesis by simp
  qed
qed

lemma map_filter_sum:
  "sum_list (map (\<lambda>h. case m h of None \<Rightarrow> 0 | Some e \<Rightarrow> f e) hs)
     = (sum_list (map f (List.map_filter m hs)) :: nat)"
  by (induction hs) (auto simp: map_filter_simps split: option.splits)

lemma map_filter_set:
  "set (List.map_filter m hs) = {e. \<exists>h \<in> set hs. m h = Some e}"
  by (induction hs) (auto simp: map_filter_simps split: option.splits)

lemma replaced_loop_no_dirty:
  assumes "\<forall>h \<in> set hs. \<forall>e. mapTx pool h = Some e \<longrightarrow> \<not> entry_dirty e"
  shows "replaced_loop env pool rate hs (its, ps, n) =
     (if \<forall>h \<in> set hs. \<forall>e. mapTx pool h = Some e \<longrightarrow>
            CFeeRate env (GetModifiedFee e) (entry_nTxSize e) < rate
      then Inr (its @ filter (\<lambda>h. mapTx pool h \<noteq> None) hs,
                ps \<union> {t. \<exists>e \<in> set (List.map_filter (mapTx pool) hs).
                            \<exists>i \<in> set (vin (entry_tx e)). prevout_hash (prevout i) = t},
                n + sum_list (map entry_nCountWithDescendants (List.map_filter (mapTx pool) hs)))
      else Inl insufficient_fee)"
  using assms
proof (induction hs arbitrary: its ps n)
  case Nil
  then show ?case by (simp add: map_filter_simps)
next
  case (Cons h hs)
  then have ih: "replaced_loop env pool rate hs (its', ps', n') =
     (if \<forall>h \<in> set hs. \<forall>e. mapTx pool h = Some e \<longrightarrow>
            CFeeRate env (GetModifiedFee e) (entry_nTxSize e) < rate
      then Inr (its' @ filter (\<lambda>h. mapTx pool h \<noteq> None) hs,
                ps' \<union> {t. \<exists>e \<in> set (List.map_filter (mapTx pool) hs).
                            \<exists>i \<in> set (vin (entry_tx e)). prevout_hash (prevout i) = t},
                n' + sum_list (map entry_nCountWithDescendants (List.map_filter (mapTx pool) hs)))
      else Inl insufficient_fee)" for its' ps' n'
    by simp
  show ?case
  proof (cases "mapTx pool h")
    case None
    then show ?thesis by (simp add: ih map_filter_simps)
  next
    case (Some mi)
    with Cons.prems have nd: "\<not> entry_dirty mi" by simp
    show ?thesis
    proof (cases "CFeeRate env (GetModifiedFee mi) (entry_nTxSize mi) < rate")
      case False
      with Some nd show ?thesis by (auto simp: insufficient_fee_def)
    next
      case True
      have "ps \<union> set (map (\<lambda>txin. prevout_hash (prevout txin)) (vin (entry_tx mi))) \<union>
              {t. \<exists>e \<in> set (List.map_filter (mapTx pool) hs).
                            \<exists>i \<in> set (vin (entry_tx e)). prevout_hash (prevout i) = t}
            = ps \<union> {t. \<exists>e \<in> set (List.map_filter (mapTx pool) (h # hs)).
                            \<exists>i \<in> set (vin (entry_tx e)). prevout_hash (prevout i) = t}"
        using Some by (auto simp: map_filter_simps)
      with Some nd True show ?thesis by (simp add: ih map_filter_simps)
    qed
  qed
qed


lemma replacement_checks_feasible:
  assumes ne: "direct_conflicts pool tx \<noteq> []" and feas: "replacement_feasible x pool tx"
  shows "replacement_checks env pool tx fee nSize (conflict_hashes x pool tx) =
           (if replacement_pays x env pool tx fee nSize
            then Inr (all_conflicting x env pool tx) else Inl insufficient_fee)"
proof -
  let ?hs = "conflict_hashes x pool tx"
  let ?es = "conflict_entries x pool tx"
  let ?rate = "CFeeRate env fee nSize"
  let ?ok = "\<forall>h \<in> set ?hs. \<forall>e. mapTx pool h = Some e \<longrightarrow>
                CFeeRate env (GetModifiedFee e) (entry_nTxSize e) < ?rate"
  have hs_ne: "?hs \<noteq> []" using ne
    by (metis conflict_hashes_def set_empty set_remdups set_sort list.map_disc_iff)
  have set_hs: "set ?hs = GetHash x ` set (direct_conflicts pool tx)"
    by (simp add: conflict_hashes_def)
  have es: "?es = List.map_filter (mapTx pool) ?hs" by (simp add: conflict_entries_def)
  from feas have nd: "\<forall>h \<in> set ?hs. \<forall>e. mapTx pool h = Some e \<longrightarrow> \<not> entry_dirty e"
    and cnt: "sum_list (map entry_nCountWithDescendants ?es) \<le> maxDescendantsToVisit"
    and conf: "list_all (\<lambda>txin.
         list_ex (\<lambda>e. list_ex (\<lambda>i. prevout_hash (prevout i) = prevout_hash (prevout txin))
                              (vin (entry_tx e))) ?es \<or>
         mapTx pool (prevout_hash (prevout txin)) = None) (vin tx)"
    by (auto simp: replacement_feasible_def list_all_iff es map_filter_set)
  have rates: "?ok \<longleftrightarrow> list_all (\<lambda>c. case mapTx pool (GetHash x c) of
                      None \<Rightarrow> True
                    | Some e \<Rightarrow> CFeeRate env (GetModifiedFee e) (entry_nTxSize e) < ?rate)
              (direct_conflicts pool tx)"
    by (auto simp: set_hs list_all_iff split: option.splits)
  note loop = replaced_loop_no_dirty[OF nd, of env ?rate "[]" "{}" 0]
  show ?thesis
  proof (cases ?ok)
    case False
    with loop have "replaced_loop env pool ?rate ?hs ([], {}, 0) = Inl insufficient_fee"
      by (simp only: if_False)
    moreover from False rates have "\<not> replacement_pays x env pool tx fee nSize"
      by (simp add: replacement_pays_def)
    ultimately show ?thesis using hs_ne by (simp add: replacement_checks_def)
  next
    case True
    let ?ps = "{t. \<exists>e \<in> set ?es. \<exists>i \<in> set (vin (entry_tx e)). prevout_hash (prevout i) = t}"
    from True loop have l: "replaced_loop env pool ?rate ?hs ([], {}, 0) =
        Inr (filter (\<lambda>h. mapTx pool h \<noteq> None) ?hs, ?ps,
             sum_list (map entry_nCountWithDescendants ?es))"
      by (simp add: es)
    have unconf: "\<not> list_ex (\<lambda>txin. prevout_hash (prevout txin) \<notin> ?ps \<and>
                        mapTx pool (prevout_hash (prevout txin)) \<noteq> None) (vin tx)"
      using conf by (auto simp: list_all_iff list_ex_iff)
    have allc: "fold (CalculateDescendants env pool) (filter (\<lambda>h. mapTx pool h \<noteq> None) ?hs) []
                  = all_conflicting x env pool tx"
      by (simp add: all_conflicting_def)
    have pays: "replacement_pays x env pool tx fee nSize \<longleftrightarrow>
        conflicting_fees pool (all_conflicting x env pool tx) \<le> fee \<and>
        minRelayTxFee_GetFee env nSize \<le> fee - conflicting_fees pool (all_conflicting x env pool tx)"
      using True rates by (simp add: replacement_pays_def)
    show ?thesis
      using hs_ne l cnt unconf
      by (auto simp add: replacement_checks_def pays Let_def insufficient_fee_def not_less
            all_conflicting_def)
  qed
qed

text \<open>
  C6 (as amended). A transaction that passes the first checks of admission, is no zerocoin
  spend and conflicts with transactions of the pool, none of them under an InstantSend
  lock request: when replacement is switched off, or every input of one of the
  conflicting transactions has a sequence number of at least \<open>0xfffffffe\<close>, it is
  rejected with \<open>txn-mempool-conflict\<close> and the pool stays as it is. Otherwise, that is
  with replacement switched on and every conflicting transaction signalling, it is
  rejected with \<open>insufficient fee\<close>, the pool staying as it is, unless its fee rate is
  above that of each conflicting entry and its fee covers the fees of all the entries
  it evicts plus the relay fee for its own size; this for a transaction that gets as
  far as the fee rules, its inputs being found and final and the checks of fees, size
  and ancestors passed, and that meets the other tests of a replacement. Conversely it
  is accepted only if replacement is switched on, every conflicting transaction signals
  and the fee rules are met, and \<open>insufficient fee\<close> is only answered when they are not.
\<close>

theorem AcceptToMemoryPoolWorker_replacement:
  assumes pre: "mempool_prechecks x env lim pool tx = Inr ()"
    and nz: "\<not> IsZerocoinSpend x tx"
    and conflicts: "direct_conflicts pool tx \<noteq> []"
    and no_lock: "\<not> HasTxLockRequest env (GetHash x tx)"
    and no_locks: "\<forall>c \<in> set (direct_conflicts pool tx). \<not> HasTxLockRequest env (GetHash x c)"
    and inj: "inj_on (GetHash x) (set (direct_conflicts pool tx))"
  shows "((\<not> fEnableReplacement env \<or>
           (\<exists>c \<in> set (direct_conflicts pool tx). \<forall>txin \<in> set (vin c). nSequence txin \<ge> 0xfffffffe)) \<longrightarrow>
          AcceptToMemoryPoolWorker x env cenv lim m chainTip pcoinsTip pool tx fLimitFree pfMissingInputs
              fOverrideMempoolLimit fRejectAbsurdFee coins_to_uncache fDryRun
            = (Inl (Invalid 0 REJECT_CONFLICT ''txn-mempool-conflict'' False),
               map_option (\<lambda>b. False) pfMissingInputs, pool, coins_to_uncache)) \<and>
         (fst (AcceptToMemoryPoolWorker x env cenv lim m chainTip pcoinsTip pool tx fLimitFree
                 pfMissingInputs fOverrideMempoolLimit fRejectAbsurdFee coins_to_uncache fDryRun)
            = Inr () \<longrightarrow>
          fEnableReplacement env \<and>
          (\<forall>c \<in> set (direct_conflicts pool tx). \<exists>txin \<in> set (vin c). nSequence txin < 0xfffffffe) \<and>
          replacement_pays x env pool tx
            (ApplyDeltas env pool (GetHash x tx)
               (GetValueIn x (CCoinsViewMemPool pcoinsTip pool) tx - GetValueOut tx))
            (GetTxSize env tx)) \<and>
         (fst (AcceptToMemoryPoolWorker x env cenv lim m chainTip pcoinsTip pool tx fLimitFree
                 pfMissingInputs fOverrideMempoolLimit fRejectAbsurdFee coins_to_uncache fDryRun)
            = Inl insufficient_fee \<longrightarrow>
          \<not> replacement_pays x env pool tx
            (ApplyDeltas env pool (GetHash x tx)
               (GetValueIn x (CCoinsViewMemPool pcoinsTip pool) tx - GetValueOut tx))
            (GetTxSize env tx)) \<and>
         (fEnableReplacement env \<and>
          (\<forall>c \<in> set (direct_conflicts pool tx). \<exists>txin \<in> set (vin c). nSequence txin < 0xfffffffe) \<and>
          lookup_inputs x env m chainTip pcoinsTip pool tx (map_option (\<lambda>b. False) pfMissingInputs)
              coins_to_uncache = (Inr nValueIn, missing, uncache) \<and>
          mempool_policy x env pool (CCoinsViewMemPool pcoinsTip pool) tx nValueIn fLimitFree
              fRejectAbsurdFee (conflict_hashes x pool tx) = Inr pol \<and>
          replacement_feasible x pool tx \<and>
          \<not> replacement_pays x env pool tx
            (ApplyDeltas env pool (GetHash x tx)
               (GetValueIn x (CCoinsViewMemPool pcoinsTip pool) tx - GetValueOut tx))
            (GetTxSize env tx) \<longrightarrow>
          AcceptToMemoryPoolWorker x env cenv lim m chainTip pcoinsTip pool tx fLimitFree pfMissingInputs
              fOverrideMempoolLimit fRejectAbsurdFee coins_to_uncache fDryRun
            = (Inl insufficient_fee, missing, pool, uncache))"
    (is "(?optout \<longrightarrow> ?rejected) \<and> (?accepted \<longrightarrow> ?rules) \<and> (?fee \<longrightarrow> ?unpaid) \<and>
         (?passes \<longrightarrow> ?answered)")
proof -
  let ?cs = "set (direct_conflicts pool tx)"
  let ?res = "AcceptToMemoryPoolWorker x env cenv lim m chainTip pcoinsTip pool tx fLimitFree
                 pfMissingInputs fOverrideMempoolLimit fRejectAbsurdFee coins_to_uncache fDryRun"
  let ?pays = "replacement_pays x env pool tx
            (ApplyDeltas env pool (GetHash x tx)
               (GetValueIn x (CCoinsViewMemPool pcoinsTip pool) tx - GetValueOut tx))
            (GetTxSize env tx)"
  have cs: "conflicts_of pool (vin tx) = ?cs"
    by (simp add: conflicts_of_def direct_conflicts_set)
  have signals: "fReplacementOptOut env c \<longleftrightarrow>
      \<not> fEnableReplacement env \<or> (\<forall>txin \<in> set (vin c). nSequence txin \<ge> 0xfffffffe)" for c
    by (auto simp: fReplacementOptOut_def list_ex_iff not_less)
  have first: ?rejected if ?optout
  proof -
    from conflicts obtain c0 where c0: "c0 \<in> ?cs" by (cases "direct_conflicts pool tx") auto
    from that c0 have "\<exists>c \<in> ?cs. fReplacementOptOut env c" using signals by blast
    then have "conflict_loop x env pool (GetHash x tx) (vin tx) []
           = Inl (Invalid 0 REJECT_CONFLICT ''txn-mempool-conflict'' False)"
      using no_lock no_locks inj
      by (intro conflict_loop_optout) (auto simp: cs dest: inj_onD)
    with nz have "find_conflicts x env pool tx
           = Inl (Invalid 0 REJECT_CONFLICT ''txn-mempool-conflict'' False)"
      by (simp add: find_conflicts_def)
    with pre show ?thesis by (simp add: AcceptToMemoryPoolWorker_def)
  qed
  have rest: "(?accepted \<longrightarrow> ?rules) \<and> (?fee \<longrightarrow> ?unpaid)"
  proof (cases "find_conflicts x env pool tx")
    case (Inl e)
    with nz have "e \<noteq> insufficient_fee"
      by (auto simp: find_conflicts_def dest: conflict_loop_not_fee)
    with pre Inl show ?thesis by (simp add: AcceptToMemoryPoolWorker_def)
  next
    case (Inr sc)
    from find_conflicts_Inr[OF Inr nz] have sc: "sc = conflict_hashes x pool tx"
      and some: "\<forall>c \<in> ?cs. \<exists>c' \<in> ?cs. GetHash x c' = GetHash x c \<and> \<not> fReplacementOptOut env c'"
      by auto
    have all: "\<not> fReplacementOptOut env c" if "c \<in> ?cs" for c
      using some that inj by (metis inj_onD)
    from conflicts obtain c0 where c0: "c0 \<in> ?cs" by (cases "direct_conflicts pool tx") auto
    have enabled: "fEnableReplacement env" using all[OF c0] signals by blast
    have signalling: "\<forall>c \<in> ?cs. \<exists>txin \<in> set (vin c). nSequence txin < 0xfffffffe"
      using all signals by (meson not_less)
    obtain r1 missing uncache where
      look: "lookup_inputs x env m chainTip pcoinsTip pool tx (map_option (\<lambda>b. False) pfMissingInputs)
               coins_to_uncache = (r1, missing, uncache)"
      by (metis prod_cases3)
    show ?thesis
    proof (cases r1)
      case (Inl e)
      with look have "e \<noteq> insufficient_fee" by (auto dest: lookup_inputs_Inl)
      with pre Inr look Inl show ?thesis by (simp add: AcceptToMemoryPoolWorker_def)
    next
      case v: (Inr v)
      with look have v_eq: "v = GetValueIn x (CCoinsViewMemPool pcoinsTip pool) tx"
        by (auto dest: lookup_inputs_Inr)
      show ?thesis
      proof (cases "mempool_policy x env pool (CCoinsViewMemPool pcoinsTip pool) tx v fLimitFree
               fRejectAbsurdFee sc")
        case (Inl e)
        then have "e \<noteq> insufficient_fee" by (rule mempool_policy_Inl)
        with pre Inr look v Inl nz show ?thesis by (simp add: AcceptToMemoryPoolWorker_def)
      next
        case pol: (Inr pol)
        from mempool_policy_Inr[OF pol]
        have fee: "p_nModifiedFees pol = ApplyDeltas env pool (GetHash x tx)
               (GetValueIn x (CCoinsViewMemPool pcoinsTip pool) tx - GetValueOut tx)"
          and nSize: "p_nSize pol = GetTxSize env tx"
          by (simp_all add: v_eq)
        show ?thesis
        proof (cases "replacement_checks env pool tx (p_nModifiedFees pol) (p_nSize pol) sc")
          case (Inl e)
          have "?unpaid" if "e = insufficient_fee"
            using replacement_checks_Inl[of env pool tx "p_nModifiedFees pol" "p_nSize pol" x]
              Inl that
            by (simp add: sc fee nSize)
          with pre Inr look v pol nz Inl show ?thesis
            by (simp add: AcceptToMemoryPoolWorker_def)
        next
          case allc: (Inr allc)
          have pays: ?pays
            using replacement_checks_Inr[of env pool tx "p_nModifiedFees pol" "p_nSize pol" x allc]
              allc conflicts
            by (simp add: sc fee nSize)
          have "fst ?res \<noteq> Inl insufficient_fee"
            using pre Inr look v pol nz allc
            by (auto simp: AcceptToMemoryPoolWorker_def dest: store_tx_not_fee split: prod.splits)
          with pays enabled signalling show ?thesis by simp
        qed
      qed
    qed
  qed
  have fourth: ?answered if p: ?passes
  proof -
    from p have enabled: "fEnableReplacement env"
      and sig: "\<forall>c \<in> ?cs. \<exists>txin \<in> set (vin c). nSequence txin < 0xfffffffe"
      and look: "lookup_inputs x env m chainTip pcoinsTip pool tx
              (map_option (\<lambda>b. False) pfMissingInputs) coins_to_uncache
            = (Inr nValueIn, missing, uncache)"
      and pol: "mempool_policy x env pool (CCoinsViewMemPool pcoinsTip pool) tx nValueIn fLimitFree
              fRejectAbsurdFee (conflict_hashes x pool tx) = Inr pol"
      and feas: "replacement_feasible x pool tx"
      and unpaid: "\<not> ?pays"
      by blast+
    have "\<forall>c \<in> conflicts_of pool (vin tx).
             \<not> HasTxLockRequest env (GetHash x c) \<and> \<not> fReplacementOptOut env c"
      using no_locks enabled sig signals unfolding cs by (meson not_less)
    from conflict_loop_succeeds[OF this no_lock, where sc = "[]"] nz obtain sc where
      fc: "find_conflicts x env pool tx = Inr sc"
      by (auto simp: find_conflicts_def)
    from find_conflicts_Inr[OF fc nz] have sc: "sc = conflict_hashes x pool tx" by simp
    from lookup_inputs_Inr[OF look]
    have v: "nValueIn = GetValueIn x (CCoinsViewMemPool pcoinsTip pool) tx" .
    from mempool_policy_Inr[OF pol]
    have fee: "p_nModifiedFees pol = ApplyDeltas env pool (GetHash x tx)
               (GetValueIn x (CCoinsViewMemPool pcoinsTip pool) tx - GetValueOut tx)"
      and nSize: "p_nSize pol = GetTxSize env tx"
      by (simp_all add: v)
    have "replacement_checks env pool tx (p_nModifiedFees pol) (p_nSize pol)
            (conflict_hashes x pool tx) = Inl insufficient_fee"
      using replacement_checks_feasible[OF conflicts feas, of env "p_nModifiedFees pol" "p_nSize pol"]
        unpaid
      by (simp add: fee nSize)
    with pre fc sc look pol nz show ?thesis
      by (simp add: AcceptToMemoryPoolWorker_def)
  qed
  from first rest fourth show ?thesis by blast
qed

lemmas replacement_defs = replacement_feasible_def conflict_entries_def example_wide_transfer_def
  example_pool_wide_def

theorem AcceptToMemoryPoolWorker_replacement_witness:
  "direct_conflicts (example_pool 0) (example_transfer 201 (COutPoint 50 0) 0xffffffff 5)
     = [example_transfer 200 (COutPoint 50 0) 0 8] \<and>
   fst (AcceptToMemoryPoolWorker example_ext (example_mempool_env True) example_env example_limits
         example_chain (Some 2) (example_view (COutPoint 50 0)) (example_pool 0)
         (example_transfer 201 (COutPoint 50 0) 0xffffffff 5) True (Some False) False True [] False)
     = Inr () \<and>
   replacement_pays example_ext (example_mempool_env True) (example_pool 0)
      (example_transfer 201 (COutPoint 50 0) 0xffffffff 5) 5 62 \<and>
   AcceptToMemoryPoolWorker example_ext (example_mempool_env True) example_env example_limits
         example_chain (Some 2) (example_view (COutPoint 50 0)) (example_pool 0xffffffff)
         (example_transfer 201 (COutPoint 50 0) 0xffffffff 5) True (Some False) False True [] False
     = (Inl (Invalid 0 REJECT_CONFLICT ''txn-mempool-conflict'' False), Some False,
        example_pool 0xffffffff, []) \<and>
   AcceptToMemoryPoolWorker example_ext (example_mempool_env True) example_env example_limits
         example_chain (Some 2) (example_view (COutPoint 50 0)) (example_pool 0)
         (example_transfer 201 (COutPoint 50 0) 0xffffffff 9) True (Some False) False True [] False
     = (Inl insufficient_fee, Some False, example_pool 0, [COutPoint 50 0]) \<and>
   CFeeRate (example_mempool_env True) 2 161 < CFeeRate (example_mempool_env True) 1 62 \<and>
   AcceptToMemoryPoolWorker example_ext (example_mempool_env True) example_env example_limits
         example_chain (Some 2) (example_view (COutPoint 50 0)) example_pool_wide
         (example_transfer 201 (COutPoint 50 0) 0xffffffff 9) True (Some False) False True [] False
     = (Inl insufficient_fee, Some False, example_pool_wide, [COutPoint 50 0]) \<and>
   AcceptToMemoryPoolWorker example_ext (example_mempool_env True) example_env example_limits
         example_chain (Some 2) (example_view (COutPoint 50 0)) example_pool_wide
         (example_transfer 201 (COutPoint 50 0) 0xffffffff 8) True (Some False) False True [] False
     = (Inl insufficient_fee, Some False, example_pool_wide, [COutPoint 50 0])"
proof -
  note defs = example_defs connect_defs mempool_defs example_mempool_defs replacement_defs
  let ?env = "example_mempool_env True"
  let ?view = "example_view (COutPoint 50 0)"
  let ?tx = "\<lambda>v. example_transfer 201 (COutPoint 50 0) 0xffffffff v"
  let ?pol = "\<lambda>pool v. projr (mempool_policy example_ext ?env pool
      (CCoinsViewMemPool ?view pool) (?tx v) 10 True True (conflict_hashes example_ext pool (?tx v)))"
  note T = AcceptToMemoryPoolWorker_replacement [where x = example_ext and env = ?env
      and lim = example_limits and cenv = example_env and m = example_chain
      and chainTip = "Some 2" and pcoinsTip = ?view and fLimitFree = True
      and pfMissingInputs = "Some False" and fOverrideMempoolLimit = False
      and fRejectAbsurdFee = True and coins_to_uncache = "[]" and fDryRun = False
      and nValueIn = 10 and missing = "Some False" and uncache = "[COutPoint 50 0]"]
  have accepted: "fst (AcceptToMemoryPoolWorker example_ext ?env example_env example_limits
         example_chain (Some 2) ?view (example_pool 0) (?tx 5) True (Some False) False True []
         False) = Inr ()"
    by (simp add: defs)
  have pays: "replacement_pays example_ext ?env (example_pool 0) (?tx 5) 5 62"
    using T[where pool = "example_pool 0" and tx = "?tx 5" and pol = "?pol (example_pool 0) 5",
        THEN conjunct2, THEN conjunct1] accepted
    by (simp add: defs)
  have optout: "AcceptToMemoryPoolWorker example_ext ?env example_env example_limits
         example_chain (Some 2) ?view (example_pool 0xffffffff) (?tx 5) True (Some False) False
         True [] False
     = (Inl (Invalid 0 REJECT_CONFLICT ''txn-mempool-conflict'' False), Some False,
        example_pool 0xffffffff, [])"
    using T[where pool = "example_pool 0xffffffff" and tx = "?tx 5"
        and pol = "?pol (example_pool 0xffffffff) 5", THEN conjunct1]
    by (simp add: defs)
  have rate: "AcceptToMemoryPoolWorker example_ext ?env example_env example_limits
         example_chain (Some 2) ?view (example_pool 0) (?tx 9) True (Some False) False True []
         False
     = (Inl insufficient_fee, Some False, example_pool 0, [COutPoint 50 0])"
    using T[where pool = "example_pool 0" and tx = "?tx 9" and pol = "?pol (example_pool 0) 9",
        THEN conjunct2, THEN conjunct2, THEN conjunct2]
    by (simp add: defs)
  have below: "AcceptToMemoryPoolWorker example_ext ?env example_env example_limits
         example_chain (Some 2) ?view example_pool_wide (?tx 9) True (Some False) False True []
         False
     = (Inl insufficient_fee, Some False, example_pool_wide, [COutPoint 50 0])"
    using T[where pool = example_pool_wide and tx = "?tx 9" and pol = "?pol example_pool_wide 9",
        THEN conjunct2, THEN conjunct2, THEN conjunct2]
    by (simp add: defs)
  have relay: "AcceptToMemoryPoolWorker example_ext ?env example_env example_limits
         example_chain (Some 2) ?view example_pool_wide (?tx 8) True (Some False) False True []
         False
     = (Inl insufficient_fee, Some False, example_pool_wide, [COutPoint 50 0])"
    using T[where pool = example_pool_wide and tx = "?tx 8" and pol = "?pol example_pool_wide 8",
        THEN conjunct2, THEN conjunct2, THEN conjunct2]
    by (simp add: defs)
  have dc: "direct_conflicts (example_pool 0) (?tx 5) = [example_transfer 200 (COutPoint 50 0) 0 8]"
    by (simp add: defs)
  have cf: "CFeeRate ?env 2 161 < CFeeRate ?env 1 62" by (simp add: defs)
  from dc accepted pays optout rate cf below relay show ?thesis by simp
qed

theorem AcceptToMemoryPoolWorker_replacement_counterexample:
  "direct_conflicts (example_pool 0) (example_transfer 201 (COutPoint 50 0) 0xffffffff 9)
     = [example_transfer 200 (COutPoint 50 0) 0 8] \<and>
   nSequence (hd (vin (example_transfer 200 (COutPoint 50 0) 0 8))) < 0xfffffffe \<and>
   \<not> replacement_pays example_ext (example_mempool_env False) (example_pool 0)
      (example_transfer 201 (COutPoint 50 0) 0xffffffff 9) 1 62 \<and>
   AcceptToMemoryPoolWorker example_ext (example_mempool_env False) example_env example_limits
         example_chain (Some 2) (example_view (COutPoint 50 0)) (example_pool 0)
         (example_transfer 201 (COutPoint 50 0) 0xffffffff 9) True (Some False) False True [] False
     = (Inl (Invalid 0 REJECT_CONFLICT ''txn-mempool-conflict'' False), Some False,
        example_pool 0, [])"
  by (simp add: example_defs connect_defs mempool_defs example_mempool_defs)

end
